theory Spec2Isabelle
  imports Main "HOL-Library.Word" "HOL-Library.Monad_Syntax"
begin

unbundle bit_operations_syntax

section \<open>Configuration and on-disk layout (LibFS.c, lines 21-97)\<close>

text \<open>
  The constants \<open>SECTOR_SIZE\<close>, \<open>TOTAL_SECTORS\<close>, \<open>MAX_FILES\<close> and
  \<open>MAX_SECTORS_PER_FILE\<close> come from the headers LibDisk.h and LibFS.h, which are not
  part of the sources at hand. They are parameters of the model. C \<open>int\<close> values are
  modelled as \<open>int\<close>; the sizes below take \<open>sizeof(int) = 4\<close>, so that
  \<open>sizeof(dirent_t) = 16 + 4\<close> and \<open>sizeof(inode_t) = 8 + 4 * MAX_SECTORS_PER_FILE\<close>.

  An \<open>int\<close> has 32 bits. The additions of \<open>File_Read\<close> and \<open>File_Write\<close> that can
  leave its range are checked with \<open>int_range\<close>: a signed overflow is undefined
  behaviour in C (the compiled code wraps around, does not cut the length down to the end
  of the sector and copies beyond the sector's buffer), and the model has no result there
  (\<open>None\<close>).
\<close>

definition INT_MIN :: int where
  "INT_MIN = - 2147483648"

definition INT_MAX :: int where
  "INT_MAX = 2147483647"

definition int_range :: "int \<Rightarrow> bool" where
  "int_range x \<longleftrightarrow> INT_MIN \<le> x \<and> x \<le> INT_MAX"

record config =
  SECTOR_SIZE :: int
  TOTAL_SECTORS :: int
  MAX_FILES :: int
  MAX_SECTORS_PER_FILE :: int

definition SUPERBLOCK_START_SECTOR :: int where
  "SUPERBLOCK_START_SECTOR = 0"

definition OS_MAGIC :: int where
  "OS_MAGIC = 0xdeadbeef"

definition INODE_BITMAP_START_SECTOR :: int where
  "INODE_BITMAP_START_SECTOR = 1"

definition INODE_BITMAP_SIZE :: "config \<Rightarrow> int" where
  "INODE_BITMAP_SIZE c = (MAX_FILES c + 7) div 8"

definition INODE_BITMAP_SECTORS :: "config \<Rightarrow> int" where
  "INODE_BITMAP_SECTORS c = (INODE_BITMAP_SIZE c + SECTOR_SIZE c - 1) div SECTOR_SIZE c"

definition SECTOR_BITMAP_START_SECTOR :: "config \<Rightarrow> int" where
  "SECTOR_BITMAP_START_SECTOR c = INODE_BITMAP_START_SECTOR + INODE_BITMAP_SECTORS c"

definition SECTOR_BITMAP_SIZE :: "config \<Rightarrow> int" where
  "SECTOR_BITMAP_SIZE c = (TOTAL_SECTORS c + 7) div 8"

definition SECTOR_BITMAP_SECTORS :: "config \<Rightarrow> int" where
  "SECTOR_BITMAP_SECTORS c = (SECTOR_BITMAP_SIZE c + SECTOR_SIZE c - 1) div SECTOR_SIZE c"

definition INODE_TABLE_START_SECTOR :: "config \<Rightarrow> int" where
  "INODE_TABLE_START_SECTOR c = SECTOR_BITMAP_START_SECTOR c + SECTOR_BITMAP_SECTORS c"

definition sizeof_inode_t :: "config \<Rightarrow> int" where
  "sizeof_inode_t c = 8 + 4 * MAX_SECTORS_PER_FILE c"

definition INODES_PER_SECTOR :: "config \<Rightarrow> int" where
  "INODES_PER_SECTOR c = SECTOR_SIZE c div sizeof_inode_t c"

definition INODE_TABLE_SECTORS :: "config \<Rightarrow> int" where
  "INODE_TABLE_SECTORS c = (MAX_FILES c + INODES_PER_SECTOR c - 1) div INODES_PER_SECTOR c"

definition DATABLOCK_START_SECTOR :: "config \<Rightarrow> int" where
  "DATABLOCK_START_SECTOR c = INODE_TABLE_START_SECTOR c + INODE_TABLE_SECTORS c"

definition MAX_PATH :: nat where
  "MAX_PATH = 256"

definition MAX_NAME :: nat where
  "MAX_NAME = 16"

definition MAX_OPEN_FILES :: int where
  "MAX_OPEN_FILES = 256"

definition sizeof_dirent_t :: int where
  "sizeof_dirent_t = 20"

definition DIRENTS_PER_SECTOR :: "config \<Rightarrow> int" where
  "DIRENTS_PER_SECTOR c = SECTOR_SIZE c div sizeof_dirent_t"

section \<open>Records stored in sectors\<close>

type_synonym byte = "8 word"

text \<open>\<open>inode_t\<close>: the array \<open>data\<close> is a function of the index.\<close>

record inode_t =
  i_size :: int
  i_type :: int
  i_data :: "nat \<Rightarrow> int"

text \<open>\<open>dirent_t\<close>: \<open>fname\<close> holds the characters before the terminating NUL.\<close>

record dirent_t =
  d_fname :: string
  d_inode :: int

text \<open>\<open>open_file_t\<close>.\<close>

record open_file_t =
  of_inode :: int
  of_size :: int
  of_pos :: int

text \<open>
  The C code reads a sector into a \<open>char\<close> buffer and casts the buffer to the layout
  it expects. The model keeps the layout a sector was last written with: a sector is an
  array of bytes (bitmaps, file data), of directory entries or of inodes, indexed from 0.
  A sector that is read as inodes is decoded from its bytes: an \<open>int\<close> is four bytes in
  two's complement, the least significant byte first, and inode \<open>k\<close> starts at byte
  \<open>k * sizeof(inode_t)\<close>. The bytes of a sector of directory entries are those of the
  entries: entry \<open>k\<close> starts at byte \<open>k * sizeof(dirent_t)\<close>, with the name in its
  first 16 bytes (the characters, then zeros, as \<open>strncpy\<close> and \<open>memset\<close> leave
  them) and the inode number after it. The other reads under a layout that is not the one
  of the last write (inodes as bytes or as directory entries, bytes as directory entries,
  directory entries as bytes) have no meaning in the model: the functions below return
  \<open>None\<close> there, as they do for a failed \<open>assert\<close> and for an array index out of
  bounds.
\<close>

datatype sector =
    Raw "nat \<Rightarrow> byte"
  | Dirents "nat \<Rightarrow> dirent_t"
  | Inodes "nat \<Rightarrow> inode_t"

fun as_raw :: "sector \<Rightarrow> (nat \<Rightarrow> byte) option" where
  "as_raw (Raw b) = Some b"
| "as_raw _ = None"

fun as_dirents :: "sector \<Rightarrow> (nat \<Rightarrow> dirent_t) option" where
  "as_dirents (Dirents b) = Some b"
| "as_dirents _ = None"

definition int_of_bytes :: "(nat \<Rightarrow> byte) \<Rightarrow> nat \<Rightarrow> int" where
  "int_of_bytes b k =
     (let u = uint (b k) + 256 * uint (b (k + 1)) + 65536 * uint (b (k + 2))
                + 16777216 * uint (b (k + 3))
      in if u \<le> INT_MAX then u else u - 4294967296)"

definition inodes_of_bytes :: "config \<Rightarrow> (nat \<Rightarrow> byte) \<Rightarrow> nat \<Rightarrow> inode_t" where
  "inodes_of_bytes c b k =
     (let a = k * nat (sizeof_inode_t c)
      in \<lparr>i_size = int_of_bytes b a, i_type = int_of_bytes b (a + 4),
          i_data = (\<lambda>g. int_of_bytes b (a + 8 + 4 * g))\<rparr>)"

definition bytes_of_dirents :: "(nat \<Rightarrow> dirent_t) \<Rightarrow> nat \<Rightarrow> byte" where
  "bytes_of_dirents b j =
     (let dirent = b (j div nat sizeof_dirent_t);
          i = j mod nat sizeof_dirent_t
      in if i < MAX_NAME then
           (if i < length (d_fname dirent) then of_char (d_fname dirent ! i) else 0)
         else word_of_int (d_inode dirent div 256 ^ (i - MAX_NAME)))"

fun as_inodes :: "config \<Rightarrow> sector \<Rightarrow> (nat \<Rightarrow> inode_t) option" where
  "as_inodes c (Inodes b) = Some b"
| "as_inodes c (Raw b) = Some (inodes_of_bytes c b)"
| "as_inodes c (Dirents b) = Some (inodes_of_bytes c (bytes_of_dirents b))"

definition zero_inode :: inode_t where
  "zero_inode = \<lparr>i_size = 0, i_type = 0, i_data = (\<lambda>_. 0)\<rparr>"

definition zero_dirent :: dirent_t where
  "zero_dirent = \<lparr>d_fname = [], d_inode = 0\<rparr>"

definition zero_open_file :: open_file_t where
  "zero_open_file = \<lparr>of_inode = 0, of_size = 0, of_pos = 0\<rparr>"

section \<open>The block device\<close>

type_synonym disk = "int \<Rightarrow> sector"

text \<open>
  Modelled from the spec: the block device (LibDisk) is an external collaborator, absent
  from the sources: \<open>read(sector_no) -> bytes[sector_size]\<close> and
  \<open>write(sector_no, bytes[sector_size]) -> ok/fail\<close>. Both fail (\<open>None\<close>, the C
  functions return a negative value) for a sector number outside the volume.
\<close>

definition Disk_Read :: "config \<Rightarrow> disk \<Rightarrow> int \<Rightarrow> sector option" where
  "Disk_Read c d s = (if 0 \<le> s \<and> s < TOTAL_SECTORS c then Some (d s) else None)"

definition Disk_Write :: "config \<Rightarrow> disk \<Rightarrow> int \<Rightarrow> sector \<Rightarrow> disk option" where
  "Disk_Write c d s sec = (if 0 \<le> s \<and> s < TOTAL_SECTORS c then Some (d(s := sec)) else None)"

section \<open>Bitmaps (LibFS.c, lines 117-191)\<close>

definition BYTE10 :: "byte list" where
  "BYTE10 = [0x00, 0x80, 0xc0, 0xe0, 0xf0, 0xf8, 0xfc, 0xfe, 0xff]"

definition BYTE1 :: "byte list" where
  "BYTE1 = [0x80, 0x40, 0x20, 0x10, 0x08, 0x04, 0x02, 0x01]"

definition BYTE0 :: "byte list" where
  "BYTE0 = [0x7f, 0xbf, 0xdf, 0xef, 0xf7, 0xfb, 0xfd, 0xfe]"

text \<open>
  \<open>bitmap_init\<close>, the loop over the bytes of one sector: returns the buffer and the
  bits that remain to be set.
\<close>

function bitmap_init_j :: "config \<Rightarrow> (nat \<Rightarrow> byte) \<Rightarrow> int \<Rightarrow> int \<Rightarrow> (nat \<Rightarrow> byte) \<times> int" where
  "bitmap_init_j c buf nbits j =
     (if j < SECTOR_SIZE c then
        (if nbits > 8 then bitmap_init_j c (buf(nat j := 0xff)) (nbits - 8) (j + 1)
         else bitmap_init_j c (buf(nat j := BYTE10 ! nat nbits)) 0 (j + 1))
      else (buf, nbits))"
  by pat_completeness auto
termination
  by (relation "measure (\<lambda>(c, buf, nbits, j). nat (SECTOR_SIZE c - j))") auto

declare bitmap_init_j.simps [simp del]

text \<open>
  The loop over the sectors. The C buffer is not cleared between the sectors; the branch
  that fills it overwrites all of it.
\<close>

function bitmap_init_i :: "config \<Rightarrow> disk \<Rightarrow> (nat \<Rightarrow> byte) \<Rightarrow> int \<Rightarrow> int \<Rightarrow> int \<Rightarrow> int \<Rightarrow> disk" where
  "bitmap_init_i c d buf start num nbits i =
     (if i < num then
        (let (buf', nbits') =
               (if nbits > 0 then bitmap_init_j c buf nbits 0 else ((\<lambda>_. 0), nbits))
         in case Disk_Write c d (start + i) (Raw buf') of
              None \<Rightarrow> d
            | Some d' \<Rightarrow> bitmap_init_i c d' buf' start num nbits' (i + 1))
      else d)"
  by pat_completeness auto
termination
  by (relation "measure (\<lambda>(c, d, buf, start, num, nbits, i). nat (num - i))") auto

declare bitmap_init_i.simps [simp del]

definition bitmap_init :: "config \<Rightarrow> disk \<Rightarrow> int \<Rightarrow> int \<Rightarrow> int \<Rightarrow> disk" where
  "bitmap_init c d start num nbits = bitmap_init_i c d (\<lambda>_. 0) start num nbits 0"

text \<open>\<open>bitmap_first_unused\<close>: the loop \<open>while (k < 8)\<close>; returns the final \<open>k\<close>.\<close>

function first_unused_k :: "byte \<Rightarrow> nat \<Rightarrow> nat" where
  "first_unused_k b k =
     (if k < 8 then (if (BYTE1 ! k) AND b = 0 then k else first_unused_k b (k + 1)) else k)"
  by pat_completeness auto
termination
  by (relation "measure (\<lambda>(b, k). 8 - k)") auto

declare first_unused_k.simps [simp del]

text \<open>
  The loop over the bytes of one sector: the first \<open>j\<close> with \<open>buf[j] < 0xff\<close>, or
  \<open>None\<close> when the loop ends (at the end of the sector, or at \<open>j >= nbits\<close>).
\<close>

function first_unused_j :: "config \<Rightarrow> (nat \<Rightarrow> byte) \<Rightarrow> int \<Rightarrow> int \<Rightarrow> int option" where
  "first_unused_j c buf nbits j =
     (if j < SECTOR_SIZE c then
        (if j \<ge> nbits then None
         else if buf (nat j) < 0xff then Some j
         else first_unused_j c buf nbits (j + 1))
      else None)"
  by pat_completeness auto
termination
  by (relation "measure (\<lambda>(c, buf, nbits, j). nat (SECTOR_SIZE c - j))") auto

declare first_unused_j.simps [simp del]

text \<open>
  The loop over the sectors. The result is the C return value with the disk after the
  call; \<open>None\<close> when a bitmap sector does not hold bytes.
\<close>

function bitmap_first_unused_i ::
  "config \<Rightarrow> disk \<Rightarrow> int \<Rightarrow> int \<Rightarrow> int \<Rightarrow> int \<Rightarrow> (int \<times> disk) option" where
  "bitmap_first_unused_i c d start num nbits i =
     (if i < num then
        (case Disk_Read c d (start + i) of
           None \<Rightarrow> Some (-1, d)
         | Some sec \<Rightarrow>
             (case as_raw sec of
                None \<Rightarrow> None
              | Some buf \<Rightarrow>
                  (case first_unused_j c buf nbits 0 of
                     Some j \<Rightarrow>
                       (let k = first_unused_k (buf (nat j)) 0;
                            buf' = (if k < 8 then buf(nat j := buf (nat j) OR BYTE1 ! k) else buf)
                        in case Disk_Write c d (start + i) (Raw buf') of
                             None \<Rightarrow> Some (-1, d)
                           | Some d' \<Rightarrow> Some (i * SECTOR_SIZE c * 8 + j * 8 + int k, d'))
                   | None \<Rightarrow> bitmap_first_unused_i c d start num (nbits - SECTOR_SIZE c) (i + 1))))
      else Some (-1, d))"
  by pat_completeness auto
termination
  by (relation "measure (\<lambda>(c, d, start, num, nbits, i). nat (num - i))") auto

declare bitmap_first_unused_i.simps [simp del]

definition bitmap_first_unused :: "config \<Rightarrow> disk \<Rightarrow> int \<Rightarrow> int \<Rightarrow> int \<Rightarrow> (int \<times> disk) option" where
  "bitmap_first_unused c d start num nbits = bitmap_first_unused_i c d start num nbits 0"

text \<open>
  \<open>bitmap_reset\<close>. C division truncates towards zero; a negative \<open>ibit\<close> gives a
  negative index into \<open>BYTE0\<close> or into the buffer, which is out of bounds.
\<close>

definition bitmap_reset :: "config \<Rightarrow> disk \<Rightarrow> int \<Rightarrow> int \<Rightarrow> int \<Rightarrow> (int \<times> disk) option" where
  "bitmap_reset c d start num ibit =
     (if ibit < 0 then None
      else
        (let ibyte = ibit div 8;
             i = ibyte div SECTOR_SIZE c
         in if \<not> (0 \<le> i \<and> i < num) then None
            else
              (case Disk_Read c d (start + i) of
                 None \<Rightarrow> Some (-1, d)
               | Some sec \<Rightarrow>
                   (case as_raw sec of
                      None \<Rightarrow> None
                    | Some buf \<Rightarrow>
                        (let p = nat (ibyte mod SECTOR_SIZE c);
                             buf' = buf(p := buf p AND BYTE0 ! nat (ibit mod 8))
                         in case Disk_Write c d (start + i) (Raw buf') of
                              None \<Rightarrow> Some (-1, d)
                            | Some d' \<Rightarrow> Some (0, d'))))))"

section \<open>File names and path resolution (LibFS.c, lines 193-334)\<close>

text \<open>
  \<open>illegal_filename\<close>: the loop over the characters, with the condition as the source
  writes it. \<open>ch\<close> is the character code.
\<close>

fun illegal_filename_chars :: "string \<Rightarrow> int" where
  "illegal_filename_chars [] = 0"
| "illegal_filename_chars (x # xs) =
     (let ch = int (of_char x :: nat)
      in if (ch < 65 \<and> ch > 90) \<and> (ch < 97 \<and> ch > 122) \<and> (ch < 48 \<and> ch > 57)
            \<and> (ch \<noteq> 45) \<and> (ch \<noteq> 46) \<and> (ch \<noteq> 95)
         then 1
         else illegal_filename_chars xs)"

definition illegal_filename :: "string \<Rightarrow> int" where
  "illegal_filename name =
     (let name_size = length name
      in if name_size > MAX_NAME - 1 then 1 else illegal_filename_chars name)"

text \<open>
  \<open>find_child_inode\<close>, the loop \<open>for (i = 0; i < DIRENTS_PER_SECTOR; i++)\<close> with its
  \<open>if (i > nentries) break\<close>: the index of the first entry of the sector whose name is
  \<open>fname\<close>.
\<close>

function find_child_i :: "config \<Rightarrow> (nat \<Rightarrow> dirent_t) \<Rightarrow> string \<Rightarrow> int \<Rightarrow> int \<Rightarrow> int option" where
  "find_child_i c buf fname nentries i =
     (if i < DIRENTS_PER_SECTOR c then
        (if i > nentries then None
         else if d_fname (buf (nat i)) = fname then Some i
         else find_child_i c buf fname nentries (i + 1))
      else None)"
  by pat_completeness auto
termination
  by (relation "measure (\<lambda>(c, buf, fname, nentries, i). nat (DIRENTS_PER_SECTOR c - i))") auto

declare find_child_i.simps [simp del]

text \<open>
  The loop \<open>while (nentries > 0)\<close>. The result is the return value with the cached
  sector number and the cached buffer after the call.
\<close>

partial_function (option) find_child_loop ::
  "config \<Rightarrow> disk \<Rightarrow> inode_t \<Rightarrow> string \<Rightarrow> int \<Rightarrow> sector \<Rightarrow> int \<Rightarrow> int \<Rightarrow> (int \<times> int \<times> sector) option" where
  "find_child_loop c d parent fname cached_inode_sector cached_inode_buffer nentries idx =
     (if nentries > 0 then
        (if \<not> (0 \<le> idx \<and> idx < MAX_SECTORS_PER_FILE c) then None
         else
           (case Disk_Read c d (i_data parent (nat idx)) of
              None \<Rightarrow> Some (-2, cached_inode_sector, cached_inode_buffer)
            | Some sec \<Rightarrow>
                (case as_dirents sec of
                   None \<Rightarrow> None
                 | Some buf \<Rightarrow>
                     (case find_child_i c buf fname nentries 0 of
                        Some i \<Rightarrow>
                          (let child_inode = d_inode (buf (nat i));
                               sector = INODE_TABLE_START_SECTOR c + child_inode div INODES_PER_SECTOR c
                           in if sector \<noteq> cached_inode_sector then
                                (case Disk_Read c d sector of
                                   None \<Rightarrow> Some (-2, sector, cached_inode_buffer)
                                 | Some sec' \<Rightarrow> Some (child_inode, sector, sec'))
                              else Some (child_inode, cached_inode_sector, cached_inode_buffer))
                      | None \<Rightarrow>
                          find_child_loop c d parent fname cached_inode_sector cached_inode_buffer
                            (nentries - DIRENTS_PER_SECTOR c) (idx + 1)))))
      else Some (-1, cached_inode_sector, cached_inode_buffer))"

declare find_child_loop.simps [code]

definition find_child_inode ::
  "config \<Rightarrow> disk \<Rightarrow> int \<Rightarrow> string \<Rightarrow> int \<Rightarrow> sector \<Rightarrow> (int \<times> int \<times> sector) option" where
  "find_child_inode c d parent_inode fname cached_inode_sector cached_inode_buffer =
     (let cached_start_entry = (cached_inode_sector - INODE_TABLE_START_SECTOR c) * INODES_PER_SECTOR c;
          offset = parent_inode - cached_start_entry
      in if \<not> (0 \<le> offset \<and> offset < INODES_PER_SECTOR c) then None
         else
           (case as_inodes c cached_inode_buffer of
              None \<Rightarrow> None
            | Some inodes \<Rightarrow>
                (let parent = inodes (nat offset)
                 in if i_type parent \<noteq> 1 then Some (-2, cached_inode_sector, cached_inode_buffer)
                    else find_child_loop c d parent fname cached_inode_sector cached_inode_buffer
                           (i_size parent) 0)))"

text \<open>
  \<open>strsep\<close> applied until it returns NULL: the pieces of the string between the
  separators, the empty ones included.
\<close>

fun strsep_all :: "string \<Rightarrow> string list" where
  "strsep_all [] = [[]]"
| "strsep_all (x # xs) =
     (if x = CHR ''/'' then [] # strsep_all xs
      else (case strsep_all xs of
              [] \<Rightarrow> [[x]]
            | t # ts \<Rightarrow> (x # t) # ts))"

text \<open>
  \<open>follow_path\<close>, the loop over the tokens. The result is the return value (the parent
  inode, or -1), the value written to \<open>*last_inode\<close> (\<open>None\<close> when the function
  returns without writing it) and the last token copied to \<open>last_fname\<close>.
\<close>

fun follow_path_tokens ::
  "config \<Rightarrow> disk \<Rightarrow> string list \<Rightarrow> int \<Rightarrow> int \<Rightarrow> int \<Rightarrow> sector \<Rightarrow> string option
     \<Rightarrow> (int \<times> int option \<times> string option) option" where
  "follow_path_tokens c d [] parent_inode child_inode cached_sector cached_buffer last_fname =
     (if child_inode < -1 then Some (-1, None, last_fname)
      else Some (if parent_inode = -1 \<and> child_inode = 0 then 0 else parent_inode,
                 Some child_inode, last_fname))"
| "follow_path_tokens c d (token # rest) parent_inode child_inode cached_sector cached_buffer last_fname =
     (if token = [] then
        follow_path_tokens c d rest parent_inode child_inode cached_sector cached_buffer last_fname
      else if illegal_filename token \<noteq> 0 then Some (-1, None, last_fname)
      else if child_inode < 0 then Some (-1, None, last_fname)
      else
        (case find_child_inode c d child_inode token cached_sector cached_buffer of
           None \<Rightarrow> None
         | Some (r, cached_sector', cached_buffer') \<Rightarrow>
             follow_path_tokens c d rest child_inode r cached_sector' cached_buffer' (Some token)))"

text \<open>
  A path is a C string or NULL (\<open>None\<close>). \<open>strncpy\<close> keeps at most
  \<open>MAX_PATH - 1\<close> characters after the leading separator.
\<close>

definition follow_path ::
  "config \<Rightarrow> disk \<Rightarrow> string option \<Rightarrow> (int \<times> int option \<times> string option) option" where
  "follow_path c d path =
     (case path of
        None \<Rightarrow> Some (-1, None, None)
      | Some p \<Rightarrow>
          (case p of
             [] \<Rightarrow> Some (-1, None, None)
           | x # xs \<Rightarrow>
               if x \<noteq> CHR ''/'' then Some (-1, None, None)
               else
                 (let pathstore = take (MAX_PATH - 1) xs;
                      cached_sector = INODE_TABLE_START_SECTOR c
                  in case Disk_Read c d cached_sector of
                       None \<Rightarrow> Some (-1, None, None)
                     | Some cached_buffer \<Rightarrow>
                         follow_path_tokens c d (strsep_all pathstore) (-1) 0
                           cached_sector cached_buffer None)))"

section \<open>Adding and removing inodes (LibFS.c, lines 336-560)\<close>

text \<open>
  The functions below return the C return value with the disk after the call.

  The block "load the disk sector containing the inode; get the inode" occurs in
  \<open>add_inode\<close>, \<open>remove_inode\<close>, \<open>File_Open\<close>, \<open>File_Read\<close>, \<open>File_Write\<close>,
  \<open>Dir_Size\<close> and \<open>Dir_Read\<close>; it is written once here. The result is \<open>Some None\<close>
  when \<open>Disk_Read\<close> fails, and otherwise the sector number, the buffer and the offset of
  the inode in it; \<open>None\<close> when the \<open>assert\<close> on the offset fails.

  The divisions by \<open>INODES_PER_SECTOR\<close> and \<open>DIRENTS_PER_SECTOR\<close> are unsigned in C
  (both macros have type \<open>size_t\<close>); a negative entry count gives an index far outside
  the array \<open>data\<close>, which is \<open>None\<close> here.
\<close>

definition load_inode :: "config \<Rightarrow> disk \<Rightarrow> int \<Rightarrow> (int \<times> (nat \<Rightarrow> inode_t) \<times> nat) option option" where
  "load_inode c d n =
     (let inode_sector = INODE_TABLE_START_SECTOR c + n div INODES_PER_SECTOR c
      in case Disk_Read c d inode_sector of
           None \<Rightarrow> Some None
         | Some sec \<Rightarrow>
             (let inode_start_entry = (inode_sector - INODE_TABLE_START_SECTOR c) * INODES_PER_SECTOR c;
                  offset = n - inode_start_entry
              in if \<not> (0 \<le> offset \<and> offset < INODES_PER_SECTOR c) then None
                 else
                   (case as_inodes c sec of
                      None \<Rightarrow> None
                    | Some inode_buffer \<Rightarrow> Some (Some (inode_sector, inode_buffer, nat offset)))))"

text \<open>
  \<open>add_inode\<close>, lines 386-403: the sector for the new entry (\<open>grp\<close> is the variable \<open>group\<close> of the source). \<open>Inl\<close> is an early
  return of \<open>add_inode\<close>; \<open>Inr\<close> carries the disk, the parent inode and the buffer of
  directory entries.
\<close>

definition add_inode_group ::
  "config \<Rightarrow> disk \<Rightarrow> inode_t \<Rightarrow> int \<Rightarrow> ((int \<times> disk) + (disk \<times> inode_t \<times> (nat \<Rightarrow> dirent_t))) option" where
  "add_inode_group c d parent grp =
     (if grp * DIRENTS_PER_SECTOR c = i_size parent then
        (case bitmap_first_unused c d (SECTOR_BITMAP_START_SECTOR c)
                (SECTOR_BITMAP_SECTORS c) (SECTOR_BITMAP_SIZE c) of
           None \<Rightarrow> None
         | Some (newsec, d1) \<Rightarrow>
             if newsec < 0 then Some (Inl (-1, d1))
             else Some (Inr (d1, parent\<lparr>i_data := (i_data parent)(nat grp := newsec)\<rparr>,
                             (\<lambda>_. zero_dirent))))
      else
        (case Disk_Read c d (i_data parent (nat grp)) of
           None \<Rightarrow> Some (Inl (-1, d))
         | Some sec \<Rightarrow>
             (case as_dirents sec of
                None \<Rightarrow> None
              | Some dirent_buffer \<Rightarrow> Some (Inr (d, parent, dirent_buffer)))))"

text \<open>\<open>add_inode\<close>, lines 367-420: the parent's side.\<close>

definition add_inode_parent :: "config \<Rightarrow> disk \<Rightarrow> int \<Rightarrow> int \<Rightarrow> string \<Rightarrow> (int \<times> disk) option" where
  "add_inode_parent c d parent_inode child_inode file =
     (case load_inode c d parent_inode of
        None \<Rightarrow> None
      | Some None \<Rightarrow> Some (-1, d)
      | Some (Some (inode_sector, inode_buffer, offset)) \<Rightarrow>
          (let parent = inode_buffer offset
           in if i_type parent \<noteq> 1 then Some (-2, d)
              else if i_size parent < 0 then None
              else
                (let grp = i_size parent div DIRENTS_PER_SECTOR c
                 in if \<not> (grp < MAX_SECTORS_PER_FILE c) then None
                    else
                      (case add_inode_group c d parent grp of
                         None \<Rightarrow> None
                       | Some (Inl r) \<Rightarrow> Some r
                       | Some (Inr (d1, parent, dirent_buffer)) \<Rightarrow>
                           (let start_entry = grp * DIRENTS_PER_SECTOR c;
                                dirent_offset = i_size parent - start_entry;
                                dirent = \<lparr>d_fname = take MAX_NAME file, d_inode = child_inode\<rparr>
                            in case Disk_Write c d1 (i_data parent (nat grp))
                                      (Dirents (dirent_buffer(nat dirent_offset := dirent))) of
                                 None \<Rightarrow> Some (-1, d1)
                               | Some d2 \<Rightarrow>
                                   (case Disk_Write c d2 inode_sector
                                           (Inodes (inode_buffer(offset := parent\<lparr>i_size := i_size parent + 1\<rparr>))) of
                                      None \<Rightarrow> Some (-1, d2)
                                    | Some d3 \<Rightarrow> Some (0, d3)))))))"

definition add_inode :: "config \<Rightarrow> disk \<Rightarrow> int \<Rightarrow> int \<Rightarrow> string \<Rightarrow> (int \<times> disk) option" where
  "add_inode c d type parent_inode file =
     (case bitmap_first_unused c d INODE_BITMAP_START_SECTOR (INODE_BITMAP_SECTORS c)
             (INODE_BITMAP_SIZE c) of
        None \<Rightarrow> None
      | Some (child_inode, d1) \<Rightarrow>
          if child_inode < 0 then Some (-1, d1)
          else
            (case load_inode c d1 child_inode of
               None \<Rightarrow> None
             | Some None \<Rightarrow> Some (-1, d1)
             | Some (Some (inode_sector, inode_buffer, offset)) \<Rightarrow>
                 (case Disk_Write c d1 inode_sector
                         (Inodes (inode_buffer(offset := zero_inode\<lparr>i_type := type\<rparr>))) of
                    None \<Rightarrow> Some (-1, d1)
                  | Some d2 \<Rightarrow> add_inode_parent c d2 parent_inode child_inode file)))"

text \<open>
  \<open>remove_inode\<close>, lines 485-488: the loop that reclaims the data blocks of a file.
  The return value of \<open>bitmap_reset\<close> is ignored.
\<close>

function remove_inode_blocks :: "config \<Rightarrow> disk \<Rightarrow> inode_t \<Rightarrow> int \<Rightarrow> disk option" where
  "remove_inode_blocks c d child g =
     (if g < i_size child div SECTOR_SIZE c then
        (if \<not> (0 \<le> g \<and> g < MAX_SECTORS_PER_FILE c) then None
         else
           (case bitmap_reset c d (SECTOR_BITMAP_START_SECTOR c) (SECTOR_BITMAP_SECTORS c)
                   (i_data child (nat g)) of
              None \<Rightarrow> None
            | Some (r, d1) \<Rightarrow> remove_inode_blocks c d1 child (g + 1)))
      else Some d)"
  by pat_completeness auto
termination
  by (relation "measure (\<lambda>(c, d, child, g). nat (i_size child div SECTOR_SIZE c - g))") auto

declare remove_inode_blocks.simps [simp del]

text \<open>
  Lines 536-559: the search for the entry of the removed child, with the same two loops
  as \<open>find_child_inode\<close>.
\<close>

function remove_inode_i :: "config \<Rightarrow> (nat \<Rightarrow> dirent_t) \<Rightarrow> int \<Rightarrow> int \<Rightarrow> int \<Rightarrow> int option" where
  "remove_inode_i c buf child_inode nentries i =
     (if i < DIRENTS_PER_SECTOR c then
        (if i > nentries then None
         else if d_inode (buf (nat i)) = child_inode then Some i
         else remove_inode_i c buf child_inode nentries (i + 1))
      else None)"
  by pat_completeness auto
termination
  by (relation "measure (\<lambda>(c, buf, child_inode, nentries, i). nat (DIRENTS_PER_SECTOR c - i))") auto

declare remove_inode_i.simps [simp del]

text \<open>The loop ends in \<open>assert(0)\<close> when no entry is found.\<close>

partial_function (option) remove_inode_loop ::
  "config \<Rightarrow> disk \<Rightarrow> inode_t \<Rightarrow> dirent_t \<Rightarrow> int \<Rightarrow> int \<Rightarrow> int \<Rightarrow> (int \<times> disk) option" where
  "remove_inode_loop c d parent last_one child_inode nentries idx =
     (if nentries > 0 then
        (if \<not> (0 \<le> idx \<and> idx < MAX_SECTORS_PER_FILE c) then None
         else
           (case Disk_Read c d (i_data parent (nat idx)) of
              None \<Rightarrow> Some (-1, d)
            | Some sec \<Rightarrow>
                (case as_dirents sec of
                   None \<Rightarrow> None
                 | Some buf \<Rightarrow>
                     (case remove_inode_i c buf child_inode nentries 0 of
                        Some i \<Rightarrow>
                          (case Disk_Write c d (i_data parent (nat idx))
                                  (Dirents (buf(nat i := last_one))) of
                             None \<Rightarrow> Some (-1, d)
                           | Some d1 \<Rightarrow> Some (0, d1))
                      | None \<Rightarrow>
                          remove_inode_loop c d parent last_one child_inode
                            (nentries - DIRENTS_PER_SECTOR c) (idx + 1)))))
      else None)"

declare remove_inode_loop.simps [code]

text \<open>Lines 493-559: the parent's side.\<close>

definition remove_inode_parent :: "config \<Rightarrow> disk \<Rightarrow> int \<Rightarrow> int \<Rightarrow> (int \<times> disk) option" where
  "remove_inode_parent c d parent_inode child_inode =
     (case load_inode c d parent_inode of
        None \<Rightarrow> None
      | Some None \<Rightarrow> Some (-1, d)
      | Some (Some (inode_sector, inode_buffer, offset)) \<Rightarrow>
          if i_type (inode_buffer offset) \<noteq> 1 then None
          else
            (let parent = (inode_buffer offset)\<lparr>i_size := i_size (inode_buffer offset) - 1\<rparr>
             in if i_size parent < 0 then None
                else
                  (let grp = i_size parent div DIRENTS_PER_SECTOR c
                   in if \<not> (grp < MAX_SECTORS_PER_FILE c) then None
                      else
                        (case Disk_Read c d (i_data parent (nat grp)) of
                           None \<Rightarrow> Some (-1, d)
                         | Some sec \<Rightarrow>
                             (case as_dirents sec of
                                None \<Rightarrow> None
                              | Some dirent_buffer \<Rightarrow>
                                  (let start_entry = grp * DIRENTS_PER_SECTOR c;
                                       dirent_offset = i_size parent - start_entry;
                                       last_one = dirent_buffer (nat dirent_offset)
                                   in case (if dirent_offset = 0
                                            then bitmap_reset c d (SECTOR_BITMAP_START_SECTOR c)
                                                   (SECTOR_BITMAP_SECTORS c) (i_data parent (nat grp))
                                            else Some (0, d)) of
                                        None \<Rightarrow> None
                                      | Some (r, d1) \<Rightarrow>
                                          (case Disk_Write c d1 inode_sector
                                                  (Inodes (inode_buffer(offset := parent))) of
                                             None \<Rightarrow> Some (-1, d1)
                                           | Some d2 \<Rightarrow>
                                               if d_inode last_one = child_inode then Some (0, d2)
                                               else remove_inode_loop c d2 parent last_one child_inode
                                                      (i_size parent) 0)))))))"

definition remove_inode :: "config \<Rightarrow> disk \<Rightarrow> int \<Rightarrow> int \<Rightarrow> int \<Rightarrow> (int \<times> disk) option" where
  "remove_inode c d type parent_inode child_inode =
     (case load_inode c d child_inode of
        None \<Rightarrow> None
      | Some None \<Rightarrow> Some (-1, d)
      | Some (Some (inode_sector, inode_buffer, offset)) \<Rightarrow>
          (let child = inode_buffer offset
           in if i_type child \<noteq> type then Some (-3, d)
              else if type = 1 \<and> i_size child > 0 then Some (-2, d)
              else
                (case (if type = 0 then remove_inode_blocks c d child 0 else Some d) of
                   None \<Rightarrow> None
                 | Some d1 \<Rightarrow>
                     (case bitmap_reset c d1 INODE_BITMAP_START_SECTOR (INODE_BITMAP_SECTORS c)
                             child_inode of
                        None \<Rightarrow> None
                      | Some (r, d2) \<Rightarrow> remove_inode_parent c d2 parent_inode child_inode))))"

section \<open>The open-file table and the state of the library (LibFS.c, lines 562-588)\<close>

text \<open>
  The error codes of LibFS.h that LibFS.c assigns to \<open>osErrno\<close>; \<open>None\<close> is the value
  of \<open>osErrno\<close> before the first assignment.
\<close>

datatype errno =
    E_GENERAL | E_CREATE | E_NO_SUCH_FILE | E_TOO_MANY_OPEN_FILES | E_BAD_FD | E_NO_SPACE
  | E_FILE_TOO_BIG | E_SEEK_OUT_OF_BOUNDS | E_FILE_IN_USE | E_NO_SUCH_DIR | E_ROOT_DIR
  | E_BUFFER_TOO_SMALL

text \<open>
  The global state: the disk, the array \<open>open_files\<close> (valid indices are
  \<open>0 .. MAX_OPEN_FILES - 1\<close>; the functions below return \<open>None\<close> where the source
  indexes it out of bounds) and \<open>osErrno\<close>.
\<close>

record fs =
  disk :: disk
  open_files :: "int \<Rightarrow> open_file_t"
  osErrno :: "errno option"

function is_file_open_i :: "(int \<Rightarrow> open_file_t) \<Rightarrow> int \<Rightarrow> int \<Rightarrow> int" where
  "is_file_open_i ofs inode i =
     (if i < MAX_OPEN_FILES then
        (if of_inode (ofs i) = inode then 1 else is_file_open_i ofs inode (i + 1))
      else 0)"
  by pat_completeness auto
termination
  by (relation "measure (\<lambda>(ofs, inode, i). nat (MAX_OPEN_FILES - i))") auto

declare is_file_open_i.simps [simp del]

definition is_file_open :: "fs \<Rightarrow> int \<Rightarrow> int" where
  "is_file_open st inode = is_file_open_i (open_files st) inode 0"

function new_file_fd_i :: "(int \<Rightarrow> open_file_t) \<Rightarrow> int \<Rightarrow> int" where
  "new_file_fd_i ofs i =
     (if i < MAX_OPEN_FILES then
        (if of_inode (ofs i) \<le> 0 then i else new_file_fd_i ofs (i + 1))
      else -1)"
  by pat_completeness auto
termination
  by (relation "measure (\<lambda>(ofs, i). nat (MAX_OPEN_FILES - i))") auto

declare new_file_fd_i.simps [simp del]

definition new_file_fd :: "fs \<Rightarrow> int" where
  "new_file_fd st = new_file_fd_i (open_files st) 0"

section \<open>Booting and synchronising (LibFS.c, lines 99-110 and 592-728)\<close>

text \<open>
  Lines 617-655 of \<open>FS_Boot\<close>: a file system is made on a new disk. The superblock holds
  the magic number in its first four bytes (the least significant byte first). The result
  tells whether every \<open>Disk_Write\<close> that the code checks has succeeded, with the disk
  that is reached.
\<close>

function format_inode_table :: "config \<Rightarrow> disk \<Rightarrow> int \<Rightarrow> bool \<times> disk" where
  "format_inode_table c d i =
     (if i < INODE_TABLE_SECTORS c then
        (let buf = (if i = 0 then (\<lambda>_. zero_inode)(0 := zero_inode\<lparr>i_size := 0, i_type := 1\<rparr>)
                    else (\<lambda>_. zero_inode))
         in case Disk_Write c d (INODE_TABLE_START_SECTOR c + i) (Inodes buf) of
              None \<Rightarrow> (False, d)
            | Some d1 \<Rightarrow> format_inode_table c d1 (i + 1))
      else (True, d))"
  by pat_completeness auto
termination
  by (relation "measure (\<lambda>(c, d, i). nat (INODE_TABLE_SECTORS c - i))") auto

declare format_inode_table.simps [simp del]

definition format_disk :: "config \<Rightarrow> disk \<Rightarrow> bool \<times> disk" where
  "format_disk c d =
     (case Disk_Write c d SUPERBLOCK_START_SECTOR
             (Raw ((\<lambda>_. 0)(0 := 0xef, 1 := 0xbe, 2 := 0xad, 3 := 0xde))) of
        None \<Rightarrow> (False, d)
      | Some d1 \<Rightarrow>
          (let d2 = bitmap_init c d1 INODE_BITMAP_START_SECTOR (INODE_BITMAP_SECTORS c) 1;
               d3 = bitmap_init c d2 (SECTOR_BITMAP_START_SECTOR c) (SECTOR_BITMAP_SECTORS c)
                      (DATABLOCK_START_SECTOR c)
           in format_inode_table c d3 0))"

text \<open>
  \<open>check_magic\<close>: the first four bytes of the superblock, read as an \<open>int\<close>, are
  compared with \<open>OS_MAGIC\<close> as unsigned values.
\<close>

definition check_magic :: "config \<Rightarrow> disk \<Rightarrow> int option" where
  "check_magic c d =
     (case Disk_Read c d SUPERBLOCK_START_SECTOR of
        None \<Rightarrow> Some 0
      | Some sec \<Rightarrow>
          (case as_raw sec of
             None \<Rightarrow> None
           | Some buf \<Rightarrow> if int_of_bytes buf 0 mod 2 ^ 32 = OS_MAGIC then Some 1 else Some 0))"

text \<open>
  Modelled from the spec: \<open>FS_Boot\<close> and \<open>FS_Sync\<close> call the block device
  (\<open>Disk_Init\<close>, \<open>Disk_Load\<close>, \<open>Disk_Save\<close>: \<open>load(path) -> ok/fail\<close>, which tells a
  missing file from other errors, and \<open>save(path) -> ok/fail\<close>) and the C library
  (\<open>fopen\<close>, \<open>ftell\<close>) for the backing file. What these calls give is a parameter of the
  model, the record \<open>env\<close>: the disk after \<open>Disk_Init\<close> (\<open>None\<close> when it fails), what
  \<open>Disk_Load\<close> does (it reads a disk from the backing file; it fails with
  \<open>E_OPENING_FILE\<close>, \<open>Load_no_file\<close>; or it fails in another way), the length of the
  backing file (0 when it cannot be opened), and whether \<open>Disk_Save\<close> succeeds. A call
  of the block device that fails leaves the disk as it is.

  The last field is the value that a local variable holds before its first assignment:
  \<open>File_Open\<close>, \<open>Dir_Size\<close> and \<open>Dir_Read\<close> read such a variable (see \<open>File_Open\<close>
  below).
\<close>

datatype load_result = Load_ok disk | Load_no_file | Load_error

record env =
  Disk_Init_result :: "disk option"
  Disk_Load_result :: load_result
  backstore_size :: int
  Disk_Save_ok :: bool
  stack_value :: int

text \<open>
  \<open>FS_Boot\<close>. The name of the backing file is a C string or NULL (\<open>None\<close>, which
  \<open>strncpy\<close> dereferences); the copy \<open>bs_filename\<close> of the name is used for the calls
  of the block device only, and is not part of the state of the model.
\<close>

definition FS_Boot :: "config \<Rightarrow> env \<Rightarrow> fs \<Rightarrow> string option \<Rightarrow> (int \<times> fs) option" where
  "FS_Boot c e st backstore_fname =
     (case Disk_Init_result e of
        None \<Rightarrow> Some (-1, st\<lparr>osErrno := Some E_GENERAL\<rparr>)
      | Some d0 \<Rightarrow>
          if backstore_fname = None then None
          else
            (case Disk_Load_result e of
               Load_no_file \<Rightarrow>
                 (case format_disk c d0 of
                    (False, d1) \<Rightarrow> Some (-1, st\<lparr>disk := d1, osErrno := Some E_GENERAL\<rparr>)
                  | (True, d1) \<Rightarrow>
                      if \<not> Disk_Save_ok e then Some (-1, st\<lparr>disk := d1, osErrno := Some E_GENERAL\<rparr>)
                      else Some (0, st\<lparr>disk := d1, open_files := (\<lambda>_. zero_open_file)\<rparr>))
             | Load_error \<Rightarrow> Some (-1, st\<lparr>disk := d0, osErrno := Some E_GENERAL\<rparr>)
             | Load_ok d1 \<Rightarrow>
                 if backstore_size e \<noteq> SECTOR_SIZE c * TOTAL_SECTORS c then
                   Some (-1, st\<lparr>disk := d1, osErrno := Some E_GENERAL\<rparr>)
                 else
                   (case check_magic c d1 of
                      None \<Rightarrow> None
                    | Some m \<Rightarrow>
                        if m \<noteq> 0 then Some (0, st\<lparr>disk := d1, open_files := (\<lambda>_. zero_open_file)\<rparr>)
                        else Some (-1, st\<lparr>disk := d1, osErrno := Some E_GENERAL\<rparr>))))"


section \<open>Creating and unlinking (LibFS.c, lines 423-453, 730-773, 1025-1060)\<close>

text \<open>
  The API functions return the C return value with the state after the call. A path is
  a C string or NULL (\<open>None\<close>).
\<close>

definition create_file_or_directory :: "config \<Rightarrow> fs \<Rightarrow> int \<Rightarrow> string option \<Rightarrow> (int \<times> fs) option" where
  "create_file_or_directory c st type pathname =
     (case follow_path c (disk st) pathname of
        None \<Rightarrow> None
      | Some (parent_inode, last_inode, last_fname) \<Rightarrow>
          if parent_inode \<ge> 0 then
            (case last_inode of
               None \<Rightarrow> None
             | Some child_inode \<Rightarrow>
                 if child_inode \<ge> 0 then Some (-1, st\<lparr>osErrno := Some E_CREATE\<rparr>)
                 else
                   (case last_fname of
                      None \<Rightarrow> None
                    | Some fname \<Rightarrow>
                        (case add_inode c (disk st) type parent_inode fname of
                           None \<Rightarrow> None
                         | Some (r, d1) \<Rightarrow>
                             if r \<ge> 0 then Some (0, st\<lparr>disk := d1\<rparr>)
                             else Some (-1, st\<lparr>disk := d1, osErrno := Some E_CREATE\<rparr>))))
          else Some (-1, st\<lparr>osErrno := Some E_CREATE\<rparr>))"

definition File_Create :: "config \<Rightarrow> fs \<Rightarrow> string option \<Rightarrow> (int \<times> fs) option" where
  "File_Create c st file = create_file_or_directory c st 0 file"


definition File_Unlink :: "config \<Rightarrow> fs \<Rightarrow> string option \<Rightarrow> (int \<times> fs) option" where
  "File_Unlink c st file =
     (case follow_path c (disk st) file of
        None \<Rightarrow> None
      | Some (parent_inode, last_inode, last_fname) \<Rightarrow>
          if parent_inode \<ge> 0 then
            (case last_inode of
               None \<Rightarrow> None
             | Some child_inode \<Rightarrow>
                 if child_inode \<ge> 0 then
                   (if is_file_open st child_inode \<noteq> 0 then
                      Some (-1, st\<lparr>osErrno := Some E_FILE_IN_USE\<rparr>)
                    else
                      (case remove_inode c (disk st) 0 parent_inode child_inode of
                         None \<Rightarrow> None
                       | Some (ret, d1) \<Rightarrow>
                           if ret \<ge> 0 then Some (0, st\<lparr>disk := d1\<rparr>)
                           else Some (-1, st\<lparr>disk := d1, osErrno := Some E_GENERAL\<rparr>)))
                 else Some (-1, st\<lparr>osErrno := Some E_NO_SUCH_FILE\<rparr>))
          else Some (-1, st\<lparr>osErrno := Some E_GENERAL\<rparr>))"


section \<open>Open, read, write, seek and close (LibFS.c, lines 775-1023)\<close>

text \<open>
  \<open>size0\<close> stands for the parameter \<open>size\<close> of the source functions.

  \<open>File_Open\<close> declares \<open>int child_inode\<close> without a value and reads it after
  \<open>follow_path\<close>, whatever \<open>follow_path\<close> returns. When \<open>follow_path\<close> returns -1
  it has not written to the variable, which then holds what was at its place on the stack:
  that value is the parameter \<open>child_inode0\<close>. \<open>Dir_Size\<close> and \<open>Dir_Read\<close> do the
  same.
\<close>

definition File_Open :: "config \<Rightarrow> fs \<Rightarrow> string option \<Rightarrow> int \<Rightarrow> (int \<times> fs) option" where
  "File_Open c st file child_inode0 =
     (let fd = new_file_fd st
      in if fd < 0 then Some (-1, st\<lparr>osErrno := Some E_TOO_MANY_OPEN_FILES\<rparr>)
         else
           (case follow_path c (disk st) file of
              None \<Rightarrow> None
            | Some (parent_inode, last_inode, last_fname) \<Rightarrow>
                (let child_inode = (case last_inode of None \<Rightarrow> child_inode0 | Some n \<Rightarrow> n)
                 in if child_inode \<ge> 0 then
                      (case load_inode c (disk st) child_inode of
                         None \<Rightarrow> None
                       | Some None \<Rightarrow> Some (-1, st\<lparr>osErrno := Some E_GENERAL\<rparr>)
                       | Some (Some (inode_sector, inode_buffer, offset)) \<Rightarrow>
                           (let child = inode_buffer offset
                            in if i_type child \<noteq> 0 then Some (-1, st\<lparr>osErrno := Some E_GENERAL\<rparr>)
                               else Some (fd, st\<lparr>open_files := (open_files st)
                                            (fd := \<lparr>of_inode = child_inode, of_size = i_size child,
                                                    of_pos = 0\<rparr>)\<rparr>)))
                    else Some (-1, st\<lparr>osErrno := Some E_NO_SUCH_FILE\<rparr>))))"

text \<open>
  \<open>File_Read\<close>. \<open>buffer\<close> tells whether the pointer is non-NULL; the bytes that
  \<open>memcpy\<close> stores at the start of the buffer are the second component of the result.
  A negative position or length gives an address outside the sector's buffer
  (\<open>None\<close>). \<open>end_addr0\<close> and \<open>size1\<close> are the variables \<open>end_addr\<close> and
  \<open>size\<close> of the source before and after their reassignment. The sums
  \<open>start_addr + SECTOR_SIZE\<close> (line 866) and \<open>pos + size\<close> (line 868) are additions of
  \<open>int\<close> values; the other operations stay in the range of their operands.
\<close>

definition File_Read :: "config \<Rightarrow> fs \<Rightarrow> int \<Rightarrow> bool \<Rightarrow> int \<Rightarrow> (int \<times> byte list \<times> fs) option" where
  "File_Read c st fd buffer size0 =
     (if 0 > fd \<or> fd > MAX_OPEN_FILES then Some (-1, [], st\<lparr>osErrno := Some E_BAD_FD\<rparr>)
      else if \<not> fd < MAX_OPEN_FILES then None
      else if of_inode (open_files st fd) \<le> 0 then Some (-1, [], st\<lparr>osErrno := Some E_BAD_FD\<rparr>)
      else if \<not> buffer \<or> size0 < 0 then Some (-1, [], st\<lparr>osErrno := Some E_GENERAL\<rparr>)
      else if of_pos (open_files st fd) = of_size (open_files st fd) \<or> size0 = 0 then Some (0, [], st)
      else
        (case load_inode c (disk st) (of_inode (open_files st fd)) of
           None \<Rightarrow> None
         | Some None \<Rightarrow> Some (-1, [], st\<lparr>osErrno := Some E_GENERAL\<rparr>)
         | Some (Some (inode_sector, inode_buffer, inode_offset)) \<Rightarrow>
             (let inode = inode_buffer inode_offset;
                  pos = of_pos (open_files st fd)
              in if i_size inode \<noteq> of_size (open_files st fd) then None
                 else if i_type inode \<noteq> 0 then None
                 else if pos < 0 then None
                 else
                   (let gidx = pos div SECTOR_SIZE c;
                        start_addr = gidx * SECTOR_SIZE c;
                        end_addr0 = start_addr + SECTOR_SIZE c;
                        end_addr = (if end_addr0 > i_size inode then i_size inode else end_addr0);
                        size1 = (if end_addr < pos + size0 then end_addr - pos else size0);
                        offset = pos - start_addr
                    in if \<not> (int_range end_addr0 \<and> int_range (pos + size0)) then None
                       else if \<not> gidx < MAX_SECTORS_PER_FILE c then None
                       else
                         (case Disk_Read c (disk st) (i_data inode (nat gidx)) of
                            None \<Rightarrow> Some (-1, [], st\<lparr>osErrno := Some E_GENERAL\<rparr>)
                          | Some sec \<Rightarrow>
                              (case as_raw sec of
                                 None \<Rightarrow> None
                               | Some data \<Rightarrow>
                                   if size1 < 0 then None
                                   else Some (size1,
                                              map (\<lambda>k. data (nat offset + k)) [0 ..< nat size1],
                                              st\<lparr>open_files := (open_files st)
                                                (fd := (open_files st fd)\<lparr>of_pos := pos + size1\<rparr>)\<rparr>)))))))"

text \<open>
  \<open>File_Write\<close>, lines 943-962: the buffer of the data block, read from the disk or new.
  \<open>Inl\<close> is an early return of \<open>File_Write\<close> with the state it leaves.
\<close>

definition File_Write_block ::
  "config \<Rightarrow> fs \<Rightarrow> int \<Rightarrow> (nat \<Rightarrow> inode_t) \<Rightarrow> nat \<Rightarrow> int \<Rightarrow> int
     \<Rightarrow> (fs + (fs \<times> (nat \<Rightarrow> inode_t) \<times> (nat \<Rightarrow> byte))) option" where
  "File_Write_block c st fd inode_buffer inode_offset gidx start_addr =
     (if start_addr < of_size (open_files st fd) then
        (case Disk_Read c (disk st) (i_data (inode_buffer inode_offset) (nat gidx)) of
           None \<Rightarrow> Some (Inl (st\<lparr>osErrno := Some E_GENERAL\<rparr>))
         | Some sec \<Rightarrow>
             (case as_raw sec of
                None \<Rightarrow> None
              | Some data \<Rightarrow> Some (Inr (st, inode_buffer, data))))
      else
        (case bitmap_first_unused c (disk st) (SECTOR_BITMAP_START_SECTOR c)
                (SECTOR_BITMAP_SECTORS c) (SECTOR_BITMAP_SIZE c) of
           None \<Rightarrow> None
         | Some (newsec, d1) \<Rightarrow>
             if newsec < 0 then Some (Inl (st\<lparr>disk := d1, osErrno := Some E_NO_SPACE\<rparr>))
             else
               (let inode = inode_buffer inode_offset
                in Some (Inr (st\<lparr>disk := d1\<rparr>,
                              inode_buffer(inode_offset := inode\<lparr>i_data := (i_data inode)(nat gidx := newsec)\<rparr>),
                              (\<lambda>_. 0))))))"

text \<open>
  The loop \<open>while (remain > 0)\<close>. \<open>buffer\<close> is the memory at the caller's pointer, as
  a function of the offset. The result is \<open>Inl\<close> for an early return (the function
  returns -1), and otherwise the state, the inode buffer and \<open>bidx\<close> at the end of the
  loop. The sums \<open>start_addr + SECTOR_SIZE\<close> (line 936) and \<open>pos + size\<close> (line 937)
  are additions of \<open>int\<close> values.
\<close>

partial_function (option) File_Write_loop ::
  "config \<Rightarrow> fs \<Rightarrow> int \<Rightarrow> (nat \<Rightarrow> byte) \<Rightarrow> (nat \<Rightarrow> inode_t) \<Rightarrow> nat \<Rightarrow> int \<Rightarrow> int \<Rightarrow> int
     \<Rightarrow> (fs + (fs \<times> (nat \<Rightarrow> inode_t) \<times> int)) option" where
  "File_Write_loop c st fd buffer inode_buffer inode_offset bidx remain size0 =
     (if remain > 0 then
        (let pos = of_pos (open_files st fd);
             gidx = pos div SECTOR_SIZE c
         in if gidx = MAX_SECTORS_PER_FILE c then Some (Inl (st\<lparr>osErrno := Some E_FILE_TOO_BIG\<rparr>))
            else if \<not> (0 \<le> gidx \<and> gidx < MAX_SECTORS_PER_FILE c) then None
            else
              (let start_addr = gidx * SECTOR_SIZE c;
                   end_addr = start_addr + SECTOR_SIZE c;
                   size1 = (if end_addr < pos + size0 then end_addr - pos else size0);
                   offset = pos - start_addr
               in if \<not> (int_range end_addr \<and> int_range (pos + size0)) then None
                  else
                    (case File_Write_block c st fd inode_buffer inode_offset gidx start_addr of
                       None \<Rightarrow> None
                     | Some (Inl st1) \<Rightarrow> Some (Inl st1)
                     | Some (Inr (st1, inode_buffer1, data)) \<Rightarrow>
                         if size1 < 0 then None
                         else
                           (let data1 = (\<lambda>k. if nat offset \<le> k \<and> k < nat offset + nat size1
                                             then buffer (nat bidx + (k - nat offset)) else data k);
                                st2 = st1\<lparr>open_files := (open_files st1)
                                        (fd := (open_files st1 fd)\<lparr>of_pos := pos + size1\<rparr>)\<rparr>;
                                bidx1 = bidx + size1;
                                remain1 = remain - size1
                            in case Disk_Write c (disk st2)
                                      (i_data (inode_buffer1 inode_offset) (nat gidx)) (Raw data1) of
                                 None \<Rightarrow> Some (Inl (st2\<lparr>osErrno := Some E_GENERAL\<rparr>))
                               | Some d1 \<Rightarrow>
                                   File_Write_loop c (st2\<lparr>disk := d1\<rparr>) fd buffer inode_buffer1
                                     inode_offset bidx1 remain1 remain1))))
      else Some (Inr (st, inode_buffer, bidx)))"

declare File_Write_loop.simps [code]

text \<open>\<open>File_Write\<close>. \<open>buffer\<close> is \<open>None\<close> for a NULL pointer.\<close>

definition File_Write :: "config \<Rightarrow> fs \<Rightarrow> int \<Rightarrow> (nat \<Rightarrow> byte) option \<Rightarrow> int \<Rightarrow> (int \<times> fs) option" where
  "File_Write c st fd buffer size0 =
     (if 0 > fd \<or> fd > MAX_OPEN_FILES then Some (-1, st\<lparr>osErrno := Some E_BAD_FD\<rparr>)
      else if \<not> fd < MAX_OPEN_FILES then None
      else if of_inode (open_files st fd) \<le> 0 then Some (-1, st\<lparr>osErrno := Some E_BAD_FD\<rparr>)
      else
        (case buffer of
           None \<Rightarrow> Some (-1, st\<lparr>osErrno := Some E_GENERAL\<rparr>)
         | Some buf \<Rightarrow>
             if size0 < 0 then Some (-1, st\<lparr>osErrno := Some E_GENERAL\<rparr>)
             else if size0 = 0 then Some (0, st)
             else
               (case load_inode c (disk st) (of_inode (open_files st fd)) of
                  None \<Rightarrow> None
                | Some None \<Rightarrow> Some (-1, st\<lparr>osErrno := Some E_GENERAL\<rparr>)
                | Some (Some (inode_sector, inode_buffer, inode_offset)) \<Rightarrow>
                    if i_size (inode_buffer inode_offset) \<noteq> of_size (open_files st fd) then None
                    else if i_type (inode_buffer inode_offset) \<noteq> 0 then None
                    else
                      (case File_Write_loop c st fd buf inode_buffer inode_offset 0 size0 size0 of
                         None \<Rightarrow> None
                       | Some (Inl st1) \<Rightarrow> Some (-1, st1)
                       | Some (Inr (st1, inode_buffer1, bidx)) \<Rightarrow>
                           (let f = open_files st1 fd
                            in if of_pos f > of_size f then
                                 (let st2 = st1\<lparr>open_files := (open_files st1)
                                              (fd := f\<lparr>of_size := of_pos f\<rparr>)\<rparr>;
                                      inode = inode_buffer1 inode_offset
                                  in case Disk_Write c (disk st2) inode_sector
                                            (Inodes (inode_buffer1(inode_offset := inode\<lparr>i_size := of_pos f\<rparr>))) of
                                       None \<Rightarrow> Some (-1, st2\<lparr>osErrno := Some E_GENERAL\<rparr>)
                                     | Some d1 \<Rightarrow> Some (bidx, st2\<lparr>disk := d1\<rparr>))
                               else Some (bidx, st1))))))"

text \<open>
  \<open>File_Seek\<close> reads \<open>open_files[fd]\<close> before it looks at \<open>fd\<close>.
\<close>

definition File_Seek :: "config \<Rightarrow> fs \<Rightarrow> int \<Rightarrow> int \<Rightarrow> (int \<times> fs) option" where
  "File_Seek c st fd offset =
     (if \<not> (0 \<le> fd \<and> fd < MAX_OPEN_FILES) then None
      else if is_file_open st (of_inode (open_files st fd)) \<le> 0 then
        Some (-1, st\<lparr>osErrno := Some E_BAD_FD\<rparr>)
      else if fd > 0 \<or> fd > MAX_OPEN_FILES then Some (-1, st\<lparr>osErrno := Some E_GENERAL\<rparr>)
      else if of_size (open_files st fd) < offset \<or> offset < 0 then
        Some (-1, st\<lparr>osErrno := Some E_SEEK_OUT_OF_BOUNDS\<rparr>)
      else Some (offset, st\<lparr>open_files := (open_files st)
                   (fd := (open_files st fd)\<lparr>of_pos := offset\<rparr>)\<rparr>))"

definition File_Close :: "config \<Rightarrow> fs \<Rightarrow> int \<Rightarrow> (int \<times> fs) option" where
  "File_Close c st fd =
     (if 0 > fd \<or> fd > MAX_OPEN_FILES then Some (-1, st\<lparr>osErrno := Some E_BAD_FD\<rparr>)
      else if \<not> fd < MAX_OPEN_FILES then None
      else if of_inode (open_files st fd) \<le> 0 then Some (-1, st\<lparr>osErrno := Some E_BAD_FD\<rparr>)
      else Some (0, st\<lparr>open_files := (open_files st)
                   (fd := (open_files st fd)\<lparr>of_inode := 0\<rparr>)\<rparr>))"

section \<open>The size and the entries of a directory (LibFS.c, lines 1062-1154)\<close>

text \<open>
  The comparison \<open>child->size * sizeof(dirent_t) > size\<close> is made in \<open>size_t\<close>: both
  sides are converted to the unsigned type (64 bits here), so a negative \<open>size\<close> becomes
  a large number.
\<close>

definition size_t_of :: "int \<Rightarrow> int" where
  "size_t_of x = x mod 2 ^ 64"



text \<open>
  The loop \<open>while (entries > 0)\<close>; \<open>acc\<close> is what has been copied to the caller's
  buffer so far. The return value of \<open>Disk_Read\<close> is not checked: after a failure the
  sector buffer holds no defined value (\<open>None\<close>).
\<close>

partial_function (option) Dir_Read_loop ::
  "config \<Rightarrow> disk \<Rightarrow> inode_t \<Rightarrow> int \<Rightarrow> int \<Rightarrow> dirent_t list \<Rightarrow> dirent_t list option" where
  "Dir_Read_loop c d child entries i acc =
     (if entries > 0 then
        (if \<not> (0 \<le> i \<and> i < MAX_SECTORS_PER_FILE c) then None
         else
           (case Disk_Read c d (i_data child (nat i)) of
              None \<Rightarrow> None
            | Some sec \<Rightarrow>
                (case as_dirents sec of
                   None \<Rightarrow> None
                 | Some inode_buffer \<Rightarrow>
                     (let copy = (if DIRENTS_PER_SECTOR c > entries then entries
                                  else DIRENTS_PER_SECTOR c)
                      in Dir_Read_loop c d child (entries - copy) (i + 1)
                           (acc @ map inode_buffer [0 ..< nat copy])))))
      else Some acc)"

declare Dir_Read_loop.simps [code]

text \<open>The second component of the result is the list of entries copied to the buffer.\<close>

definition Dir_Read ::
  "config \<Rightarrow> fs \<Rightarrow> string option \<Rightarrow> int \<Rightarrow> int \<Rightarrow> (int \<times> dirent_t list \<times> fs) option" where
  "Dir_Read c st path size0 child_inode0 =
     (if path = None then Some (-1, [], st\<lparr>osErrno := Some E_GENERAL\<rparr>)
      else
        (case follow_path c (disk st) path of
           None \<Rightarrow> None
         | Some (parent_inode, last_inode, last_fname) \<Rightarrow>
             (let child_inode = (case last_inode of None \<Rightarrow> child_inode0 | Some n \<Rightarrow> n)
              in if child_inode < 0 then Some (-1, [], st\<lparr>osErrno := Some E_NO_SUCH_DIR\<rparr>)
                 else
                   (case load_inode c (disk st) child_inode of
                      None \<Rightarrow> None
                    | Some None \<Rightarrow> Some (-1, [], st\<lparr>osErrno := Some E_GENERAL\<rparr>)
                    | Some (Some (inode_sector, inode_buffer, offset)) \<Rightarrow>
                        (let child = inode_buffer offset
                         in if i_type child \<noteq> 1 then Some (-1, [], st\<lparr>osErrno := Some E_GENERAL\<rparr>)
                            else if size_t_of (size_t_of (i_size child) * sizeof_dirent_t) > size_t_of size0
                            then Some (-1, [], st\<lparr>osErrno := Some E_BUFFER_TOO_SMALL\<rparr>)
                            else
                              (case Dir_Read_loop c (disk st) child (i_size child) 0 [] of
                                 None \<Rightarrow> None
                               | Some entries \<Rightarrow> Some (i_size child, entries, st)))))))"

section \<open>An example volume\<close>

text \<open>
  The values of the constants in the examples: sectors of 512 bytes, 10000 sectors, 1000
  files, 30 sectors for a file. With them the inode bitmap is sector 1, the sector bitmap
  is sectors 2 to 4, the inode table is sectors 5 to 254 (4 inodes in a sector) and the
  data blocks start at sector 255; a sector holds 25 directory entries.
\<close>

definition example_config :: config where
  "example_config =
     \<lparr>SECTOR_SIZE = 512, TOTAL_SECTORS = 10000, MAX_FILES = 1000, MAX_SECTORS_PER_FILE = 30\<rparr>"

definition blank_disk :: disk where
  "blank_disk = (\<lambda>_. Raw (\<lambda>_. 0))"

text \<open>
  The volume that \<open>FS_Boot\<close> makes of a blank disk when there is no backing file
  (lemmas \<open>format_disk_example\<close> and \<open>FS_Boot_example\<close> below): the superblock, the
  inode bitmap with the bit of the root inode, the sector bitmap with the bits of the
  sectors 0 to 254, and the inode table with the root directory, empty, as inode 0. No
  file is open.
\<close>

definition example_disk :: disk where
  "example_disk =
     (\<lambda>s. if s = 0 then Raw ((\<lambda>_. 0)(0 := 0xef, 1 := 0xbe, 2 := 0xad, 3 := 0xde))
          else if s = 1 then Raw (\<lambda>j. if j = 0 then 0x80 else 0)
          else if s = 2 then Raw (\<lambda>j. if j < 31 then 0xff else if j = 31 then 0xfe else 0)
          else if s = 5 then Inodes (\<lambda>k. if k = 0 then zero_inode\<lparr>i_size := 0, i_type := 1\<rparr>
                                         else zero_inode)
          else if 5 < s \<and> s < 255 then Inodes (\<lambda>_. zero_inode)
          else Raw (\<lambda>_. 0))"

definition example_volume :: fs where
  "example_volume = \<lparr>disk = example_disk, open_files = (\<lambda>_. zero_open_file), osErrno = None\<rparr>"

section \<open>Notions used in the statements\<close>

text \<open>
  Bit \<open>ibit\<close> of the bitmap that starts at sector \<open>start\<close> is set: the byte and the
  mask are those of \<open>bitmap_reset\<close> and \<open>bitmap_first_unused\<close> (bit 0 is the most
  significant bit of byte 0).
\<close>

definition bitmap_bit :: "config \<Rightarrow> disk \<Rightarrow> int \<Rightarrow> int \<Rightarrow> bool" where
  "bitmap_bit c d start ibit =
     (case as_raw (d (start + (ibit div 8) div SECTOR_SIZE c)) of
        None \<Rightarrow> False
      | Some buf \<Rightarrow> buf (nat ((ibit div 8) mod SECTOR_SIZE c)) AND BYTE1 ! nat (ibit mod 8) \<noteq> 0)"

text \<open>The inode with number \<open>n\<close>, as the functions above read it from the inode table.\<close>

definition inode_of :: "config \<Rightarrow> disk \<Rightarrow> int \<Rightarrow> inode_t option" where
  "inode_of c d n =
     (case load_inode c d n of
        Some (Some (inode_sector, inode_buffer, offset)) \<Rightarrow> Some (inode_buffer offset)
      | _ \<Rightarrow> None)"








text \<open>
  The client's loop of the read/write round trip: \<open>File_Read\<close> is called with what
  remains to be read until \<open>n\<close> bytes are there; the result is the bytes read, in order.
  The first argument bounds the number of calls; the result is \<open>None\<close> when a call
  returns no byte, or when the bound is reached.
\<close>

fun File_Read_all :: "nat \<Rightarrow> config \<Rightarrow> fs \<Rightarrow> int \<Rightarrow> int \<Rightarrow> (byte list \<times> fs) option" where
  "File_Read_all 0 c st fd n = (if n \<le> 0 then Some ([], st) else None)"
| "File_Read_all (Suc calls) c st fd n =
     (if n \<le> 0 then Some ([], st)
      else
        (case File_Read c st fd True n of
           None \<Rightarrow> None
         | Some (r, bytes, st1) \<Rightarrow>
             if r \<le> 0 then None
             else
               (case File_Read_all calls c st1 fd (n - r) of
                  None \<Rightarrow> None
                | Some (rest, st2) \<Rightarrow> Some (bytes @ rest, st2))))"

text \<open>The example volume with the file \<open>/a\<close>, created and open on descriptor 0.\<close>

definition example_volume_a_open :: fs where
  "example_volume_a_open =
     (case do {
             (r1, st1) \<leftarrow> File_Create example_config example_volume (Some ''/a'');
             (fd, st2) \<leftarrow> File_Open example_config st1 (Some ''/a'') 0;
             Some st2 }
      of Some st \<Rightarrow> st | None \<Rightarrow> example_volume)"


text \<open>
  The session \<open>fd\<close> of \<open>st1\<close> is that of \<open>st\<close> with the cursor moved forward, and the
  other entries of the open-file table are the same: what the loop of \<open>File_Write\<close> does to the
  table. \<open>loop_state\<close> is the state in a result of that loop.
\<close>

definition session_advanced :: "fs \<Rightarrow> int \<Rightarrow> fs \<Rightarrow> bool" where
  "session_advanced st fd st1 =
     ((\<forall>fd'. fd' \<noteq> fd \<longrightarrow> open_files st1 fd' = open_files st fd') \<and>
      of_inode (open_files st1 fd) = of_inode (open_files st fd) \<and>
      of_size (open_files st1 fd) = of_size (open_files st fd) \<and>
      of_pos (open_files st fd) \<le> of_pos (open_files st1 fd))"

fun loop_state :: "fs + (fs \<times> (nat \<Rightarrow> inode_t) \<times> int) \<Rightarrow> fs" where
  "loop_state (Inl st) = st"
| "loop_state (Inr (st, inode_buffer, bidx)) = st"

text \<open>
  What the loop of \<open>File_Write\<close> has done when it has written the first \<open>n\<close> bytes of
  \<open>buffer\<close> to a file that was empty (the cached size is still 0). \<open>block_written\<close>: the
  sector \<open>s\<close> is a data block of the volume, marked as used in the sector bitmap, and holds
  the bytes of the file's block \<open>g\<close> that lie below \<open>n\<close>. \<open>File_Write_inv\<close>: the cursor
  is at \<open>n\<close>, the sectors before the data blocks are marked as used, and each block below
  \<open>n\<close> is written to the sector that the inode in the buffer names.
\<close>

definition block_written :: "config \<Rightarrow> (nat \<Rightarrow> byte) \<Rightarrow> disk \<Rightarrow> int \<Rightarrow> int \<Rightarrow> int \<Rightarrow> bool" where
  "block_written c buffer d s g n \<longleftrightarrow>
     0 \<le> s \<and> DATABLOCK_START_SECTOR c \<le> s \<and> s < TOTAL_SECTORS c \<and>
     g < MAX_SECTORS_PER_FILE c \<and>
     bitmap_bit c d (SECTOR_BITMAP_START_SECTOR c) s \<and>
     (\<exists>blk. d s = Raw blk \<and>
        (\<forall>k. 0 \<le> k \<and> k < SECTOR_SIZE c \<and> g * SECTOR_SIZE c + k < n \<longrightarrow>
           blk (nat k) = buffer (nat (g * SECTOR_SIZE c + k))))"

definition File_Write_inv ::
  "config \<Rightarrow> int \<Rightarrow> (nat \<Rightarrow> byte) \<Rightarrow> nat \<Rightarrow> fs \<Rightarrow> (nat \<Rightarrow> inode_t) \<Rightarrow> int \<Rightarrow> bool" where
  "File_Write_inv c fd buffer io st ib n \<longleftrightarrow>
     0 \<le> n \<and> of_pos (open_files st fd) = n \<and> of_size (open_files st fd) = 0 \<and>
     (\<forall>s. 0 \<le> s \<and> s < DATABLOCK_START_SECTOR c \<longrightarrow>
        bitmap_bit c (disk st) (SECTOR_BITMAP_START_SECTOR c) s) \<and>
     (\<forall>g. 0 \<le> g \<and> g * SECTOR_SIZE c < n \<longrightarrow>
        block_written c buffer (disk st) (i_data (ib io) (nat g)) g n)"

text \<open>
  The state with the cursor of the session \<open>fd\<close> at offset 0: the state after
  \<open>File_Seek(fd, 0)\<close> where that call succeeds, and the session that a new \<open>File_Open\<close> of
  the file gives.
\<close>

definition rewind :: "fs \<Rightarrow> int \<Rightarrow> fs" where
  "rewind st fd = st\<lparr>open_files := (open_files st)(fd := (open_files st fd)\<lparr>of_pos := 0\<rparr>)\<rparr>"

text \<open>
  The byte that \<open>bitmap_init\<close> stores when \<open>m\<close> bits remain to be set (for \<open>m \<le> 0\<close>
  the byte is \<open>BYTE10[0]\<close>, that is 0).
\<close>

definition bitmap_init_byte :: "int \<Rightarrow> byte" where
  "bitmap_init_byte m = (if m > 8 then 0xff else BYTE10 ! nat m)"

section \<open>The open-file table\<close>

lemma new_file_fd_i_full:
  "(\<And>fd. i \<le> fd \<Longrightarrow> fd < MAX_OPEN_FILES \<Longrightarrow> of_inode (ofs fd) > 0) \<Longrightarrow> new_file_fd_i ofs i = -1"
proof (induction ofs i rule: new_file_fd_i.induct)
  case (1 ofs i)
  show ?case
  proof (cases "i < MAX_OPEN_FILES")
    case True
    have pos: "of_inode (ofs i) > 0" using "1.prems"[of i] True by simp
    have "new_file_fd_i ofs (i + 1) = -1"
      using "1.IH" True pos "1.prems" by simp
    then show ?thesis using True pos by (subst new_file_fd_i.simps) simp
  next
    case False
    then show ?thesis by (subst new_file_fd_i.simps) simp
  qed
qed

lemma is_file_open_i_found:
  "i \<le> fd \<Longrightarrow> fd < MAX_OPEN_FILES \<Longrightarrow> of_inode (ofs fd) = inode \<Longrightarrow> is_file_open_i ofs inode i = 1"
proof (induction ofs inode i rule: is_file_open_i.induct)
  case (1 ofs inode i)
  have lt: "i < MAX_OPEN_FILES" using "1.prems" by simp
  show ?case
  proof (cases "of_inode (ofs i) = inode")
    case True
    then show ?thesis using lt by (subst is_file_open_i.simps) simp
  next
    case False
    then have "i \<noteq> fd" using "1.prems" by auto
    then have "i + 1 \<le> fd" using "1.prems" by simp
    then have "is_file_open_i ofs inode (i + 1) = 1"
      using "1.IH" lt False "1.prems" by simp
    then show ?thesis using lt False by (subst is_file_open_i.simps) simp
  qed
qed

section \<open>Bitmaps: bytes and masks\<close>

lemma byte_not_less_ff: "\<not> (b::byte) < 0xff \<Longrightarrow> b = 0xff"
proof -
  assume a: "\<not> b < 0xff"
  have "unat b < 256" using unsigned_less[of b, where ?'a = nat] by simp
  moreover have "\<not> unat b < 255" using a by (simp add: word_less_nat_alt)
  ultimately have "unat b = unat (0xff :: byte)" by simp
  then show ?thesis by (simp only: word_unat_eq_iff)
qed

lemma first_unused_k_le: "k \<le> 8 \<Longrightarrow> first_unused_k b k \<le> 8 \<and> k \<le> first_unused_k b k"
proof (induction b k rule: first_unused_k.induct)
  case (1 b k)
  show ?case
  proof (cases "k < 8 \<and> (BYTE1 ! k) AND b \<noteq> 0")
    case True
    then have "first_unused_k b k = first_unused_k b (k + 1)"
      by (subst first_unused_k.simps) simp
    then show ?thesis using "1.IH" True by simp
  next
    case False
    then have "first_unused_k b k = k"
      by (subst first_unused_k.simps) auto
    then show ?thesis using "1.prems" by simp
  qed
qed

lemma first_unused_k_free:
  "first_unused_k b k0 < 8 \<Longrightarrow> (BYTE1 ! (first_unused_k b k0)) AND b = 0"
proof (induction b k0 rule: first_unused_k.induct)
  case (1 b k)
  show ?case
  proof (cases "k < 8 \<and> (BYTE1 ! k) AND b \<noteq> 0")
    case True
    then have "first_unused_k b k = first_unused_k b (k + 1)"
      by (subst first_unused_k.simps) simp
    then show ?thesis using "1.IH" "1.prems" True by simp
  next
    case False
    then have eq: "first_unused_k b k = k"
      by (subst first_unused_k.simps) auto
    then show ?thesis using "1.prems" False by simp
  qed
qed

lemma first_unused_k_all_set:
  "first_unused_k b k0 = 8 \<Longrightarrow> k0 \<le> k \<Longrightarrow> k < 8 \<Longrightarrow> (BYTE1 ! k) AND b \<noteq> 0"
proof (induction b k0 rule: first_unused_k.induct)
  case (1 b k0)
  have lt: "k0 < 8" using "1.prems" by simp
  have set0: "(BYTE1 ! k0) AND b \<noteq> 0"
  proof
    assume "(BYTE1 ! k0) AND b = 0"
    then have "first_unused_k b k0 = k0" using lt by (subst first_unused_k.simps) simp
    then show False using "1.prems" lt by simp
  qed
  have next8: "first_unused_k b (k0 + 1) = 8"
    using "1.prems"(1) lt set0 by (subst (asm) first_unused_k.simps) simp
  show ?case
  proof (cases "k = k0")
    case True then show ?thesis using set0 by simp
  next
    case False
    then show ?thesis using "1.IH"[OF lt set0 next8] "1.prems" by simp
  qed
qed

lemma BYTE1_nth: "k < 8 \<Longrightarrow> BYTE1 ! k = (2 ^ (7 - k) :: byte)"
proof -
  assume "k < 8"
  then have "k = 0 \<or> k = 1 \<or> k = 2 \<or> k = 3 \<or> k = 4 \<or> k = 5 \<or> k = 6 \<or> k = 7" by arith
  then show ?thesis by (auto simp: BYTE1_def)
qed

lemma BYTE1_and_iff: "k < 8 \<Longrightarrow> ((BYTE1 ! k) AND b \<noteq> 0) = bit b (7 - k)"
  by (simp add: BYTE1_nth and.commute and_exp_eq_0_iff_not_bit)

lemma byte_all_set:
  fixes b :: byte
  assumes "\<And>k. k < 8 \<Longrightarrow> (BYTE1 ! k) AND b \<noteq> 0"
  shows "b = 0xff"
proof -
  have bits: "bit b n" if "n < 8" for n
  proof -
    have "7 - n < 8" by simp
    then have "bit b (7 - (7 - n))" using assms[of "7 - n"] by (simp only: BYTE1_and_iff)
    then show ?thesis using that by simp
  qed
  have "b = - 1"
    by (rule bit_word_eqI) (simp add: bits)
  then show ?thesis by simp
qed

lemma BYTE0_nth: "k < 8 \<Longrightarrow> BYTE0 ! k = NOT (BYTE1 ! k)"
proof -
  assume "k < 8"
  then have "k = 0 \<or> k = 1 \<or> k = 2 \<or> k = 3 \<or> k = 4 \<or> k = 5 \<or> k = 6 \<or> k = 7" by arith
  then show ?thesis by (auto simp: BYTE1_def BYTE0_def)
qed

lemma set_then_reset:
  fixes b m :: byte
  assumes "m AND b = 0"
  shows "(b OR m) AND NOT m = b"
proof (rule bit_word_eqI)
  fix n assume "n < LENGTH(8)"
  have "\<not> (bit m n \<and> bit b n)"
    using assms by (metis bit_and_iff bit_0_eq bot_apply bot_bool_def)
  then show "bit ((b OR m) AND NOT m) n = bit b n"
    using \<open>n < LENGTH(8)\<close> by (auto simp: bit_and_iff bit_or_iff bit_not_iff)
qed

lemma first_unused_k_found:
  fixes b :: byte
  assumes "b < 0xff"
  shows "first_unused_k b 0 < 8"
proof (rule ccontr)
  assume "\<not> first_unused_k b 0 < 8"
  then have e: "first_unused_k b 0 = 8" using first_unused_k_le[of 0 b] by simp
  have "b = 0xff" by (rule byte_all_set) (rule first_unused_k_all_set[OF e], simp_all)
  then show False using assms by simp
qed

lemma first_unused_j_Some:
  "first_unused_j c buf nbits j0 = Some j \<Longrightarrow>
     j0 \<le> j \<and> j < SECTOR_SIZE c \<and> j < nbits \<and> buf (nat j) < 0xff"
proof (induction c buf nbits j0 rule: first_unused_j.induct)
  case (1 c buf nbits j0)
  from "1.prems" have a: "j0 < SECTOR_SIZE c" "\<not> j0 \<ge> nbits"
    by (subst (asm) first_unused_j.simps, simp split: if_splits)+
  show ?case
  proof (cases "buf (nat j0) < 0xff")
    case True
    then have "j = j0" using "1.prems" a by (subst (asm) first_unused_j.simps) simp
    then show ?thesis using a True by simp
  next
    case False
    then have "first_unused_j c buf nbits (j0 + 1) = Some j"
      using "1.prems" a by (subst (asm) first_unused_j.simps) simp
    then show ?thesis using "1.IH" a False by fastforce
  qed
qed

lemma first_unused_j_None:
  "first_unused_j c buf nbits j0 = None \<Longrightarrow> j0 \<le> j \<Longrightarrow> j < SECTOR_SIZE c \<Longrightarrow> j < nbits \<Longrightarrow>
     buf (nat j) = 0xff"
proof (induction c buf nbits j0 rule: first_unused_j.induct)
  case (1 c buf nbits j0)
  have a: "j0 < SECTOR_SIZE c" "\<not> j0 \<ge> nbits" using "1.prems" by auto
  have full: "\<not> buf (nat j0) < 0xff"
    using "1.prems"(1) a by (subst (asm) first_unused_j.simps) (simp split: if_splits)
  then have next_None: "first_unused_j c buf nbits (j0 + 1) = None"
    using "1.prems"(1) a by (subst (asm) first_unused_j.simps) simp
  show ?case
  proof (cases "j = j0")
    case True
    show ?thesis using byte_not_less_ff[OF full] True by simp
  next
    case False
    then show ?thesis using "1.IH"[OF a(1) a(2) full next_None] "1.prems" by simp
  qed
qed

section \<open>Bitmaps: the loops over the sectors\<close>

lemma as_raw_Some: "as_raw s = Some b \<longleftrightarrow> s = Raw b"
  by (cases s) auto

lemma Disk_Read_Some: "Disk_Read c d s = Some sec \<longleftrightarrow> 0 \<le> s \<and> s < TOTAL_SECTORS c \<and> sec = d s"
  by (auto simp: Disk_Read_def)

lemma Disk_Write_Some: "0 \<le> s \<Longrightarrow> s < TOTAL_SECTORS c \<Longrightarrow> Disk_Write c d s sec = Some (d(s := sec))"
  by (simp add: Disk_Write_def)

lemma bitmap_first_unused_i_alloc:
  "bitmap_first_unused_i c d start num nbits i = Some (ret, d') \<Longrightarrow> 0 \<le> ret \<Longrightarrow>
     \<exists>i' j k buf. i \<le> i' \<and> i' < num \<and> 0 \<le> j \<and> j < SECTOR_SIZE c \<and> k < 8
        \<and> j < nbits - (i' - i) * SECTOR_SIZE c
        \<and> ret = i' * SECTOR_SIZE c * 8 + j * 8 + int k
        \<and> 0 \<le> start + i' \<and> start + i' < TOTAL_SECTORS c
        \<and> d (start + i') = Raw buf \<and> (BYTE1 ! k) AND buf (nat j) = 0
        \<and> d' = d(start + i' := Raw (buf(nat j := buf (nat j) OR BYTE1 ! k)))"
proof (induction c d start num nbits i rule: bitmap_first_unused_i.induct)
  case (1 c d start num nbits i)
  note eq = "1.prems"(1)
  have lt: "i < num"
    using eq "1.prems"(2) by (subst (asm) bitmap_first_unused_i.simps) (simp split: if_splits)
  obtain sec where rd: "Disk_Read c d (start + i) = Some sec"
    using eq "1.prems"(2) lt
    by (subst (asm) bitmap_first_unused_i.simps) (auto split: option.splits)
  then have rng: "0 \<le> start + i" "start + i < TOTAL_SECTORS c" and sec: "sec = d (start + i)"
    by (auto simp: Disk_Read_def split: if_splits)
  obtain buf where raw: "as_raw sec = Some buf"
    using eq lt rd by (subst (asm) bitmap_first_unused_i.simps) (auto split: option.splits)
  then have dsec: "d (start + i) = Raw buf" using sec by (simp add: as_raw_Some)
  show ?case
  proof (cases "first_unused_j c buf nbits 0")
    case None
    then have rec: "bitmap_first_unused_i c d start num (nbits - SECTOR_SIZE c) (i + 1) = Some (ret, d')"
      using eq lt rd raw by (subst (asm) bitmap_first_unused_i.simps) simp
    from "1.IH"[OF lt rd raw None rec "1.prems"(2)]
    obtain i' j k buf' where h: "i + 1 \<le> i'" "i' < num" "0 \<le> j" "j < SECTOR_SIZE c" "k < 8"
        "j < nbits - SECTOR_SIZE c - (i' - (i + 1)) * SECTOR_SIZE c"
        "ret = i' * SECTOR_SIZE c * 8 + j * 8 + int k"
        "0 \<le> start + i'" "start + i' < TOTAL_SECTORS c"
        "d (start + i') = Raw buf'" "(BYTE1 ! k) AND buf' (nat j) = 0"
        "d' = d(start + i' := Raw (buf'(nat j := buf' (nat j) OR BYTE1 ! k)))"
      by blast
    have "j < nbits - (i' - i) * SECTOR_SIZE c" using h(6) by (simp add: algebra_simps)
    moreover have "i \<le> i'" using h(1) by simp
    ultimately show ?thesis using h by blast
  next
    case (Some j)
    note j = first_unused_j_Some[OF Some]
    define k where "k = first_unused_k (buf (nat j)) 0"
    have k8: "k < 8" unfolding k_def using j by (intro first_unused_k_found) simp
    have free: "(BYTE1 ! k) AND buf (nat j) = 0"
      unfolding k_def using k8 k_def by (intro first_unused_k_free) simp
    have "Some (ret, d') = Some (i * SECTOR_SIZE c * 8 + j * 8 + int k,
                               d(start + i := Raw (buf(nat j := buf (nat j) OR BYTE1 ! k))))"
      using eq lt rd raw Some k8 rng
      by (subst (asm) bitmap_first_unused_i.simps) (simp add: Let_def k_def Disk_Write_def)
    then have "ret = i * SECTOR_SIZE c * 8 + j * 8 + int k"
      and "d' = d(start + i := Raw (buf(nat j := buf (nat j) OR BYTE1 ! k)))" by simp_all
    then show ?thesis using lt j k8 free rng dsec
      by - (rule exI[of _ i], rule exI[of _ j], rule exI[of _ k], rule exI[of _ buf], simp add: fun_upd_def)
  qed
qed

lemma bitmap_first_unused_i_fail:
  "bitmap_first_unused_i c d start num nbits i = Some (ret, d') \<Longrightarrow> ret < 0 \<Longrightarrow>
     0 \<le> i \<Longrightarrow> 0 \<le> SECTOR_SIZE c \<Longrightarrow> ret = -1 \<and> d' = d"
proof (induction c d start num nbits i rule: bitmap_first_unused_i.induct)
  case (1 c d start num nbits i)
  note eq = "1.prems"(1)
  show ?case
  proof (cases "i < num")
    case False
    then show ?thesis using eq by (subst (asm) bitmap_first_unused_i.simps) simp
  next
    case lt: True
    show ?thesis
    proof (cases "Disk_Read c d (start + i)")
      case None
      then show ?thesis using eq lt by (subst (asm) bitmap_first_unused_i.simps) simp
    next
      case (Some sec)
      then obtain buf where raw: "as_raw sec = Some buf"
        using eq lt by (subst (asm) bitmap_first_unused_i.simps) (auto split: option.splits)
      show ?thesis
      proof (cases "first_unused_j c buf nbits 0")
        case None
        then have rec: "bitmap_first_unused_i c d start num (nbits - SECTOR_SIZE c) (i + 1) = Some (ret, d')"
          using eq lt Some raw by (subst (asm) bitmap_first_unused_i.simps) simp
        show ?thesis using "1.IH"[OF lt Some raw None rec] "1.prems" by simp
      next
        case (Some j)
        note j = first_unused_j_Some[OF Some]
        have nonneg: "0 \<le> i * SECTOR_SIZE c * 8 + j * 8 + int (first_unused_k (buf (nat j)) 0)"
          using j "1.prems"(3,4) by simp
        show ?thesis
          using eq lt \<open>Disk_Read c d (start + i) = Some sec\<close> raw Some nonneg "1.prems"(2)
          by (subst (asm) bitmap_first_unused_i.simps)
             (auto simp: Let_def split: option.splits)
      qed
    qed
  qed
qed

lemma bitmap_first_unused_i_full:
  "bitmap_first_unused_i c d start num nbits i = Some (ret, d') \<Longrightarrow> ret < 0 \<Longrightarrow>
     0 \<le> i \<Longrightarrow> 0 \<le> SECTOR_SIZE c \<Longrightarrow>
     (\<And>i'. i \<le> i' \<Longrightarrow> i' < num \<Longrightarrow> 0 \<le> start + i' \<and> start + i' < TOTAL_SECTORS c) \<Longrightarrow>
     i \<le> i' \<Longrightarrow> i' < num \<Longrightarrow> 0 \<le> j \<Longrightarrow> j < SECTOR_SIZE c \<Longrightarrow>
     j < nbits - (i' - i) * SECTOR_SIZE c \<Longrightarrow>
     \<exists>buf. d (start + i') = Raw buf \<and> buf (nat j) = 0xff"
proof (induction c d start num nbits i rule: bitmap_first_unused_i.induct)
  case (1 c d start num nbits i)
  note eq = "1.prems"(1)
  have lt: "i < num" using "1.prems" by simp
  have rd: "Disk_Read c d (start + i) = Some (d (start + i))"
    using "1.prems"(5)[of i] lt by (simp add: Disk_Read_def)
  obtain buf where raw: "as_raw (d (start + i)) = Some buf"
    using eq lt rd by (subst (asm) bitmap_first_unused_i.simps) (auto split: option.splits)
  then have dsec: "d (start + i) = Raw buf" by (simp add: as_raw_Some)
  have none: "first_unused_j c buf nbits 0 = None"
  proof (cases "first_unused_j c buf nbits 0")
    case (Some j0)
    note j0 = first_unused_j_Some[OF Some]
    have "0 \<le> i * SECTOR_SIZE c * 8 + j0 * 8 + int (first_unused_k (buf (nat j0)) 0)"
      using j0 "1.prems"(3,4) by simp
    moreover have "0 \<le> start + i \<and> start + i < TOTAL_SECTORS c" using "1.prems"(5)[of i] lt by simp
    ultimately show ?thesis
      using eq lt rd raw Some "1.prems"(2)
      by (subst (asm) bitmap_first_unused_i.simps) (auto simp: Let_def Disk_Write_Some)
  qed simp
  have rec: "bitmap_first_unused_i c d start num (nbits - SECTOR_SIZE c) (i + 1) = Some (ret, d')"
    using eq lt rd raw none by (subst (asm) bitmap_first_unused_i.simps) simp
  show ?case
  proof (cases "i' = i")
    case True
    then have "j < nbits" using "1.prems"(10) by simp
    then have "buf (nat j) = 0xff"
      using first_unused_j_None[OF none, of j] "1.prems"(8,9) by simp
    then show ?thesis using dsec True by simp
  next
    case False
    then have ge: "i + 1 \<le> i'" using "1.prems"(6) by simp
    have jj: "j < nbits - SECTOR_SIZE c - (i' - (i + 1)) * SECTOR_SIZE c"
      using "1.prems"(10) by (simp add: algebra_simps)
    show ?thesis
      using "1.IH"[OF lt rd raw none rec "1.prems"(2) _ "1.prems"(4) _ ge "1.prems"(7,8,9) jj]
        "1.prems"(3,5) by simp
  qed
qed

lemma bitmap_first_unused_i_defined:
  "(\<And>i'. i \<le> i' \<Longrightarrow> i' < num \<Longrightarrow> as_raw (d (start + i')) \<noteq> None) \<Longrightarrow>
     bitmap_first_unused_i c d start num nbits i \<noteq> None"
proof (induction c d start num nbits i rule: bitmap_first_unused_i.induct)
  case (1 c d start num nbits i)
  show ?case
  proof (cases "i < num")
    case False
    then show ?thesis by (subst bitmap_first_unused_i.simps) simp
  next
    case lt: True
    show ?thesis
    proof (cases "Disk_Read c d (start + i)")
      case None
      then show ?thesis using lt by (subst bitmap_first_unused_i.simps) simp
    next
      case (Some sec)
      then have sec: "sec = d (start + i)" by (auto simp: Disk_Read_def split: if_splits)
      then obtain buf where raw: "as_raw sec = Some buf" using "1.prems"[of i] lt by auto
      show ?thesis
      proof (cases "first_unused_j c buf nbits 0")
        case None
        have "bitmap_first_unused_i c d start num (nbits - SECTOR_SIZE c) (i + 1) \<noteq> None"
          using "1.IH"[OF lt Some raw None] "1.prems" by simp
        then show ?thesis using lt Some raw None by (subst bitmap_first_unused_i.simps) simp
      next
        case (Some j)
        then show ?thesis using lt \<open>Disk_Read c d (start + i) = Some sec\<close> raw
          by (subst bitmap_first_unused_i.simps) (simp add: Let_def split: option.splits)
      qed
    qed
  qed
qed

section \<open>Bitmaps: the bits\<close>

lemma bit_index:
  fixes SS i j :: int
  assumes "0 < SS" "0 \<le> j" "j < SS" "k < 8"
  shows "(i * SS * 8 + j * 8 + int k) div 8 = i * SS + j"
    and "(i * SS * 8 + j * 8 + int k) mod 8 = int k"
    and "(i * SS + j) div SS = i"
    and "(i * SS + j) mod SS = j"
proof -
  have e: "i * SS * 8 + j * 8 + int k = int k + (i * SS + j) * 8" by (simp add: algebra_simps)
  have k8: "int k div 8 = 0" "int k mod 8 = int k" using assms(4) by simp_all
  have "(int k + (i * SS + j) * 8) div 8 = (i * SS + j) + int k div 8"
    by (rule div_mult_self1) simp
  then show "(i * SS * 8 + j * 8 + int k) div 8 = i * SS + j"
    by (simp only: e k8 add_0_right)
  have "(int k + (i * SS + j) * 8) mod 8 = int k mod 8"
    by (rule mod_mult_self1)
  then show "(i * SS * 8 + j * 8 + int k) mod 8 = int k"
    by (simp only: e k8)
  have e2: "i * SS + j = j + i * SS" by simp
  have j0: "j div SS = 0" "j mod SS = j" using assms(1-3) by simp_all
  have "(j + i * SS) div SS = i + j div SS"
    by (rule div_mult_self1) (use assms(1) in simp)
  then show "(i * SS + j) div SS = i" by (simp only: e2 j0 add_0_right)
  have "(j + i * SS) mod SS = j mod SS" by (rule mod_mult_self1)
  then show "(i * SS + j) mod SS = j" by (simp only: e2 j0)
qed

lemma bit_index_unique:
  fixes SS i j ibit :: int
  assumes "0 < SS" "(ibit div 8) div SS = i" "(ibit div 8) mod SS = j" "ibit mod 8 = int k"
  shows "ibit = i * SS * 8 + j * 8 + int k"
proof -
  have "ibit div 8 = i * SS + j" using assms(2,3) by (metis div_mult_mod_eq)
  then have "ibit = (i * SS + j) * 8 + int k" using assms(4) by (metis div_mult_mod_eq)
  then show ?thesis by (simp add: algebra_simps)
qed

lemma BYTE1_nonzero: "k < 8 \<Longrightarrow> BYTE1 ! k \<noteq> 0"
  by (simp add: BYTE1_nth)

lemma BYTE1_or_and:
  "k < 8 \<Longrightarrow> k' < 8 \<Longrightarrow> ((b OR BYTE1 ! k) AND BYTE1 ! k' \<noteq> 0) = (k' = k \<or> b AND BYTE1 ! k' \<noteq> 0)"
proof -
  assume k: "k < 8" "k' < 8"
  have "((b OR BYTE1 ! k) AND BYTE1 ! k' \<noteq> 0) = bit (b OR BYTE1 ! k) (7 - k')"
    using BYTE1_and_iff[OF k(2), of "b OR BYTE1 ! k"] by (simp add: and.commute)
  also have "\<dots> = (bit b (7 - k') \<or> 7 - k' = 7 - k)"
    using k by (auto simp: bit_or_iff BYTE1_nth bit_exp_iff)
  also have "\<dots> = (k' = k \<or> b AND BYTE1 ! k' \<noteq> 0)"
    using BYTE1_and_iff[OF k(2), of b] k by (auto simp: and.commute)
  finally show ?thesis .
qed

lemma bitmap_bit_Raw:
  "d (start + (ibit div 8) div SECTOR_SIZE c) = Raw buf \<Longrightarrow>
   bitmap_bit c d start ibit = (buf (nat ((ibit div 8) mod SECTOR_SIZE c)) AND BYTE1 ! nat (ibit mod 8) \<noteq> 0)"
  by (simp add: bitmap_bit_def)

lemma bitmap_bit_other_sector:
  "s \<noteq> start + (ibit div 8) div SECTOR_SIZE c \<Longrightarrow> bitmap_bit c (d(s := sec)) start ibit = bitmap_bit c d start ibit"
  by (simp add: bitmap_bit_def)

lemma bitmap_bit_after_alloc:
  assumes ss: "0 < SECTOR_SIZE c" and j: "0 \<le> j" "j < SECTOR_SIZE c" and k: "k < 8"
    and dsec: "d (start + i) = Raw buf"
  shows "bitmap_bit c (d(start + i := Raw (buf(nat j := buf (nat j) OR BYTE1 ! k)))) start ibit
         = (ibit = i * SECTOR_SIZE c * 8 + j * 8 + int k \<or> bitmap_bit c d start ibit)"
proof -
  let ?SS = "SECTOR_SIZE c"
  let ?ret = "i * ?SS * 8 + j * 8 + int k"
  let ?d' = "d(start + i := Raw (buf(nat j := buf (nat j) OR BYTE1 ! k)))"
  note idx = bit_index[OF ss j k, of i]
  have k2: "nat (ibit mod 8) < 8" by simp
  have p2: "0 \<le> (ibit div 8) mod ?SS" using ss by simp
  show ?thesis
  proof (cases "(ibit div 8) div ?SS = i")
    case False
    then have ne: "start + i \<noteq> start + (ibit div 8) div ?SS" by simp
    have "ibit \<noteq> ?ret" using False idx by auto
    then show ?thesis using bitmap_bit_other_sector[OF ne] by simp
  next
    case same: True
    then have s': "?d' (start + (ibit div 8) div ?SS) = Raw (buf(nat j := buf (nat j) OR BYTE1 ! k))"
      and s: "d (start + (ibit div 8) div ?SS) = Raw buf" using dsec by simp_all
    show ?thesis
    proof (cases "(ibit div 8) mod ?SS = j")
      case False
      then have "nat ((ibit div 8) mod ?SS) \<noteq> nat j" using p2 j by (simp add: eq_nat_nat_iff)
      moreover have "ibit \<noteq> ?ret" using False idx by auto
      ultimately show ?thesis
        unfolding bitmap_bit_Raw[where d="?d'" and ibit=ibit, OF s'] bitmap_bit_Raw[where d=d and ibit=ibit, OF s] by simp
    next
      case True
      have "(ibit = ?ret) = (nat (ibit mod 8) = k)"
      proof
        assume "ibit = ?ret" then show "nat (ibit mod 8) = k" using idx(2) by simp
      next
        assume "nat (ibit mod 8) = k"
        then have "ibit mod 8 = int k" by auto
        then show "ibit = ?ret" using bit_index_unique[OF ss same True] by simp
      qed
      then show ?thesis
        unfolding bitmap_bit_Raw[where d="?d'" and ibit=ibit, OF s'] bitmap_bit_Raw[where d=d and ibit=ibit, OF s]
        using True BYTE1_or_and[OF k k2, of "buf (nat j)"] by simp
    qed
  qed
qed

lemma bitmap_bit_before_alloc:
  assumes ss: "0 < SECTOR_SIZE c" and j: "0 \<le> j" "j < SECTOR_SIZE c" and k: "k < 8"
    and dsec: "d (start + i) = Raw buf" and free: "(BYTE1 ! k) AND buf (nat j) = 0"
  shows "\<not> bitmap_bit c d start (i * SECTOR_SIZE c * 8 + j * 8 + int k)"
proof -
  note idx = bit_index[OF ss j k, of i]
  have s: "d (start + ((i * SECTOR_SIZE c * 8 + j * 8 + int k) div 8) div SECTOR_SIZE c) = Raw buf"
    using idx dsec by simp
  show ?thesis
    unfolding bitmap_bit_Raw[where d=d and ibit="i * SECTOR_SIZE c * 8 + j * 8 + int k", OF s]
    using idx free by (simp add: and.commute)
qed

lemma bitmap_reset_after_alloc:
  assumes ss: "0 < SECTOR_SIZE c" and i: "0 \<le> i" "i < num" and j: "0 \<le> j" "j < SECTOR_SIZE c" and k: "k < 8"
    and rng: "0 \<le> start + i" "start + i < TOTAL_SECTORS c"
    and dsec: "d (start + i) = Raw buf" and free: "(BYTE1 ! k) AND buf (nat j) = 0"
  shows "bitmap_reset c (d(start + i := Raw (buf(nat j := buf (nat j) OR BYTE1 ! k)))) start num
           (i * SECTOR_SIZE c * 8 + j * 8 + int k) = Some (0, d)"
proof -
  note idx = bit_index[OF ss j k, of i]
  have "0 \<le> i * SECTOR_SIZE c" using ss i by simp
  then have nn: "\<not> i * SECTOR_SIZE c * 8 + j * 8 + int k < 0" using j by simp
  have b: "(buf (nat j) OR BYTE1 ! k) AND BYTE0 ! k = buf (nat j)"
    using set_then_reset[OF free] k by (simp add: BYTE0_nth)
  have "(buf(nat j := buf (nat j) OR BYTE1 ! k))(nat j := buf (nat j)) = buf" by simp
  moreover have "d(start + i := Raw buf) = d" using dsec by auto
  ultimately show ?thesis
    using nn idx i rng b
    by (simp add: bitmap_reset_def Let_def Disk_Read_def Disk_Write_def)
qed

lemma int_div_less:
  fixes a b n :: int
  assumes "0 < b" "a < n * b"
  shows "a div b < n"
proof (rule ccontr)
  assume "\<not> a div b < n"
  then have "n \<le> a div b" by simp
  then have "n * b \<le> (a div b) * b" using assms(1) by (simp add: mult_right_mono)
  moreover have "(a div b) * b + a mod b = a" by simp
  moreover have "0 \<le> a mod b" using assms(1) by simp
  ultimately have "n * b \<le> a" by linarith
  then show False using assms(2) by simp
qed

lemma bitmap_bit_full_byte:
  assumes "d (start + (ibit div 8) div SECTOR_SIZE c) = Raw buf"
    and "buf (nat ((ibit div 8) mod SECTOR_SIZE c)) = 0xff"
  shows "bitmap_bit c d start ibit"
proof -
  have k: "nat (ibit mod 8) < 8" by simp
  have e: "(0xff :: byte) = - 1" by simp
  have "(0xff :: byte) AND BYTE1 ! nat (ibit mod 8) \<noteq> 0"
    unfolding e using BYTE1_nonzero[OF k] by simp
  then show ?thesis
    unfolding bitmap_bit_Raw[where d=d and ibit=ibit, OF assms(1)] using assms(2) by simp
qed

lemma bitmap_first_unused_spec:
  assumes ss: "0 < SECTOR_SIZE c"
    and secs: "\<forall>i. 0 \<le> i \<and> i < num \<longrightarrow>
                 0 \<le> start + i \<and> start + i < TOTAL_SECTORS c \<and> as_raw (d (start + i)) \<noteq> None"
  shows "\<exists>ret d'. bitmap_first_unused c d start num nbits = Some (ret, d') \<and>
           (0 \<le> ret \<longrightarrow>
              ret < 8 * nbits \<and> \<not> bitmap_bit c d start ret \<and> bitmap_bit c d' start ret \<and>
              bitmap_reset c d' start num ret = Some (0, d)) \<and>
           (ret < 0 \<longrightarrow>
              ret = -1 \<and> d' = d \<and>
              (\<forall>ibit. 0 \<le> ibit \<and> ibit < 8 * nbits \<and> ibit < 8 * SECTOR_SIZE c * num \<longrightarrow>
                 bitmap_bit c d start ibit))"
proof -
  let ?SS = "SECTOR_SIZE c"
  have "bitmap_first_unused_i c d start num nbits 0 \<noteq> None"
    using secs by (intro bitmap_first_unused_i_defined) simp
  then obtain ret d' where r: "bitmap_first_unused_i c d start num nbits 0 = Some (ret, d')"
    by auto
  have alloc: "ret < 8 * nbits \<and> \<not> bitmap_bit c d start ret \<and> bitmap_bit c d' start ret \<and>
               bitmap_reset c d' start num ret = Some (0, d)" if "0 \<le> ret"
  proof -
    from bitmap_first_unused_i_alloc[OF r that]
    obtain i j k buf where h: "0 \<le> i" "i < num" "0 \<le> j" "j < ?SS" "k < 8"
        "j < nbits - (i - 0) * ?SS" "ret = i * ?SS * 8 + j * 8 + int k"
        "0 \<le> start + i" "start + i < TOTAL_SECTORS c" "d (start + i) = Raw buf"
        "(BYTE1 ! k) AND buf (nat j) = 0"
        "d' = d(start + i := Raw (buf(nat j := buf (nat j) OR BYTE1 ! k)))"
      by blast
    have "i * ?SS + j + 1 \<le> nbits" using h(6) by simp
    then have "8 * (i * ?SS + j) + 8 \<le> 8 * nbits" by simp
    then have "ret < 8 * nbits" using h(5,7) by (simp add: algebra_simps)
    moreover have "\<not> bitmap_bit c d start ret"
      unfolding h(7) by (rule bitmap_bit_before_alloc[where d=d and start=start and i=i, OF ss h(3,4,5) h(10,11)])
    moreover have "bitmap_bit c d' start ret"
      unfolding h(12) using bitmap_bit_after_alloc[where d=d and start=start and i=i and ibit=ret, OF ss h(3,4,5) h(10)] h(7) by simp
    moreover have "bitmap_reset c d' start num ret = Some (0, d)"
      unfolding h(12) h(7) by (rule bitmap_reset_after_alloc[where d=d and start=start and i=i, OF ss h(1,2,3,4,5) h(8,9,10,11)])
    ultimately show ?thesis by simp
  qed
  have full: "ret = -1 \<and> d' = d \<and>
              (\<forall>ibit. 0 \<le> ibit \<and> ibit < 8 * nbits \<and> ibit < 8 * ?SS * num \<longrightarrow>
                 bitmap_bit c d start ibit)" if neg: "ret < 0"
  proof -
    have ss0: "0 \<le> ?SS" using ss by simp
    have f: "ret = -1 \<and> d' = d" using bitmap_first_unused_i_fail[OF r neg _ ss0] by simp
    have "bitmap_bit c d start ibit"
      if ib: "0 \<le> ibit" "ibit < 8 * nbits" "ibit < 8 * ?SS * num" for ibit
    proof -
      let ?i = "(ibit div 8) div ?SS" and ?j = "(ibit div 8) mod ?SS"
      have b0: "0 \<le> ibit div 8" using ib(1) by simp
      have i0: "0 \<le> ?i" using b0 ss by (simp add: pos_imp_zdiv_nonneg_iff)
      have "ibit div 8 < ?SS * num" using ib(3) by simp
      then have i1: "?i < num" using ss by (intro int_div_less) (simp_all add: mult.commute)
      have j0: "0 \<le> ?j" "?j < ?SS" using ss by simp_all
      have "ibit div 8 < nbits" using ib(2) by simp
      moreover have "?i * ?SS + ?j = ibit div 8" by (rule div_mult_mod_eq)
      ultimately have "?j < nbits - ?i * ?SS" by linarith
      then have j1: "?j < nbits - (?i - 0) * ?SS" by simp
      have rng: "\<And>i'. 0 \<le> i' \<Longrightarrow> i' < num \<Longrightarrow> 0 \<le> start + i' \<and> start + i' < TOTAL_SECTORS c"
        using secs by simp
      from bitmap_first_unused_i_full[OF r neg _ ss0 rng i0 i1 j0 j1]
      obtain buf where "d (start + ?i) = Raw buf" "buf (nat ?j) = 0xff" by auto
      then show ?thesis by (rule bitmap_bit_full_byte[where d=d and start=start and ibit=ibit])
    qed
    then show ?thesis using f by simp
  qed
  show ?thesis
    unfolding bitmap_first_unused_def using r alloc full by simp
qed

section \<open>The open-file table under the API calls\<close>

lemma File_Write_block_sessions:
  "File_Write_block c st fd ib io gidx sa = Some (Inl st1) \<Longrightarrow> open_files st1 = open_files st"
  "File_Write_block c st fd ib io gidx sa = Some (Inr (st2, ib1, data)) \<Longrightarrow> open_files st2 = open_files st"
  by (auto simp: File_Write_block_def Let_def split: option.splits if_splits)

lemma session_advanced_refl: "session_advanced st fd st"
  by (simp add: session_advanced_def)

lemma File_Write_loop_sessions:
  "File_Write_loop c st fd buffer ib io bidx remain size0 = Some res \<Longrightarrow>
     session_advanced st fd (loop_state res)"
proof (induction c st fd buffer ib io bidx remain size0 res
         rule: File_Write_loop.raw_induct[rotated 1, consumes 1, case_names step])
  case (step loop c st fd buffer ib io bidx remain size0 res)
  show ?case
  proof (cases "0 < remain")
    case False
    then show ?thesis using step(2) by (auto simp: session_advanced_refl)
  next
    case True
    show ?thesis
      using step(2) True
      by (auto simp: Let_def session_advanced_def
               split: if_splits option.splits sum.splits prod.splits
               dest!: step(1) File_Write_block_sessions)
  qed
qed




















section \<open>Reading a file back\<close>

lemma map_shift_upt:
  "(\<And>k. k < n \<Longrightarrow> f (a + k) = g (b + k)) \<Longrightarrow> map (\<lambda>k. f (a + k)) [0 ..< n] = map g [b ..< b + n]"
proof -
  assume h: "\<And>k. k < n \<Longrightarrow> f (a + k) = g (b + k)"
  have "[b ..< b + n] = map (\<lambda>k. b + k) [0 ..< n]"
    by (induction n) simp_all
  then have "map g [b ..< b + n] = map (\<lambda>k. g (b + k)) [0 ..< n]"
    by (simp add: comp_def)
  also have "\<dots> = map (\<lambda>k. f (a + k)) [0 ..< n]" using h by simp
  finally show ?thesis by simp
qed

lemma File_Read_step:
  assumes ss: "0 < SECTOR_SIZE c"
    and rng: "MAX_SECTORS_PER_FILE c * SECTOR_SIZE c \<le> INT_MAX" "N \<le> INT_MAX"
    and fd: "0 \<le> fd" "fd < MAX_OPEN_FILES"
    and ino: "0 < of_inode (open_files st fd)"
    and sz: "of_size (open_files st fd) = N"
    and pos: "of_pos (open_files st fd) = p" "0 \<le> p" "p < N"
    and li: "load_inode c (disk st) (of_inode (open_files st fd)) = Some (Some (isec, ib, io))"
    and inode: "i_size (ib io) = N" "i_type (ib io) = 0"
    and blocks: "\<forall>g. 0 \<le> g \<and> g * SECTOR_SIZE c < N \<longrightarrow>
                   g < MAX_SECTORS_PER_FILE c \<and>
                   (\<exists>blk. Disk_Read c (disk st) (i_data (ib io) (nat g)) = Some (Raw blk) \<and>
                      (\<forall>k. 0 \<le> k \<and> k < SECTOR_SIZE c \<and> g * SECTOR_SIZE c + k < N \<longrightarrow>
                         blk (nat k) = buffer (nat (g * SECTOR_SIZE c + k))))"
  shows "\<exists>size1. 0 < size1 \<and> p + size1 \<le> N \<and>
           File_Read c st fd True (N - p) =
             Some (size1, map buffer [nat p ..< nat (p + size1)],
                   st\<lparr>open_files := (open_files st)(fd := (open_files st fd)\<lparr>of_pos := p + size1\<rparr>)\<rparr>)"
proof -
  let ?SS = "SECTOR_SIZE c"
  define gidx where "gidx = p div ?SS"
  define end_addr where "end_addr = (if gidx * ?SS + ?SS > N then N else gidx * ?SS + ?SS)"
  define size1 where "size1 = end_addr - p"
  define offset where "offset = p - gidx * ?SS"
  have off: "offset = p mod ?SS" unfolding offset_def gidx_def by (simp add: minus_div_mult_eq_mod)
  have off0: "0 \<le> offset" "offset < ?SS" using ss unfolding off by simp_all
  have g0: "0 \<le> gidx" unfolding gidx_def using pos(2) ss by (simp add: pos_imp_zdiv_nonneg_iff)
  have gle: "gidx * ?SS \<le> p" using off0 unfolding offset_def by simp
  then have gN: "gidx * ?SS < N" using pos(3) by simp
  have plt: "p < gidx * ?SS + ?SS" using off0 unfolding offset_def by simp
  have s1: "0 < size1" "p + size1 \<le> N" "p + size1 \<le> gidx * ?SS + ?SS"
    unfolding size1_def end_addr_def using plt pos(3) by auto
  from blocks g0 gN obtain blk where
    gmax: "gidx < MAX_SECTORS_PER_FILE c"
    and rd: "Disk_Read c (disk st) (i_data (ib io) (nat gidx)) = Some (Raw blk)"
    and blk: "\<And>k. 0 \<le> k \<Longrightarrow> k < ?SS \<Longrightarrow> gidx * ?SS + k < N \<Longrightarrow>
                blk (nat k) = buffer (nat (gidx * ?SS + k))"
    by blast
  have sz1: "(if end_addr < p + (N - p) then end_addr - p else N - p) = size1"
    unfolding size1_def end_addr_def by auto
  have bytes: "map (\<lambda>k. blk (nat offset + k)) [0 ..< nat size1] = map buffer [nat p ..< nat (p + size1)]"
  proof -
    have "map (\<lambda>k. blk (nat offset + k)) [0 ..< nat size1] = map buffer [nat p ..< nat p + nat size1]"
    proof (rule map_shift_upt)
      fix k assume k: "k < nat size1"
      have "blk (nat (offset + int k)) = buffer (nat (gidx * ?SS + (offset + int k)))"
        using off0 k s1 by (intro blk) (auto simp: offset_def)
      moreover have "nat (offset + int k) = nat offset + k" using off0 by (simp add: nat_add_distrib)
      moreover have "nat (gidx * ?SS + (offset + int k)) = nat p + k"
        using pos(2) by (simp add: offset_def nat_add_distrib)
      ultimately show "blk (nat offset + k) = buffer (nat p + k)" by simp
    qed
    moreover have "nat p + nat size1 = nat (p + size1)" using pos(2) s1(1) by (simp add: nat_add_distrib)
    ultimately show ?thesis by simp
  qed
  have "(gidx + 1) * ?SS \<le> MAX_SECTORS_PER_FILE c * ?SS"
    using gmax ss by (intro mult_right_mono) simp_all
  moreover have "0 \<le> gidx * ?SS" using g0 ss by simp
  ultimately have r1: "int_range (gidx * ?SS + ?SS)"
    using rng(1) ss by (simp add: int_range_def INT_MIN_def algebra_simps)
  have r2: "int_range (p + (N - p))"
    using rng(2) pos by (simp add: int_range_def INT_MIN_def)
  have "File_Read c st fd True (N - p) =
          Some (size1, map buffer [nat p ..< nat (p + size1)],
                st\<lparr>open_files := (open_files st)(fd := (open_files st fd)\<lparr>of_pos := p + size1\<rparr>)\<rparr>)"
    unfolding File_Read_def
    using fd ino sz pos li inode gmax rd s1 bytes plt r1 r2
    by (auto simp: Let_def gidx_def[symmetric] offset_def[symmetric] size1_def end_addr_def)
  then show ?thesis using s1 by blast
qed


lemma load_inode_open_files [simp]:
  "load_inode c (disk (st\<lparr>open_files := ofs\<rparr>)) n = load_inode c (disk st) n"
  by simp

lemma File_Read_all_holds:
  assumes ss: "0 < SECTOR_SIZE c"
    and rng: "MAX_SECTORS_PER_FILE c * SECTOR_SIZE c \<le> INT_MAX" "N \<le> INT_MAX"
    and fd: "0 \<le> fd" "fd < MAX_OPEN_FILES"
    and ino: "0 < of_inode (open_files st fd)"
    and sz: "of_size (open_files st fd) = N"
    and pos: "of_pos (open_files st fd) = p" "0 \<le> p" "p \<le> N"
    and li: "load_inode c (disk st) (of_inode (open_files st fd)) = Some (Some (isec, ib, io))"
    and inode: "i_size (ib io) = N" "i_type (ib io) = 0"
    and blocks: "\<forall>g. 0 \<le> g \<and> g * SECTOR_SIZE c < N \<longrightarrow>
                   g < MAX_SECTORS_PER_FILE c \<and>
                   (\<exists>blk. Disk_Read c (disk st) (i_data (ib io) (nat g)) = Some (Raw blk) \<and>
                      (\<forall>k. 0 \<le> k \<and> k < SECTOR_SIZE c \<and> g * SECTOR_SIZE c + k < N \<longrightarrow>
                         blk (nat k) = buffer (nat (g * SECTOR_SIZE c + k))))"
    and calls: "nat (N - p) \<le> calls"
  shows "\<exists>st'. File_Read_all calls c st fd (N - p) = Some (map buffer [nat p ..< nat N], st')"
  using ino sz pos li blocks calls
proof (induction calls arbitrary: st p)
  case 0
  then have "p = N" by simp
  then show ?case by simp
next
  case (Suc calls)
  show ?case
  proof (cases "p = N")
    case True
    then show ?thesis by simp
  next
    case False
    then have lt: "p < N" using Suc.prems by simp
    from File_Read_step[OF ss rng fd Suc.prems(1,2,3,4) lt Suc.prems(6) inode Suc.prems(7)]
    obtain size1 where s: "0 < size1" "p + size1 \<le> N"
      and rd: "File_Read c st fd True (N - p) =
                 Some (size1, map buffer [nat p ..< nat (p + size1)],
                       st\<lparr>open_files := (open_files st)(fd := (open_files st fd)\<lparr>of_pos := p + size1\<rparr>)\<rparr>)"
      by blast
    let ?st1 = "st\<lparr>open_files := (open_files st)(fd := (open_files st fd)\<lparr>of_pos := p + size1\<rparr>)\<rparr>"
    have "\<exists>st'. File_Read_all calls c ?st1 fd (N - (p + size1)) = Some (map buffer [nat (p + size1) ..< nat N], st')"
    proof (rule Suc.IH)
      show "nat (N - (p + size1)) \<le> calls" using Suc.prems(8) s lt by simp
    qed (use Suc.prems s in simp_all)
    then obtain st' where r: "File_Read_all calls c ?st1 fd (N - p - size1) = Some (map buffer [nat (p + size1) ..< nat N], st')"
      by (auto simp: algebra_simps)
    have "nat p \<le> nat (p + size1)" "nat (p + size1) + (nat N - nat (p + size1)) = nat N"
      using Suc.prems(4) s by simp_all
    then have "[nat p ..< nat (p + size1)] @ [nat (p + size1) ..< nat N] = [nat p ..< nat N]"
      using upt_add_eq_append[of "nat p" "nat (p + size1)" "nat N - nat (p + size1)"] by simp
    then have "map buffer [nat p ..< nat (p + size1)] @ map buffer [nat (p + size1) ..< nat N]
               = map buffer [nat p ..< nat N]"
      by (simp only: map_append[symmetric])
    then show ?thesis using lt rd r s(1) by simp
  qed
qed

section \<open>Writing a new file: one sector\<close>

lemma bit_sector_in_bitmap:
  assumes ss: "0 < SECTOR_SIZE c" and s: "0 \<le> s" "s < TOTAL_SECTORS c"
  shows "0 \<le> (s div 8) div SECTOR_SIZE c \<and> (s div 8) div SECTOR_SIZE c < SECTOR_BITMAP_SECTORS c"
proof -
  let ?SS = "SECTOR_SIZE c" and ?T = "TOTAL_SECTORS c"
  have "s div 8 \<le> (?T - 1) div 8" using s(2) by (intro zdiv_mono1) simp_all
  moreover have "(?T - 1 + 8) div 8 = (?T - 1) div 8 + 1" by (rule div_add_self2) simp
  ultimately have a: "s div 8 \<le> SECTOR_BITMAP_SIZE c - 1"
    by (simp add: SECTOR_BITMAP_SIZE_def)
  have "(s div 8) div ?SS \<le> (SECTOR_BITMAP_SIZE c - 1) div ?SS"
    using a ss by (intro zdiv_mono1) simp_all
  moreover have "(SECTOR_BITMAP_SIZE c - 1 + ?SS) div ?SS = (SECTOR_BITMAP_SIZE c - 1) div ?SS + 1"
    by (rule div_add_self2) (use ss in simp)
  ultimately have "(s div 8) div ?SS < SECTOR_BITMAP_SECTORS c"
    by (simp add: SECTOR_BITMAP_SECTORS_def algebra_simps)
  moreover have "0 \<le> (s div 8) div ?SS" using s(1) ss by (simp add: pos_imp_zdiv_nonneg_iff)
  ultimately show ?thesis by simp
qed

lemma alloc_sector:
  assumes ss: "0 < SECTOR_SIZE c"
    and al: "bitmap_first_unused c d start num nbits = Some (newsec, d1)" "0 \<le> newsec"
  shows "\<exists>q buf. 0 \<le> q \<and> q < num \<and> d1 = d(start + q := Raw buf) \<and>
           \<not> bitmap_bit c d start newsec \<and>
           (\<forall>x. bitmap_bit c d1 start x = (x = newsec \<or> bitmap_bit c d start x))"
proof -
  from bitmap_first_unused_i_alloc[OF al(1)[unfolded bitmap_first_unused_def] al(2)]
  obtain i j k buf where h: "0 \<le> i" "i < num" "0 \<le> j" "j < SECTOR_SIZE c" "k < 8"
      "newsec = i * SECTOR_SIZE c * 8 + j * 8 + int k"
      "d (start + i) = Raw buf" "(BYTE1 ! k) AND buf (nat j) = 0"
      "d1 = d(start + i := Raw (buf(nat j := buf (nat j) OR BYTE1 ! k)))"
    by blast
  have "\<not> bitmap_bit c d start newsec"
    unfolding h(6) by (rule bitmap_bit_before_alloc[where d=d and start=start and i=i, OF ss h(3,4,5) h(7,8)])
  moreover have "bitmap_bit c d1 start x = (x = newsec \<or> bitmap_bit c d start x)" for x
    unfolding h(9) h(6)
    by (rule bitmap_bit_after_alloc[where d=d and start=start and i=i, OF ss h(3,4,5) h(7)])
  ultimately show ?thesis using h(1,2,9) by blast
qed

lemma File_Write_inv_step:
  assumes ss: "0 < SECTOR_SIZE c"
    and lay: "SECTOR_BITMAP_START_SECTOR c + SECTOR_BITMAP_SECTORS c \<le> DATABLOCK_START_SECTOR c"
    and inv: "File_Write_inv c fd buffer io st ib bidx"
    and al: "bidx mod SECTOR_SIZE c = 0"
    and gmax: "bidx div SECTOR_SIZE c < MAX_SECTORS_PER_FILE c"
    and alloc: "bitmap_first_unused c (disk st) (SECTOR_BITMAP_START_SECTOR c)
                  (SECTOR_BITMAP_SECTORS c) (SECTOR_BITMAP_SIZE c) = Some (newsec, d1)" "0 \<le> newsec"
    and wr: "Disk_Write c d1 newsec (Raw data1) = Some d2"
    and s1: "0 < size1" "size1 \<le> SECTOR_SIZE c"
    and data1: "\<forall>k. k < nat size1 \<longrightarrow> data1 k = buffer (nat bidx + k)"
    and st': "disk st' = d2" "of_pos (open_files st' fd) = bidx + size1" "of_size (open_files st' fd) = 0"
    and ib': "i_data (ib' io) = (i_data (ib io))(nat (bidx div SECTOR_SIZE c) := newsec)"
  shows "File_Write_inv c fd buffer io st' ib' (bidx + size1)"
proof -
  let ?SS = "SECTOR_SIZE c" and ?SBS = "SECTOR_BITMAP_START_SECTOR c"
  let ?DBS = "DATABLOCK_START_SECTOR c"
  define gidx where "gidx = bidx div ?SS"
  have b0: "0 \<le> bidx" and meta: "\<And>s. 0 \<le> s \<Longrightarrow> s < ?DBS \<Longrightarrow> bitmap_bit c (disk st) ?SBS s"
    and old: "\<And>g. 0 \<le> g \<Longrightarrow> g * ?SS < bidx \<Longrightarrow>
                block_written c buffer (disk st) (i_data (ib io) (nat g)) g bidx"
    using inv by (auto simp: File_Write_inv_def)
  have bg: "bidx = gidx * ?SS" unfolding gidx_def using al by (simp add: mod_0_imp_dvd)
  have g0: "0 \<le> gidx" unfolding gidx_def using b0 ss by (simp add: pos_imp_zdiv_nonneg_iff)
  from alloc_sector[OF ss alloc]
  obtain q buf where q: "0 \<le> q" "q < SECTOR_BITMAP_SECTORS c"
      and d1: "d1 = (disk st)(?SBS + q := Raw buf)"
      and free: "\<not> bitmap_bit c (disk st) ?SBS newsec"
      and after: "\<And>x. bitmap_bit c d1 ?SBS x = (x = newsec \<or> bitmap_bit c (disk st) ?SBS x)"
    by blast
  have rng: "newsec < TOTAL_SECTORS c" and d2: "d2 = d1(newsec := Raw data1)"
    using wr by (auto simp: Disk_Write_def split: if_splits)
  have dbs: "?DBS \<le> newsec" using meta[of newsec] free alloc(2) by (cases "newsec < ?DBS") auto
  have bitsec: "bitmap_bit c d2 ?SBS x = bitmap_bit c d1 ?SBS x" if "0 \<le> x" "x < TOTAL_SECTORS c" for x
  proof -
    have "?SBS + (x div 8) div ?SS < ?DBS"
      using bit_sector_in_bitmap[OF ss that] lay by simp
    then have "newsec \<noteq> ?SBS + (x div 8) div ?SS" using dbs by simp
    then show ?thesis unfolding d2 by (rule bitmap_bit_other_sector)
  qed
  have meta': "bitmap_bit c d2 ?SBS s" if "0 \<le> s" "s < ?DBS" for s
  proof -
    have "s < TOTAL_SECTORS c" using that dbs rng by simp
    then show ?thesis using bitsec[OF that(1)] after meta[OF that] by simp
  qed
  have blocks': "block_written c buffer d2 (i_data (ib' io) (nat g)) g (bidx + size1)"
    if g: "0 \<le> g" "g * ?SS < bidx + size1" for g
  proof (cases "g = gidx")
    case True
    have sec: "i_data (ib' io) (nat g) = newsec" using True ib' by (simp add: gidx_def)
    have content: "data1 (nat k) = buffer (nat (g * ?SS + k))"
      if k: "0 \<le> k" "g * ?SS + k < bidx + size1" for k
    proof -
      have "nat k < nat size1" using k True bg by simp
      then have "data1 (nat k) = buffer (nat bidx + nat k)" using data1 by simp
      moreover have "nat bidx + nat k = nat (g * ?SS + k)"
        using k(1) b0 True bg by (simp add: nat_add_distrib)
      ultimately show ?thesis by simp
    qed
    have "bitmap_bit c d2 ?SBS newsec" using bitsec[OF alloc(2) rng] after by simp
    then show ?thesis
      unfolding block_written_def sec using alloc(2) dbs rng gmax True content d2
      by (auto simp: gidx_def)
  next
    case False
    have "g < gidx"
    proof (rule ccontr)
      assume "\<not> g < gidx"
      then have "gidx + 1 \<le> g" using False by simp
      then have "(gidx + 1) * ?SS \<le> g * ?SS" using ss by (simp add: mult_right_mono)
      then show False using g(2) bg s1(2) by (simp add: algebra_simps)
    qed
    then have "g + 1 \<le> gidx" by simp
    then have "(g + 1) * ?SS \<le> gidx * ?SS" using ss by (simp add: mult_right_mono)
    then have le: "g * ?SS + ?SS \<le> bidx" using bg by (simp add: algebra_simps)
    then have lt: "g * ?SS < bidx" using ss by simp
    let ?s = "i_data (ib io) (nat g)"
    have ow: "block_written c buffer (disk st) ?s g bidx" using old[OF g(1) lt] .
    then obtain blk where s0: "0 \<le> ?s" and w: "?DBS \<le> ?s" "?s < TOTAL_SECTORS c" "g < MAX_SECTORS_PER_FILE c"
        "bitmap_bit c (disk st) ?SBS ?s" "disk st ?s = Raw blk"
        "\<And>k. 0 \<le> k \<Longrightarrow> k < ?SS \<Longrightarrow> g * ?SS + k < bidx \<Longrightarrow> blk (nat k) = buffer (nat (g * ?SS + k))"
      by (auto simp: block_written_def)
    have ne: "nat g \<noteq> nat gidx" using \<open>g < gidx\<close> g(1) by simp
    then have sec: "i_data (ib' io) (nat g) = ?s" using ib' by (simp add: gidx_def)
    have "?s \<noteq> newsec" using w(4) free by auto
    moreover have "?s \<noteq> ?SBS + q" using w(1) q(2) lay by simp
    ultimately have same: "d2 ?s = Raw blk" using w(5) by (simp add: d2 d1)
    have "bitmap_bit c d2 ?SBS ?s" using bitsec[OF s0 w(2)] after w(4) by simp
    moreover have "blk (nat k) = buffer (nat (g * ?SS + k))"
      if "0 \<le> k" "k < ?SS" for k
      using w(6)[OF that] that le by simp
    ultimately show ?thesis
      unfolding block_written_def sec using s0 w(1,2,3) same by auto
  qed
  show ?thesis
    unfolding File_Write_inv_def using b0 s1(1) st' meta' blocks' by simp
qed

section \<open>Writing a new file: the loop\<close>

lemma File_Write_block_new:
  assumes "File_Write_block c st fd ib io gidx start_addr = Some (Inr (st1, ib1, data))"
    and "\<not> start_addr < of_size (open_files st fd)"
  shows "\<exists>newsec d1. bitmap_first_unused c (disk st) (SECTOR_BITMAP_START_SECTOR c)
                          (SECTOR_BITMAP_SECTORS c) (SECTOR_BITMAP_SIZE c) = Some (newsec, d1) \<and>
           0 \<le> newsec \<and> st1 = st\<lparr>disk := d1\<rparr> \<and>
           ib1 = ib(io := (ib io)\<lparr>i_data := (i_data (ib io))(nat gidx := newsec)\<rparr>) \<and>
           data = (\<lambda>_. 0)"
  using assms
  by (auto simp: File_Write_block_def Let_def split: option.splits if_splits)

lemma File_Write_loop_inv:
  "File_Write_loop c st fd buffer ib io bidx remain size0 = Some res \<Longrightarrow>
     (\<forall>stL ibL bidxL.
        res = Inr (stL, ibL, bidxL) \<longrightarrow> 0 < SECTOR_SIZE c \<longrightarrow>
        SECTOR_BITMAP_START_SECTOR c + SECTOR_BITMAP_SECTORS c \<le> DATABLOCK_START_SECTOR c \<longrightarrow>
        size0 = remain \<longrightarrow> 0 \<le> remain \<longrightarrow> (0 < remain \<longrightarrow> bidx mod SECTOR_SIZE c = 0) \<longrightarrow>
        File_Write_inv c fd buffer io st ib bidx \<longrightarrow>
        File_Write_inv c fd buffer io stL ibL (bidx + remain) \<and> bidxL = bidx + remain \<and>
        (\<forall>io'. io' \<noteq> io \<longrightarrow> ibL io' = ib io') \<and>
        i_size (ibL io) = i_size (ib io) \<and> i_type (ibL io) = i_type (ib io))"
proof (induction c st fd buffer ib io bidx remain size0 res
         rule: File_Write_loop.raw_induct[rotated 1, consumes 1, case_names step])
  case (step loop c st fd buffer ib io bidx remain size0 res)
  show ?case
  proof (intro allI impI)
    fix stL ibL bidxL
    let ?SS = "SECTOR_SIZE c"
    assume res: "res = Inr (stL, ibL, bidxL)" and ss: "0 < ?SS"
      and lay: "SECTOR_BITMAP_START_SECTOR c + SECTOR_BITMAP_SECTORS c \<le> DATABLOCK_START_SECTOR c"
      and sz: "size0 = remain" and r0: "0 \<le> remain"
      and al: "0 < remain \<longrightarrow> bidx mod ?SS = 0"
      and inv: "File_Write_inv c fd buffer io st ib bidx"
    show "File_Write_inv c fd buffer io stL ibL (bidx + remain) \<and> bidxL = bidx + remain \<and>
          (\<forall>io'. io' \<noteq> io \<longrightarrow> ibL io' = ib io') \<and>
          i_size (ibL io) = i_size (ib io) \<and> i_type (ibL io) = i_type (ib io)"
    proof (cases "0 < remain")
      case False
      then have "remain = 0" using r0 by simp
      then show ?thesis using step(2) res inv by simp
    next
      case True
      have pos: "of_pos (open_files st fd) = bidx" and b0: "0 \<le> bidx"
        and size: "of_size (open_files st fd) = 0"
        using inv by (auto simp: File_Write_inv_def)
      define gidx where "gidx = bidx div ?SS"
      have bg: "bidx = gidx * ?SS" unfolding gidx_def using al True by (simp add: mod_0_imp_dvd)
      have g0: "0 \<le> gidx" unfolding gidx_def using b0 ss by (simp add: pos_imp_zdiv_nonneg_iff)
      define size1 where "size1 = (if ?SS < remain then ?SS else remain)"
      have s1: "0 < size1" "size1 \<le> ?SS" "size1 \<le> remain" unfolding size1_def using True ss by auto
      have sz1: "(if gidx * ?SS + ?SS < bidx + size0 then gidx * ?SS + ?SS - bidx else size0) = size1"
        unfolding size1_def sz bg by simp
      have off: "bidx - gidx * ?SS = 0" using bg by simp
      note body = step(2)[unfolded res, simplified True pos Let_def gidx_def[symmetric] sz1 off, simplified]
      have gmax: "gidx < MAX_SECTORS_PER_FILE c"
        using body g0 by (auto split: if_splits)
      obtain st1 ib1 data where
        blk: "File_Write_block c st fd ib io gidx (gidx * ?SS) = Some (Inr (st1, ib1, data))"
        using body gmax g0 by (auto split: if_splits option.splits sum.splits)
      have "\<not> gidx * ?SS < of_size (open_files st fd)" using size b0 bg by simp
      from File_Write_block_new[OF blk this]
      obtain newsec d1 where
        alloc: "bitmap_first_unused c (disk st) (SECTOR_BITMAP_START_SECTOR c)
                  (SECTOR_BITMAP_SECTORS c) (SECTOR_BITMAP_SIZE c) = Some (newsec, d1)" "0 \<le> newsec"
        and st1: "st1 = st\<lparr>disk := d1\<rparr>"
        and ib1: "ib1 = ib(io := (ib io)\<lparr>i_data := (i_data (ib io))(nat gidx := newsec)\<rparr>)"
        and data: "data = (\<lambda>_. 0)"
        by blast
      define data1 where "data1 = (\<lambda>k. if k < nat size1 then buffer (nat bidx + k) else (0::byte))"
      define st2 where "st2 = st1\<lparr>open_files := (open_files st1)(fd := (open_files st1 fd)\<lparr>of_pos := bidx + size1\<rparr>)\<rparr>"
      obtain d2 where
        wr: "Disk_Write c d1 newsec (Raw data1) = Some d2"
        and rec: "loop c (st2\<lparr>disk := d2\<rparr>) fd buffer ib1 io (bidx + size1) (remain - size1) (remain - size1)
                  = Some (Inr (stL, ibL, bidxL))"
        using body gmax g0 blk s1(1)
        by (auto simp: st1 ib1 data data1_def st2_def split: if_splits option.splits cong: if_cong)
      have inv': "File_Write_inv c fd buffer io (st2\<lparr>disk := d2\<rparr>) ib1 (bidx + size1)"
      proof (rule File_Write_inv_step[OF ss lay inv _ _ alloc wr s1(1,2)])
        show "bidx mod ?SS = 0" using al True by simp
        show "bidx div ?SS < MAX_SECTORS_PER_FILE c" using gmax by (simp add: gidx_def)
        show "\<forall>k<nat size1. data1 k = buffer (nat bidx + k)" by (simp add: data1_def)
        show "i_data (ib1 io) = (i_data (ib io))(nat (bidx div ?SS) := newsec)"
          by (simp add: ib1 gidx_def)
      qed (simp_all add: st2_def st1 size)
      have al': "0 < remain - size1 \<longrightarrow> (bidx + size1) mod ?SS = 0"
      proof
        assume "0 < remain - size1"
        then have "size1 = ?SS" unfolding size1_def by (auto split: if_splits)
        then show "(bidx + size1) mod ?SS = 0" using bg by simp
      qed
      have r0': "0 \<le> remain - size1" using s1(3) by simp
      from step(1)[OF rec, rule_format, OF refl ss lay refl r0' al'[rule_format] inv']
      have post: "File_Write_inv c fd buffer io stL ibL (bidx + size1 + (remain - size1))"
        "bidxL = bidx + size1 + (remain - size1)"
        "\<And>io'. io' \<noteq> io \<Longrightarrow> ibL io' = ib1 io'"
        "i_size (ibL io) = i_size (ib1 io)" "i_type (ibL io) = i_type (ib1 io)"
        by auto
      show ?thesis using post by (simp add: ib1)
    qed
  qed
qed

section \<open>The inode of an open file\<close>

lemma load_inode_SomeD:
  assumes "load_inode c d n = Some (Some (isec, ib, io))"
  shows "isec = INODE_TABLE_START_SECTOR c + n div INODES_PER_SECTOR c"
    and "0 \<le> isec" and "isec < TOTAL_SECTORS c" and "as_inodes c (d isec) = Some ib"
    and "0 < INODES_PER_SECTOR c"
    and "\<And>d'. d' isec = Inodes ib' \<Longrightarrow> load_inode c d' n = Some (Some (isec, ib', io))"
  using assms
  by (auto simp: load_inode_def Let_def Disk_Read_def split: if_splits option.splits)

lemma inode_sector_below_data:
  assumes ips: "0 < INODES_PER_SECTOR c" and n: "0 \<le> n" "n < MAX_FILES c"
  shows "INODE_TABLE_START_SECTOR c + n div INODES_PER_SECTOR c < DATABLOCK_START_SECTOR c"
    and "INODE_TABLE_START_SECTOR c \<le> DATABLOCK_START_SECTOR c"
proof -
  let ?IPS = "INODES_PER_SECTOR c"
  have "n div ?IPS \<le> (MAX_FILES c - 1) div ?IPS" using n ips by (intro zdiv_mono1) simp_all
  moreover have "(MAX_FILES c - 1 + ?IPS) div ?IPS = (MAX_FILES c - 1) div ?IPS + 1"
    by (rule div_add_self2) (use ips in simp)
  ultimately have lt: "n div ?IPS < INODE_TABLE_SECTORS c"
    by (simp add: INODE_TABLE_SECTORS_def algebra_simps)
  then show "INODE_TABLE_START_SECTOR c + n div ?IPS < DATABLOCK_START_SECTOR c"
    by (simp add: DATABLOCK_START_SECTOR_def)
  have "0 \<le> n div ?IPS" using n ips by (simp add: pos_imp_zdiv_nonneg_iff)
  then show "INODE_TABLE_START_SECTOR c \<le> DATABLOCK_START_SECTOR c"
    using lt by (simp add: DATABLOCK_START_SECTOR_def)
qed

lemma File_Seek_0_rewind:
  assumes "0 \<le> of_size (open_files st 0)"
  shows "File_Seek c st 0 0 = Some (0, rewind st 0)"
proof -
  have "is_file_open st (of_inode (open_files st 0)) = 1"
    unfolding is_file_open_def by (rule is_file_open_i_found[of 0 0]) (simp_all add: MAX_OPEN_FILES_def)
  then show ?thesis using assms by (simp add: File_Seek_def rewind_def MAX_OPEN_FILES_def)
qed

lemma File_Write_then_File_Read_all:
  assumes ss: "0 < SECTOR_SIZE c"
    and rng: "MAX_SECTORS_PER_FILE c * SECTOR_SIZE c \<le> INT_MAX" "N \<le> INT_MAX"
    and fd: "0 \<le> fd" "fd < MAX_OPEN_FILES"
    and sess: "open_files st fd = \<lparr>of_inode = ino, of_size = 0, of_pos = 0\<rparr>"
    and ino: "0 < ino" "ino < MAX_FILES c"
    and inode: "inode_of c (disk st) ino = Some inode" "i_size inode = 0" "i_type inode = 0"
    and meta: "\<forall>s. 0 \<le> s \<and> s < DATABLOCK_START_SECTOR c \<longrightarrow>
                 bitmap_bit c (disk st) (SECTOR_BITMAP_START_SECTOR c) s"
    and n: "0 \<le> N"
    and w: "File_Write c st fd (Some buffer) N = Some (N, st1)"
  shows "(\<exists>st2. File_Read_all (nat N) c (rewind st1 fd) fd N = Some (map buffer [0 ..< nat N], st2)) \<and>
         (fd = 0 \<longrightarrow> File_Seek c st1 fd 0 = Some (0, rewind st1 fd))"
proof (cases "N = 0")
  case True
  then have "st1 = st" using w fd sess ino(1) by (simp add: File_Write_def MAX_OPEN_FILES_def)
  then have "fd = 0 \<longrightarrow> File_Seek c st1 fd 0 = Some (0, rewind st1 fd)"
    using sess by (auto intro!: File_Seek_0_rewind)
  then show ?thesis using True by simp
next
  case False
  then have N: "0 < N" using n by simp
  let ?SS = "SECTOR_SIZE c"
  obtain isec ib io where li: "load_inode c (disk st) ino = Some (Some (isec, ib, io))"
    and ibio: "ib io = inode"
    using inode(1) by (auto simp: inode_of_def split: option.splits)
  note l = load_inode_SomeD[OF li]
  have isec_lt: "isec < DATABLOCK_START_SECTOR c"
    and lay0: "INODE_TABLE_START_SECTOR c \<le> DATABLOCK_START_SECTOR c"
    using inode_sector_below_data[OF l(5) _ ino(2)] ino(1) l(1) by simp_all
  have lay: "SECTOR_BITMAP_START_SECTOR c + SECTOR_BITMAP_SECTORS c \<le> DATABLOCK_START_SECTOR c"
    using lay0 by (simp add: INODE_TABLE_START_SECTOR_def)
  have w': "(case File_Write_loop c st fd buffer ib io 0 N N of
               None \<Rightarrow> None
             | Some (Inl st1) \<Rightarrow> Some (-1, st1)
             | Some (Inr (st1, inode_buffer1, bidx)) \<Rightarrow>
                 (let f = open_files st1 fd
                  in if of_pos f > of_size f then
                       (let st2 = st1\<lparr>open_files := (open_files st1)(fd := f\<lparr>of_size := of_pos f\<rparr>)\<rparr>;
                            inode = inode_buffer1 io
                        in case Disk_Write c (disk st2) isec
                                  (Inodes (inode_buffer1(io := inode\<lparr>i_size := of_pos f\<rparr>))) of
                             None \<Rightarrow> Some (-1, st2\<lparr>osErrno := Some E_GENERAL\<rparr>)
                           | Some d1 \<Rightarrow> Some (bidx, st2\<lparr>disk := d1\<rparr>))
                     else Some (bidx, st1))) = Some (N, st1)"
    using w fd sess ino(1) N li ibio inode(2,3)
    by (simp add: File_Write_def MAX_OPEN_FILES_def)
  then obtain stL ibL bidxL where
    lp: "File_Write_loop c st fd buffer ib io 0 N N = Some (Inr (stL, ibL, bidxL))"
    using N by (auto split: option.splits sum.splits)
  have "\<not> g * ?SS < 0" if "0 \<le> g" for g using that ss by (simp add: mult_less_0_iff)
  then have inv0: "File_Write_inv c fd buffer io st ib 0"
    using sess meta by (auto simp: File_Write_inv_def)
  from File_Write_loop_inv[OF lp, rule_format, OF refl ss lay refl n _ inv0]
  have post: "File_Write_inv c fd buffer io stL ibL N" "bidxL = N"
    "i_size (ibL io) = i_size (ib io)" "i_type (ibL io) = i_type (ib io)"
    by simp_all
  have adv: "session_advanced st fd stL" using File_Write_loop_sessions[OF lp] by simp
  have posL: "of_pos (open_files stL fd) = N" "of_size (open_files stL fd) = 0"
    and blocksL: "\<And>g. 0 \<le> g \<Longrightarrow> g * ?SS < N \<Longrightarrow>
                    block_written c buffer (disk stL) (i_data (ibL io) (nat g)) g N"
    using post(1) by (auto simp: File_Write_inv_def)
  have inoL: "of_inode (open_files stL fd) = ino"
    using adv sess by (simp add: session_advanced_def)
  define ibF where "ibF = ibL(io := (ibL io)\<lparr>i_size := N\<rparr>)"
  have st1: "st1 = stL\<lparr>open_files := (open_files stL)(fd := (open_files stL fd)\<lparr>of_size := N\<rparr>),
                       disk := (disk stL)(isec := Inodes ibF)\<rparr>"
    using w' lp posL N l(2,3)
    by (auto simp: Let_def Disk_Write_def ibF_def split: if_splits)
  let ?stR = "rewind st1 fd"
  have sR: "of_inode (open_files ?stR fd) = ino" "of_size (open_files ?stR fd) = N"
    "of_pos (open_files ?stR fd) = 0" "disk ?stR = (disk stL)(isec := Inodes ibF)"
    using inoL by (simp_all add: rewind_def st1)
  have liR: "load_inode c (disk ?stR) (of_inode (open_files ?stR fd)) = Some (Some (isec, ibF, io))"
    unfolding sR by (rule l(6)) simp
  have inodeF: "i_size (ibF io) = N" "i_type (ibF io) = 0"
    using post(4) ibio inode(3) by (simp_all add: ibF_def)
  have blocksR: "\<forall>g. 0 \<le> g \<and> g * ?SS < N \<longrightarrow>
                   g < MAX_SECTORS_PER_FILE c \<and>
                   (\<exists>blk. Disk_Read c (disk ?stR) (i_data (ibF io) (nat g)) = Some (Raw blk) \<and>
                      (\<forall>k. 0 \<le> k \<and> k < ?SS \<and> g * ?SS + k < N \<longrightarrow>
                         blk (nat k) = buffer (nat (g * ?SS + k))))"
  proof (intro allI impI)
    fix g assume g: "0 \<le> g \<and> g * ?SS < N"
    let ?s = "i_data (ibL io) (nat g)"
    from blocksL[of g] g obtain blk where
      b: "0 \<le> ?s" "DATABLOCK_START_SECTOR c \<le> ?s" "?s < TOTAL_SECTORS c"
         "g < MAX_SECTORS_PER_FILE c" "disk stL ?s = Raw blk"
         "\<forall>k. 0 \<le> k \<and> k < ?SS \<and> g * ?SS + k < N \<longrightarrow> blk (nat k) = buffer (nat (g * ?SS + k))"
      by (auto simp: block_written_def)
    have "?s \<noteq> isec" using b(2) isec_lt by simp
    then have "Disk_Read c (disk ?stR) (i_data (ibF io) (nat g)) = Some (Raw blk)"
      using b(1,3,5) by (simp add: sR Disk_Read_def ibF_def)
    then show "g < MAX_SECTORS_PER_FILE c \<and>
               (\<exists>blk. Disk_Read c (disk ?stR) (i_data (ibF io) (nat g)) = Some (Raw blk) \<and>
                  (\<forall>k. 0 \<le> k \<and> k < ?SS \<and> g * ?SS + k < N \<longrightarrow>
                     blk (nat k) = buffer (nat (g * ?SS + k))))"
      using b(4,6) by blast
  qed
  have "\<exists>st'. File_Read_all (nat N) c ?stR fd (N - 0) = Some (map buffer [nat 0 ..< nat N], st')"
    by (rule File_Read_all_holds[OF ss rng fd _ sR(2) sR(3) _ _ liR inodeF blocksR])
       (use sR(1) ino(1) n in simp_all)
  moreover have "fd = 0 \<longrightarrow> File_Seek c st1 fd 0 = Some (0, rewind st1 fd)"
    using n by (auto intro!: File_Seek_0_rewind simp: st1)
  ultimately show ?thesis by simp
qed

section \<open>Formatting\<close>

lemma bitmap_init_j_eq:
  "0 \<le> j \<Longrightarrow>
   bitmap_init_j c buf nbits j =
     ((\<lambda>k. if nat j \<le> k \<and> int k < SECTOR_SIZE c then bitmap_init_byte (nbits - 8 * (int k - j))
            else buf k),
      if j < SECTOR_SIZE c then max 0 (nbits - 8 * (SECTOR_SIZE c - j)) else nbits)"
proof (induction c buf nbits j rule: bitmap_init_j.induct)
  case (1 c buf nbits j)
  let ?SS = "SECTOR_SIZE c"
  show ?case
  proof (cases "j < ?SS")
    case False
    then have "bitmap_init_j c buf nbits j = (buf, nbits)"
      by (subst bitmap_init_j.simps) simp
    moreover have "(\<lambda>k. if nat j \<le> k \<and> int k < ?SS then bitmap_init_byte (nbits - 8 * (int k - j)) else buf k) = buf"
      using False "1.prems" by (auto simp: fun_eq_iff)
    ultimately show ?thesis using False by simp
  next
    case lt: True
    have j1: "0 \<le> j + 1" using "1.prems" by simp
    show ?thesis
    proof (cases "nbits > 8")
      case True
      have "bitmap_init_j c buf nbits j = bitmap_init_j c (buf(nat j := 0xff)) (nbits - 8) (j + 1)"
        using lt True by (subst bitmap_init_j.simps) simp
      also have "\<dots> = ((\<lambda>k. if nat (j + 1) \<le> k \<and> int k < ?SS
                               then bitmap_init_byte (nbits - 8 - 8 * (int k - (j + 1)))
                               else (buf(nat j := 0xff)) k),
                        if j + 1 < ?SS then max 0 (nbits - 8 - 8 * (?SS - (j + 1))) else nbits - 8)"
        using "1.IH"(1)[OF lt True j1] .
      also have "\<dots> = ((\<lambda>k. if nat j \<le> k \<and> int k < ?SS then bitmap_init_byte (nbits - 8 * (int k - j))
                               else buf k),
                        if j < ?SS then max 0 (nbits - 8 * (?SS - j)) else nbits)"
      proof -
        have f: "(if nat (j + 1) \<le> k \<and> int k < ?SS
                  then bitmap_init_byte (nbits - 8 - 8 * (int k - (j + 1)))
                  else (buf(nat j := 0xff)) k)
               = (if nat j \<le> k \<and> int k < ?SS then bitmap_init_byte (nbits - 8 * (int k - j))
                  else buf k)" for k
        proof (cases "k = nat j")
          case True
          have "\<not> nat (j + 1) \<le> nat j" using "1.prems" by simp
          then show ?thesis using True lt \<open>nbits > 8\<close> "1.prems" by (simp add: bitmap_init_byte_def)
        next
          case False
          have e: "nbits - 8 - 8 * (int k - (j + 1)) = nbits - 8 * (int k - j)" by simp
          have v: "(nat (j + 1) \<le> k) = (nat j \<le> k)" using False "1.prems" by auto
          have u: "(buf(nat j := 0xff)) k = buf k" using False by simp
          show ?thesis by (simp only: e v u)
        qed
        have s: "(if j + 1 < ?SS then max 0 (nbits - 8 - 8 * (?SS - (j + 1))) else nbits - 8)
                 = (if j < ?SS then max 0 (nbits - 8 * (?SS - j)) else nbits)"
          using lt True by auto
        show ?thesis unfolding s using f by simp
      qed
      finally show ?thesis .
    next
      case False
      have "bitmap_init_j c buf nbits j = bitmap_init_j c (buf(nat j := BYTE10 ! nat nbits)) 0 (j + 1)"
        using lt False by (subst bitmap_init_j.simps) simp
      also have "\<dots> = ((\<lambda>k. if nat (j + 1) \<le> k \<and> int k < ?SS
                               then bitmap_init_byte (0 - 8 * (int k - (j + 1)))
                               else (buf(nat j := BYTE10 ! nat nbits)) k),
                        if j + 1 < ?SS then max 0 (0 - 8 * (?SS - (j + 1))) else 0)"
        using "1.IH"(2)[OF lt False j1] .
      also have "\<dots> = ((\<lambda>k. if nat j \<le> k \<and> int k < ?SS then bitmap_init_byte (nbits - 8 * (int k - j))
                               else buf k),
                        if j < ?SS then max 0 (nbits - 8 * (?SS - j)) else nbits)"
      proof -
        have z: "bitmap_init_byte m = 0" if "m \<le> 0" for m
          using that by (simp add: bitmap_init_byte_def BYTE10_def)
        have f: "(if nat (j + 1) \<le> k \<and> int k < ?SS
                  then bitmap_init_byte (0 - 8 * (int k - (j + 1)))
                  else (buf(nat j := BYTE10 ! nat nbits)) k)
               = (if nat j \<le> k \<and> int k < ?SS then bitmap_init_byte (nbits - 8 * (int k - j))
                  else buf k)" for k
        proof (cases "k = nat j")
          case True
          have "\<not> nat (j + 1) \<le> nat j" using "1.prems" by simp
          then show ?thesis using True lt False "1.prems" by (simp add: bitmap_init_byte_def)
        next
          case ne: False
          show ?thesis
          proof (cases "nat j \<le> k \<and> int k < ?SS")
            case True
            then have "j + 1 \<le> int k" using ne "1.prems" by auto
            then have "bitmap_init_byte (0 - 8 * (int k - (j + 1))) = 0"
              "bitmap_init_byte (nbits - 8 * (int k - j)) = 0"
              using False by (auto intro!: z)
            moreover have "nat (j + 1) \<le> k" using \<open>j + 1 \<le> int k\<close> by simp
            ultimately show ?thesis using True by simp
          next
            case False
            moreover have "(nat (j + 1) \<le> k) = (nat j \<le> k)" using ne "1.prems" by auto
            ultimately show ?thesis using ne by auto
          qed
        qed
        have s: "(if j + 1 < ?SS then max 0 (0 - 8 * (?SS - (j + 1))) else 0)
                 = (if j < ?SS then max 0 (nbits - 8 * (?SS - j)) else nbits)"
          using lt False by auto
        show ?thesis unfolding s using f by simp
      qed
      finally show ?thesis .
    qed
  qed
qed

lemma format_inode_table_eq:
  "0 \<le> i \<Longrightarrow> 0 \<le> INODE_TABLE_START_SECTOR c \<Longrightarrow>
   INODE_TABLE_START_SECTOR c + INODE_TABLE_SECTORS c \<le> TOTAL_SECTORS c \<Longrightarrow>
   format_inode_table c d i =
     (True, \<lambda>s. if INODE_TABLE_START_SECTOR c + i \<le> s \<and>
                    s < INODE_TABLE_START_SECTOR c + INODE_TABLE_SECTORS c
                 then Inodes (if s = INODE_TABLE_START_SECTOR c
                              then (\<lambda>_. zero_inode)(0 := zero_inode\<lparr>i_size := 0, i_type := 1\<rparr>)
                              else (\<lambda>_. zero_inode))
                 else d s)"
proof (induction c d i rule: format_inode_table.induct)
  case (1 c d i)
  let ?ITS = "INODE_TABLE_START_SECTOR c" and ?n = "INODE_TABLE_SECTORS c"
  show ?case
  proof (cases "i < ?n")
    case False
    then have "format_inode_table c d i = (True, d)" by (subst format_inode_table.simps) simp
    moreover have "(\<lambda>s. if ?ITS + i \<le> s \<and> s < ?ITS + ?n then
                          Inodes (if s = ?ITS then (\<lambda>_. zero_inode)(0 := zero_inode\<lparr>i_size := 0, i_type := 1\<rparr>)
                                  else (\<lambda>_. zero_inode))
                        else d s) = d"
      using False by (auto simp: fun_eq_iff)
    ultimately show ?thesis by simp
  next
    case True
    define buf where "buf = (if i = 0 then (\<lambda>_. zero_inode)(0 := zero_inode\<lparr>i_size := 0, i_type := 1\<rparr>)
                             else (\<lambda>_::nat. zero_inode))"
    have w: "Disk_Write c d (?ITS + i) (Inodes buf) = Some (d(?ITS + i := Inodes buf))"
      using True "1.prems" by (simp add: Disk_Write_def)
    have "format_inode_table c d i = format_inode_table c (d(?ITS + i := Inodes buf)) (i + 1)"
      using True w by (subst format_inode_table.simps) (simp add: buf_def Let_def)
    also have "\<dots> = (True, \<lambda>s. if ?ITS + (i + 1) \<le> s \<and> s < ?ITS + ?n
                                then Inodes (if s = ?ITS
                                             then (\<lambda>_. zero_inode)(0 := zero_inode\<lparr>i_size := 0, i_type := 1\<rparr>)
                                             else (\<lambda>_. zero_inode))
                                else (d(?ITS + i := Inodes buf)) s)"
      using "1.IH"[OF True buf_def w] "1.prems" by (simp add: fun_upd_def)
    also have "\<dots> = (True, \<lambda>s. if ?ITS + i \<le> s \<and> s < ?ITS + ?n
                                then Inodes (if s = ?ITS
                                             then (\<lambda>_. zero_inode)(0 := zero_inode\<lparr>i_size := 0, i_type := 1\<rparr>)
                                             else (\<lambda>_. zero_inode))
                                else d s)"
      using True "1.prems"(1) by (auto simp: fun_eq_iff buf_def)
    finally show ?thesis .
  qed
qed

lemma format_disk_example: "format_disk example_config blank_disk = (True, example_disk)"
proof -
  let ?c = example_config
  have k: "SECTOR_SIZE ?c = 512" "TOTAL_SECTORS ?c = 10000"
    "INODE_BITMAP_SECTORS ?c = 1" "SECTOR_BITMAP_START_SECTOR ?c = 2" "SECTOR_BITMAP_SECTORS ?c = 3"
    "INODE_TABLE_START_SECTOR ?c = 5" "INODE_TABLE_SECTORS ?c = 250" "DATABLOCK_START_SECTOR ?c = 255"
    by (simp_all add: example_config_def INODE_BITMAP_SECTORS_def INODE_BITMAP_SIZE_def
          SECTOR_BITMAP_START_SECTOR_def INODE_BITMAP_START_SECTOR_def SECTOR_BITMAP_SECTORS_def
          SECTOR_BITMAP_SIZE_def INODE_TABLE_START_SECTOR_def INODE_TABLE_SECTORS_def
          INODES_PER_SECTOR_def sizeof_inode_t_def DATABLOCK_START_SECTOR_def)
  define d1 where "d1 = blank_disk(0 := Raw ((\<lambda>_. 0)(0 := 0xef, 1 := 0xbe, 2 := 0xad, 3 := 0xde)))"
  define b1 where "b1 = (\<lambda>k::nat. if int k < 512 then bitmap_init_byte (1 - 8 * int k) else 0)"
  define b2 where "b2 = (\<lambda>k::nat. if int k < 512 then bitmap_init_byte (255 - 8 * int k) else 0)"
  have i1: "bitmap_init ?c d1 INODE_BITMAP_START_SECTOR (INODE_BITMAP_SECTORS ?c) 1 = d1(1 := Raw b1)"
    unfolding bitmap_init_def k INODE_BITMAP_START_SECTOR_def
    by (subst bitmap_init_i.simps, simp add: bitmap_init_j_eq k Disk_Write_def b1_def cong: if_cong,
        subst bitmap_init_i.simps, simp)
  have i2: "bitmap_init ?c (d1(1 := Raw b1)) (SECTOR_BITMAP_START_SECTOR ?c) (SECTOR_BITMAP_SECTORS ?c)
              (DATABLOCK_START_SECTOR ?c) = d1(1 := Raw b1, 2 := Raw b2, 3 := Raw (\<lambda>_. 0), 4 := Raw (\<lambda>_. 0))"
    unfolding bitmap_init_def k
    by (subst bitmap_init_i.simps, simp add: bitmap_init_j_eq k Disk_Write_def b2_def cong: if_cong,
        subst bitmap_init_i.simps, simp add: k Disk_Write_def,
        subst bitmap_init_i.simps, simp add: k Disk_Write_def,
        subst bitmap_init_i.simps, simp)
  have e1: "b1 = (\<lambda>j. if j = 0 then 0x80 else 0)"
    by (auto simp: b1_def fun_eq_iff bitmap_init_byte_def BYTE10_def)
  have e2: "b2 = (\<lambda>j. if j < 31 then 0xff else if j = 31 then 0xfe else 0)"
  proof
    fix j :: nat
    consider "j < 31" | "j = 31" | "31 < j" by linarith
    then show "b2 j = (if j < 31 then 0xff else if j = 31 then 0xfe else 0)"
    proof cases
      case 1 then show ?thesis by (simp add: b2_def bitmap_init_byte_def)
    next
      case 2 then show ?thesis by (simp add: b2_def bitmap_init_byte_def BYTE10_def)
    next
      case 3 
      then have "nat (255 - 8 * int j) = 0" by simp
      then show ?thesis using 3 by (simp add: b2_def bitmap_init_byte_def BYTE10_def)
    qed
  qed
  let ?d3 = "d1(1 := Raw b1, 2 := Raw b2, 3 := Raw (\<lambda>_. 0), 4 := Raw (\<lambda>_. 0))"
  have w0: "Disk_Write ?c blank_disk SUPERBLOCK_START_SECTOR
              (Raw ((\<lambda>_. 0)(0 := 0xef, 1 := 0xbe, 2 := 0xad, 3 := 0xde))) = Some d1"
    by (simp add: Disk_Write_def d1_def k SUPERBLOCK_START_SECTOR_def)
  have f0: "format_disk ?c blank_disk = format_inode_table ?c ?d3 0"
    unfolding format_disk_def by (simp only: w0 option.case Let_def i1 i2)
  have t: "format_inode_table ?c ?d3 0 =
          (True, \<lambda>s. if 5 \<le> s \<and> s < 255
                      then Inodes (if s = 5 then (\<lambda>_. zero_inode)(0 := zero_inode\<lparr>i_size := 0, i_type := 1\<rparr>)
                                   else (\<lambda>_. zero_inode))
                      else ?d3 s)"
    using format_inode_table_eq[of 0 ?c ?d3] by (simp add: k cong: if_cong)
  have "(\<lambda>s. if 5 \<le> s \<and> s < 255
            then Inodes (if s = 5 then (\<lambda>_. zero_inode)(0 := zero_inode\<lparr>i_size := 0, i_type := 1\<rparr>)
                         else (\<lambda>_. zero_inode))
            else (d1(1 := Raw b1, 2 := Raw b2, 3 := Raw (\<lambda>_. 0), 4 := Raw (\<lambda>_. 0))) s)
        = example_disk"
    by (auto simp: fun_eq_iff example_disk_def d1_def blank_disk_def e1 e2)
  then show ?thesis unfolding f0 t by simp
qed

lemma FS_Boot_example:
  "FS_Boot example_config
     \<lparr>Disk_Init_result = Some blank_disk, Disk_Load_result = Load_no_file, backstore_size = 0,
      Disk_Save_ok = True, stack_value = u\<rparr>
     \<lparr>disk = d, open_files = ofs, osErrno = None\<rparr> (Some fname)
   = Some (0, example_volume)"
  by (simp add: FS_Boot_def format_disk_example example_volume_def)

section \<open>Writing a new file: the write returns\<close>

lemma sector_bit_in_range:
  assumes ss: "0 < SECTOR_SIZE c" and s: "s < TOTAL_SECTORS c"
  shows "s < 8 * SECTOR_BITMAP_SIZE c"
    and "s < 8 * SECTOR_SIZE c * SECTOR_BITMAP_SECTORS c"
proof -
  let ?T = "TOTAL_SECTORS c" and ?B = "SECTOR_BITMAP_SIZE c" and ?SS = "SECTOR_SIZE c"
  have "(?T + 7) div 8 * 8 + (?T + 7) mod 8 = ?T + 7" by simp
  moreover have "(?T + 7) mod 8 < 8" by simp
  ultimately have t: "?T \<le> 8 * ?B" unfolding SECTOR_BITMAP_SIZE_def by linarith
  then show "s < 8 * ?B" using s by simp
  have "(?B + ?SS - 1) div ?SS * ?SS + (?B + ?SS - 1) mod ?SS = ?B + ?SS - 1" by simp
  moreover have "(?B + ?SS - 1) mod ?SS < ?SS" using ss by simp
  ultimately have "?B \<le> (?B + ?SS - 1) div ?SS * ?SS" by linarith
  then have "?B \<le> ?SS * SECTOR_BITMAP_SECTORS c"
    unfolding SECTOR_BITMAP_SECTORS_def by (simp only: mult.commute)
  then have "8 * ?B \<le> 8 * (?SS * SECTOR_BITMAP_SECTORS c)" by simp
  then show "s < 8 * ?SS * SECTOR_BITMAP_SECTORS c" using t s by (simp add: mult.assoc)
qed

lemma alloc_sector_succeeds:
  assumes ss: "0 < SECTOR_SIZE c"
    and wf: "\<forall>i. 0 \<le> i \<and> i < SECTOR_BITMAP_SECTORS c \<longrightarrow>
               0 \<le> SECTOR_BITMAP_START_SECTOR c + i \<and>
               SECTOR_BITMAP_START_SECTOR c + i < TOTAL_SECTORS c \<and>
               as_raw (d (SECTOR_BITMAP_START_SECTOR c + i)) \<noteq> None"
    and t8: "TOTAL_SECTORS c mod 8 = 0"
    and free: "0 \<le> s" "s < TOTAL_SECTORS c" "\<not> bitmap_bit c d (SECTOR_BITMAP_START_SECTOR c) s"
  shows "\<exists>newsec d1. bitmap_first_unused c d (SECTOR_BITMAP_START_SECTOR c)
                          (SECTOR_BITMAP_SECTORS c) (SECTOR_BITMAP_SIZE c) = Some (newsec, d1) \<and>
           0 \<le> newsec \<and> newsec < TOTAL_SECTORS c"
proof -
  from bitmap_first_unused_spec[OF ss wf, of "SECTOR_BITMAP_SIZE c"]
  obtain ret d1 where r: "bitmap_first_unused c d (SECTOR_BITMAP_START_SECTOR c)
                            (SECTOR_BITMAP_SECTORS c) (SECTOR_BITMAP_SIZE c) = Some (ret, d1)"
    and ok: "0 \<le> ret \<longrightarrow> ret < 8 * SECTOR_BITMAP_SIZE c"
    and full: "ret < 0 \<longrightarrow> (\<forall>ibit. 0 \<le> ibit \<and> ibit < 8 * SECTOR_BITMAP_SIZE c \<and>
                                  ibit < 8 * SECTOR_SIZE c * SECTOR_BITMAP_SECTORS c \<longrightarrow>
                                  bitmap_bit c d (SECTOR_BITMAP_START_SECTOR c) ibit)"
    by blast
  have nn: "0 \<le> ret"
  proof (rule ccontr)
    assume "\<not> 0 \<le> ret"
    then have "bitmap_bit c d (SECTOR_BITMAP_START_SECTOR c) s"
      using full free(1) sector_bit_in_range[OF ss free(2)] by simp
    then show False using free(3) by simp
  qed
  have "8 * SECTOR_BITMAP_SIZE c = TOTAL_SECTORS c"
  proof -
    have "(TOTAL_SECTORS c + 7) div 8 = TOTAL_SECTORS c div 8"
      using t8 by presburger
    moreover have "TOTAL_SECTORS c div 8 * 8 = TOTAL_SECTORS c"
      using t8 by presburger
    ultimately show ?thesis unfolding SECTOR_BITMAP_SIZE_def by simp
  qed
  then show ?thesis using r nn ok by auto
qed


lemma alloc_write_bits:
  assumes ss: "0 < SECTOR_SIZE c"
    and lay: "SECTOR_BITMAP_START_SECTOR c + SECTOR_BITMAP_SECTORS c \<le> DATABLOCK_START_SECTOR c"
    and meta: "\<forall>s. 0 \<le> s \<and> s < DATABLOCK_START_SECTOR c \<longrightarrow>
                 bitmap_bit c d (SECTOR_BITMAP_START_SECTOR c) s"
    and alloc: "bitmap_first_unused c d (SECTOR_BITMAP_START_SECTOR c)
                  (SECTOR_BITMAP_SECTORS c) (SECTOR_BITMAP_SIZE c) = Some (newsec, d1)" "0 \<le> newsec"
    and x: "0 \<le> x" "x < TOTAL_SECTORS c"
  shows "bitmap_bit c (d1(newsec := sec)) (SECTOR_BITMAP_START_SECTOR c) x
         = (x = newsec \<or> bitmap_bit c d (SECTOR_BITMAP_START_SECTOR c) x)"
proof -
  let ?SBS = "SECTOR_BITMAP_START_SECTOR c" and ?DBS = "DATABLOCK_START_SECTOR c"
  from alloc_sector[OF ss alloc]
  obtain q buf where q: "0 \<le> q" "q < SECTOR_BITMAP_SECTORS c"
      and d1: "d1 = d(?SBS + q := Raw buf)"
      and free: "\<not> bitmap_bit c d ?SBS newsec"
      and after: "\<And>x. bitmap_bit c d1 ?SBS x = (x = newsec \<or> bitmap_bit c d ?SBS x)"
    by blast
  have dbs: "?DBS \<le> newsec" using meta free alloc(2) by (cases "newsec < ?DBS") auto
  have "?SBS + (x div 8) div SECTOR_SIZE c < ?DBS"
    using bit_sector_in_bitmap[OF ss x] lay by simp
  then have "newsec \<noteq> ?SBS + (x div 8) div SECTOR_SIZE c" using dbs by simp
  then have "bitmap_bit c (d1(newsec := sec)) ?SBS x = bitmap_bit c d1 ?SBS x"
    by (rule bitmap_bit_other_sector)
  then show "bitmap_bit c (d1(newsec := sec)) ?SBS x = (x = newsec \<or> bitmap_bit c d ?SBS x)"
    using after by simp
qed

lemma alloc_write_raw:
  assumes ss: "0 < SECTOR_SIZE c"
    and alloc: "bitmap_first_unused c d start num nbits = Some (newsec, d1)" "0 \<le> newsec"
    and raw: "as_raw (d s) \<noteq> None"
  shows "as_raw ((d1(newsec := Raw data1)) s) \<noteq> None"
proof -
  from alloc_sector[OF ss alloc]
  obtain q buf where "d1 = d(start + q := Raw buf)" by blast
  then show ?thesis using raw by simp
qed

lemma File_Write_loop_succeeds:
  assumes ss: "0 < SECTOR_SIZE c"
    and imax: "MAX_SECTORS_PER_FILE c * SECTOR_SIZE c \<le> INT_MAX"
    and lay: "SECTOR_BITMAP_START_SECTOR c + SECTOR_BITMAP_SECTORS c \<le> DATABLOCK_START_SECTOR c"
    and t8: "TOTAL_SECTORS c mod 8 = 0"
  shows "File_Write_inv c fd buffer io st ib bidx \<Longrightarrow>
     0 \<le> remain \<Longrightarrow> (0 < remain \<longrightarrow> bidx mod SECTOR_SIZE c = 0) \<Longrightarrow>
     bidx + remain \<le> MAX_SECTORS_PER_FILE c * SECTOR_SIZE c \<Longrightarrow>
     (\<forall>i. 0 \<le> i \<and> i < SECTOR_BITMAP_SECTORS c \<longrightarrow>
        0 \<le> SECTOR_BITMAP_START_SECTOR c + i \<and>
        SECTOR_BITMAP_START_SECTOR c + i < TOTAL_SECTORS c \<and>
        as_raw (disk st (SECTOR_BITMAP_START_SECTOR c + i)) \<noteq> None) \<Longrightarrow>
     distinct frees \<Longrightarrow>
     (\<forall>s\<in>set frees. 0 \<le> s \<and> s < TOTAL_SECTORS c \<and>
        \<not> bitmap_bit c (disk st) (SECTOR_BITMAP_START_SECTOR c) s) \<Longrightarrow>
     remain \<le> int (length frees) * SECTOR_SIZE c \<Longrightarrow>
     \<exists>stL ibL. File_Write_loop c st fd buffer ib io bidx remain remain = Some (Inr (stL, ibL, bidx + remain))"
proof (induction "nat remain" arbitrary: st ib bidx remain frees rule: less_induct)
  case less
  let ?SS = "SECTOR_SIZE c" and ?SBS = "SECTOR_BITMAP_START_SECTOR c"
  note inv = less.prems(1) and r0 = less.prems(2) and al = less.prems(3) and cap = less.prems(4)
    and wf = less.prems(5) and dist = less.prems(6) and free = less.prems(7) and room = less.prems(8)
  show ?case
  proof (cases "0 < remain")
    case False
    then have "remain = 0" using r0 by simp
    then show ?thesis by (subst File_Write_loop.simps) simp
  next
    case True
    have pos: "of_pos (open_files st fd) = bidx" and b0: "0 \<le> bidx"
      and size: "of_size (open_files st fd) = 0"
      and meta: "\<forall>s. 0 \<le> s \<and> s < DATABLOCK_START_SECTOR c \<longrightarrow> bitmap_bit c (disk st) ?SBS s"
      using inv by (auto simp: File_Write_inv_def)
    define gidx where "gidx = bidx div ?SS"
    have bg: "bidx = gidx * ?SS" unfolding gidx_def using al True by (simp add: mod_0_imp_dvd)
    have g0: "0 \<le> gidx" unfolding gidx_def using b0 ss by (simp add: pos_imp_zdiv_nonneg_iff)
    have "gidx * ?SS < MAX_SECTORS_PER_FILE c * ?SS" using cap True bg by simp
    then have gmax: "gidx < MAX_SECTORS_PER_FILE c" using ss by (simp add: mult_less_cancel_right)
    define size1 where "size1 = (if ?SS < remain then ?SS else remain)"
    have s1: "0 < size1" "size1 \<le> ?SS" "size1 \<le> remain" unfolding size1_def using True ss by auto
    have sz1: "(if gidx * ?SS + ?SS < bidx + remain then gidx * ?SS + ?SS - bidx else remain) = size1"
      unfolding size1_def bg by simp
    have off: "bidx - gidx * ?SS = 0" using bg by simp
    have "frees \<noteq> []" using room True by auto
    then obtain s0 where s0: "s0 \<in> set frees" by (cases frees) auto
    from alloc_sector_succeeds[OF ss wf t8, of s0] free s0
    obtain newsec d1 where
      alloc: "bitmap_first_unused c (disk st) ?SBS (SECTOR_BITMAP_SECTORS c) (SECTOR_BITMAP_SIZE c)
                = Some (newsec, d1)" "0 \<le> newsec"
      and rng: "newsec < TOTAL_SECTORS c"
      by blast
    define ib1 where "ib1 = ib(io := (ib io)\<lparr>i_data := (i_data (ib io))(nat gidx := newsec)\<rparr>)"
    define data1 where "data1 = (\<lambda>k. if k < nat size1 then buffer (nat bidx + k) else (0::byte))"
    define st2 where "st2 = st\<lparr>disk := d1, open_files := (open_files st)(fd := (open_files st fd)\<lparr>of_pos := bidx + size1\<rparr>)\<rparr>"
    define d2 where "d2 = d1(newsec := Raw data1)"
    have blk: "File_Write_block c st fd ib io gidx (gidx * ?SS) = Some (Inr (st\<lparr>disk := d1\<rparr>, ib1, \<lambda>_. 0))"
      using alloc size b0 bg by (simp add: File_Write_block_def ib1_def Let_def)
    have wr: "Disk_Write c d1 newsec (Raw data1) = Some d2"
      using alloc(2) rng by (simp add: Disk_Write_def d2_def)
    have nd: "i_data (ib1 io) (nat gidx) = newsec" by (simp add: ib1_def)
    have "(gidx + 1) * ?SS \<le> MAX_SECTORS_PER_FILE c * ?SS"
      using gmax ss by (intro mult_right_mono) simp_all
    moreover have "0 \<le> gidx * ?SS" using g0 ss by simp
    ultimately have r1: "int_range (gidx * ?SS + ?SS)"
      using imax ss by (simp add: int_range_def INT_MIN_def algebra_simps)
    have r2: "int_range (bidx + remain)"
      using imax cap b0 True by (simp add: int_range_def INT_MIN_def)
    have unf: "File_Write_loop c st fd buffer ib io bidx remain remain
               = File_Write_loop c (st2\<lparr>disk := d2\<rparr>) fd buffer ib1 io (bidx + size1) (remain - size1) (remain - size1)"
      apply (subst File_Write_loop.simps)
      using True gmax g0 s1(1)
      apply (simp add: pos Let_def gidx_def[symmetric] sz1 off blk nd wr r1 r2
                       data1_def[symmetric] st2_def cong: if_cong)
      done
    have inv': "File_Write_inv c fd buffer io (st2\<lparr>disk := d2\<rparr>) ib1 (bidx + size1)"
    proof (rule File_Write_inv_step[OF ss lay inv _ _ alloc wr s1(1,2)])
      show "bidx mod ?SS = 0" using al True by simp
      show "bidx div ?SS < MAX_SECTORS_PER_FILE c" using gmax by (simp add: gidx_def)
      show "\<forall>k<nat size1. data1 k = buffer (nat bidx + k)" by (simp add: data1_def)
      show "i_data (ib1 io) = (i_data (ib io))(nat (bidx div ?SS) := newsec)"
        by (simp add: ib1_def gidx_def)
    qed (simp_all add: st2_def size)
    have al': "0 < remain - size1 \<longrightarrow> (bidx + size1) mod ?SS = 0"
    proof
      assume "0 < remain - size1"
      then have "size1 = ?SS" unfolding size1_def by (auto split: if_splits)
      then show "(bidx + size1) mod ?SS = 0" using bg by simp
    qed
    have r0': "0 \<le> remain - size1" using s1(3) by simp
    have cap': "bidx + size1 + (remain - size1) \<le> MAX_SECTORS_PER_FILE c * ?SS" using cap by simp
    have wf': "\<forall>i. 0 \<le> i \<and> i < SECTOR_BITMAP_SECTORS c \<longrightarrow>
                 0 \<le> ?SBS + i \<and> ?SBS + i < TOTAL_SECTORS c \<and>
                 as_raw (disk (st2\<lparr>disk := d2\<rparr>) (?SBS + i)) \<noteq> None"
    proof (intro allI impI)
      fix i assume i: "0 \<le> i \<and> i < SECTOR_BITMAP_SECTORS c"
      then have w: "0 \<le> ?SBS + i" "?SBS + i < TOTAL_SECTORS c" "as_raw (disk st (?SBS + i)) \<noteq> None"
        using wf by simp_all
      have "as_raw (d2 (?SBS + i)) \<noteq> None"
        unfolding d2_def by (rule alloc_write_raw[OF ss alloc w(3)])
      then show "0 \<le> ?SBS + i \<and> ?SBS + i < TOTAL_SECTORS c \<and>
                 as_raw (disk (st2\<lparr>disk := d2\<rparr>) (?SBS + i)) \<noteq> None"
        using w(1,2) by simp
    qed
    have dist': "distinct (remove1 newsec frees)" using dist by simp
    have free': "\<forall>s\<in>set (remove1 newsec frees). 0 \<le> s \<and> s < TOTAL_SECTORS c \<and>
                   \<not> bitmap_bit c (disk (st2\<lparr>disk := d2\<rparr>)) ?SBS s"
    proof
      fix s assume "s \<in> set (remove1 newsec frees)"
      then have m: "s \<in> set frees" "s \<noteq> newsec" using dist by auto
      then have f: "0 \<le> s" "s < TOTAL_SECTORS c" "\<not> bitmap_bit c (disk st) ?SBS s"
        using free by auto
      show "0 \<le> s \<and> s < TOTAL_SECTORS c \<and> \<not> bitmap_bit c (disk (st2\<lparr>disk := d2\<rparr>)) ?SBS s"
        using alloc_write_bits[OF ss lay meta alloc f(1,2), of "Raw data1"] f m(2)
        by (simp add: d2_def)
    qed
    have "int (length frees) - 1 \<le> int (length (remove1 newsec frees))"
      by (simp add: length_remove1) linarith
    then have len: "(int (length frees) - 1) * ?SS \<le> int (length (remove1 newsec frees)) * ?SS"
      using ss by (simp add: mult_right_mono)
    have room': "remain - size1 \<le> int (length (remove1 newsec frees)) * ?SS"
    proof (cases "?SS < remain")
      case True
      then have "remain - size1 = remain - ?SS" by (simp add: size1_def)
      also have "\<dots> \<le> (int (length frees) - 1) * ?SS" using room by (simp add: algebra_simps)
      finally show ?thesis using len by simp
    next
      case False
      then have "remain - size1 = 0" by (simp add: size1_def)
      then show ?thesis using ss by simp
    qed
    have "nat (remain - size1) < nat remain" using s1(1) True by simp
    from less.hyps[OF this inv' r0' al' cap' wf' dist' free' room']
    show ?thesis unfolding unf by simp
  qed
qed

lemma File_Write_succeeds:
  assumes ss: "0 < SECTOR_SIZE c"
    and imax: "MAX_SECTORS_PER_FILE c * SECTOR_SIZE c \<le> INT_MAX"
    and fd: "0 \<le> fd" "fd < MAX_OPEN_FILES"
    and sess: "open_files st fd = \<lparr>of_inode = ino, of_size = 0, of_pos = 0\<rparr>"
    and ino: "0 < ino" "ino < MAX_FILES c"
    and inode: "inode_of c (disk st) ino = Some inode" "i_size inode = 0" "i_type inode = 0"
    and meta: "\<forall>s. 0 \<le> s \<and> s < DATABLOCK_START_SECTOR c \<longrightarrow>
                 bitmap_bit c (disk st) (SECTOR_BITMAP_START_SECTOR c) s"
    and n: "0 \<le> N" "N \<le> MAX_SECTORS_PER_FILE c * SECTOR_SIZE c"
    and t8: "TOTAL_SECTORS c mod 8 = 0"
    and wf: "\<forall>i. 0 \<le> i \<and> i < SECTOR_BITMAP_SECTORS c \<longrightarrow>
               0 \<le> SECTOR_BITMAP_START_SECTOR c + i \<and>
               SECTOR_BITMAP_START_SECTOR c + i < TOTAL_SECTORS c \<and>
               as_raw (disk st (SECTOR_BITMAP_START_SECTOR c + i)) \<noteq> None"
    and frees: "distinct frees"
      "\<forall>s\<in>set frees. 0 \<le> s \<and> s < TOTAL_SECTORS c \<and>
         \<not> bitmap_bit c (disk st) (SECTOR_BITMAP_START_SECTOR c) s"
      "N \<le> int (length frees) * SECTOR_SIZE c"
  shows "\<exists>st1. File_Write c st fd (Some buffer) N = Some (N, st1)"
proof (cases "N = 0")
  case True
  then show ?thesis using fd sess ino(1) by (simp add: File_Write_def MAX_OPEN_FILES_def)
next
  case False
  then have N: "0 < N" using n by simp
  let ?SS = "SECTOR_SIZE c"
  obtain isec ib io where li: "load_inode c (disk st) ino = Some (Some (isec, ib, io))"
    and ibio: "ib io = inode"
    using inode(1) by (auto simp: inode_of_def split: option.splits)
  note l = load_inode_SomeD[OF li]
  have lay0: "INODE_TABLE_START_SECTOR c \<le> DATABLOCK_START_SECTOR c"
    using inode_sector_below_data[OF l(5) _ ino(2)] ino(1) by simp
  have lay: "SECTOR_BITMAP_START_SECTOR c + SECTOR_BITMAP_SECTORS c \<le> DATABLOCK_START_SECTOR c"
    using lay0 by (simp add: INODE_TABLE_START_SECTOR_def)
  have "\<not> g * ?SS < 0" if "0 \<le> g" for g using that ss by (simp add: mult_less_0_iff)
  then have inv0: "File_Write_inv c fd buffer io st ib 0"
    using sess meta by (auto simp: File_Write_inv_def)
  from File_Write_loop_succeeds[OF ss imax lay t8 inv0 n(1) _ _ wf frees] n(2)
  obtain stL ibL where
    lp: "File_Write_loop c st fd buffer ib io 0 N N = Some (Inr (stL, ibL, N))"
    by auto
  from File_Write_loop_inv[OF lp, rule_format, OF refl ss lay refl n(1) _ inv0]
  have post: "File_Write_inv c fd buffer io stL ibL N" by simp
  have posL: "of_pos (open_files stL fd) = N" "of_size (open_files stL fd) = 0"
    using post by (auto simp: File_Write_inv_def)
  show ?thesis
    using fd sess ino(1) N li ibio inode(2,3) lp posL l(2,3)
    by (simp add: File_Write_def MAX_OPEN_FILES_def Let_def Disk_Write_def)
qed

section \<open>Evaluations on the example volume\<close>

text \<open>
  Claim C1 (directory no-holes invariant with lookup confinement): after any sequence of
  successful creates and removes under a directory, the entries \<open>0 .. size - 1\<close> are
  valid and distinct in name, the size field counts them, and a name lookup never matches
  an entry stored at an index \<open>\<ge> size\<close>.

  The lookup does not keep to the entries below \<open>size\<close>: the inner loop of
  \<open>find_child_inode\<close> leaves with \<open>if (i > nentries) break\<close>, so in the last sector of
  a directory it also compares the entry at index \<open>nentries\<close>. On the example volume,
  after \<open>File_Create("/a")\<close>, \<open>File_Create("/b")\<close> and \<open>File_Unlink("/b")\<close> (all
  three return 0) the root directory has size 1, and the entry of \<open>b\<close> is still stored at
  index 1. The lookup of \<open>b\<close> matches index 1 and \<open>follow_path("/b")\<close> returns the freed
  inode 2; a second \<open>File_Create("/b")\<close> fails with \<open>E_CREATE\<close>.
\<close>

theorem lookup_matches_removed_entry:
  "do {
     (r1, st1) \<leftarrow> File_Create example_config example_volume (Some ''/a'');
     (r2, st2) \<leftarrow> File_Create example_config st1 (Some ''/b'');
     (r3, st3) \<leftarrow> File_Unlink example_config st2 (Some ''/b'');
     root \<leftarrow> inode_of example_config (disk st3) 0;
     entries \<leftarrow> as_dirents (disk st3 (i_data root 0));
     (r4, st4) \<leftarrow> File_Create example_config st3 (Some ''/b'');
     Some (r1, r2, r3, i_size root, i_type root,
           find_child_i example_config entries ''b'' (i_size root) 0,
           follow_path example_config (disk st3) (Some ''/b''),
           r4, osErrno st4)
   } = Some (0, 0, 0, 1, 1, Some 1, Some (0, Some 2, Some ''b''), -1, Some E_CREATE)"
  by code_simp

text \<open>
  Claim C3 (filename legality): a path segment with a character outside \<open>A-Z\<close>,
  \<open>a-z\<close>, \<open>0-9\<close>, \<open>.\<close>, \<open>-\<close>, \<open>_\<close> fails the legality check, so that path
  resolution and every path-based operation reject the path.

  The condition of \<open>illegal_filename\<close> joins its range tests with \<open>&&\<close>
  (\<open>ch < 65 && ch > 90\<close> and so on) and holds for no character. The name \<open>a b*\<close>, with a
  space and an asterisk, passes the check: \<open>follow_path("/a b*")\<close> resolves it (parent 0,
  child not found) and \<open>File_Create("/a b*")\<close> returns 0.
\<close>

theorem illegal_character_accepted:
  "(illegal_filename ''a b*'',
    follow_path example_config (disk example_volume) (Some ''/a b*''),
    map_option fst (File_Create example_config example_volume (Some ''/a b*'')))
   = (0, Some (0, Some (-1), Some ''a b*''), Some 0)"
  by code_simp

text \<open>
  Claim C5 (file data-block reclamation on unlink): a successful \<open>File_Unlink\<close> of a file
  of \<open>S\<close> bytes frees each of its \<open>ceil(S / SECTOR_SIZE)\<close> data blocks before it frees
  the inode.

  The loop of \<open>remove_inode\<close> runs for \<open>g < child->size / SECTOR_SIZE\<close>, which rounds
  down. A file of 1 byte (inode 1, its data block is sector 256) is unlinked with return
  value 0; the bit of inode 1 is free afterwards, the bit of sector 256 is still set.
\<close>

theorem unlink_leaves_data_block_allocated:
  "do {
     (r1, st1) \<leftarrow> File_Create example_config example_volume (Some ''/a'');
     (fd, st2) \<leftarrow> File_Open example_config st1 (Some ''/a'') 0;
     (r2, st3) \<leftarrow> File_Write example_config st2 fd (Some (\<lambda>_. 0x41)) 1;
     (r3, st4) \<leftarrow> File_Close example_config st3 fd;
     file \<leftarrow> inode_of example_config (disk st4) 1;
     (r4, st5) \<leftarrow> File_Unlink example_config st4 (Some ''/a'');
     Some (r1, fd, r2, r3, i_size file, i_data file 0,
           bitmap_bit example_config (disk st4) (SECTOR_BITMAP_START_SECTOR example_config) 256,
           r4,
           bitmap_bit example_config (disk st5) INODE_BITMAP_START_SECTOR 1,
           bitmap_bit example_config (disk st5) (SECTOR_BITMAP_START_SECTOR example_config) 256)
   } = Some (0, 0, 1, 0, 1, 256, True, 0, False, True)"
  by code_simp

text \<open>
  Claim C6 (seek contract): for a descriptor \<open>0 \<le> fd < MAX_OPEN_FILES\<close> whose slot is
  occupied and an offset within \<open>[0, size]\<close>, \<open>File_Seek(fd, offset)\<close> sets the position
  to the offset and returns it; an offset out of range or an invalid descriptor fails.

  \<open>File_Seek\<close> rejects a descriptor with \<open>if (fd > 0 || fd > MAX_OPEN_FILES)\<close>, that is
  every descriptor but 0. With the file \<open>/a\<close> open twice (descriptors 0 and 1),
  \<open>File_Seek(1, 0)\<close> returns -1 with \<open>E_GENERAL\<close>.
\<close>

theorem seek_fails_on_open_descriptor:
  "do {
     (r1, st1) \<leftarrow> File_Create example_config example_volume (Some ''/a'');
     (fd0, st2) \<leftarrow> File_Open example_config st1 (Some ''/a'') 0;
     (fd1, st3) \<leftarrow> File_Open example_config st2 (Some ''/a'') 0;
     (r2, st4) \<leftarrow> File_Seek example_config st3 fd1 0;
     Some (r1, fd0, fd1, open_files st3 fd1, r2, osErrno st4)
   } = Some (0, 0, 1, \<lparr>of_inode = 1, of_size = 0, of_pos = 0\<rparr>, -1, Some E_GENERAL)"
  by code_simp

text \<open>
  Claim C8 (\<open>Dir_Read\<close> contract): for a directory with \<open>E\<close> entries,
  \<open>Dir_Read(path, buffer, capacity)\<close> fails with \<open>E_BUFFER_TOO_SMALL\<close> when
  \<open>capacity < E * sizeof(dirent_t)\<close>, and otherwise copies the \<open>E\<close> entries and
  returns \<open>E\<close>.

  The test \<open>child->size * sizeof(dirent_t) > size\<close> compares unsigned values, so a
  negative capacity counts as a large one. For the root directory with the one entry
  \<open>a\<close> and the capacity -1 (less than 20), \<open>Dir_Read\<close> copies the entry and returns 1.
\<close>

theorem dir_read_negative_capacity:
  "do {
     (r1, st1) \<leftarrow> File_Create example_config example_volume (Some ''/a'');
     (r2, entries, st2) \<leftarrow> Dir_Read example_config st1 (Some ''/'') (-1) 0;
     Some (r1, r2, entries, osErrno st2)
   } = Some (0, 1, [\<lparr>d_fname = ''a'', d_inode = 1\<rparr>], None)"
  by code_simp

section \<open>Errors of \<open>File_Open\<close> and \<open>File_Unlink\<close>\<close>

text \<open>
  Claim C9 (open-error precedence): \<open>File_Open\<close> looks for a free slot of the open-file
  table before it resolves the path. When every slot is occupied it fails with
  \<open>E_TOO_MANY_OPEN_FILES\<close> for every path (also for NULL and for a path that resolves to
  no file, whatever its variable \<open>child_inode\<close> holds), and changes nothing else.
\<close>

theorem File_Open_table_full:
  assumes "\<forall>fd. 0 \<le> fd \<and> fd < MAX_OPEN_FILES \<longrightarrow> of_inode (open_files st fd) > 0"
  shows "File_Open c st file child_inode0 = Some (-1, st\<lparr>osErrno := Some E_TOO_MANY_OPEN_FILES\<rparr>)"
proof -
  have "new_file_fd st = -1"
    unfolding new_file_fd_def using assms by (intro new_file_fd_i_full) simp
  then show ?thesis by (simp add: File_Open_def)
qed

theorem File_Open_table_full_witness:
  "File_Open example_config
     (example_volume\<lparr>open_files := (\<lambda>_. \<lparr>of_inode = 1, of_size = 0, of_pos = 0\<rparr>)\<rparr>)
     (Some ''/no/such/file'') 0
   = Some (-1, example_volume\<lparr>open_files := (\<lambda>_. \<lparr>of_inode = 1, of_size = 0, of_pos = 0\<rparr>),
                               osErrno := Some E_TOO_MANY_OPEN_FILES\<rparr>)"
  using File_Open_table_full
    [of "example_volume\<lparr>open_files := (\<lambda>_. \<lparr>of_inode = 1, of_size = 0, of_pos = 0\<rparr>)\<rparr>"
        example_config "Some ''/no/such/file''" 0]
  by simp

text \<open>
  Claim C7 (unlink of a file in use): when the path resolves to an inode that an entry of
  the open-file table refers to, \<open>File_Unlink\<close> returns -1 with \<open>E_FILE_IN_USE\<close>, and
  the state after the call differs from the state before it in \<open>osErrno\<close> only: the disk
  (inodes, directory entries, bitmaps) and the open-file table are unchanged.
\<close>

theorem File_Unlink_in_use:
  assumes "follow_path c (disk st) file = Some (parent_inode, Some child_inode, last_fname)"
    and "0 \<le> parent_inode" and "0 \<le> child_inode"
    and "0 \<le> fd" and "fd < MAX_OPEN_FILES"
    and "of_inode (open_files st fd) = child_inode"
  shows "File_Unlink c st file = Some (-1, st\<lparr>osErrno := Some E_FILE_IN_USE\<rparr>)"
proof -
  have "is_file_open st child_inode = 1"
    unfolding is_file_open_def using assms(4-6) by (intro is_file_open_i_found[of 0 fd]) simp_all
  then show ?thesis using assms(1-3) by (simp add: File_Unlink_def)
qed

theorem File_Unlink_in_use_witness:
  "File_Unlink example_config example_volume_a_open (Some ''/a'')
   = Some (-1, example_volume_a_open\<lparr>osErrno := Some E_FILE_IN_USE\<rparr>)"
proof -
  have h1: "follow_path example_config (disk example_volume_a_open) (Some ''/a'')
            = Some (0, Some 1, Some ''a'')"
    by code_simp
  have h2: "of_inode (open_files example_volume_a_open 0) = 1"
    by code_simp
  show ?thesis
    using File_Unlink_in_use[OF h1 _ _ _ _ h2] by (simp add: MAX_OPEN_FILES_def)
qed

section \<open>The bitmap allocator\<close>

text \<open>
  Claim C4 (bitmap allocator round trip): for every state of a bitmap (sectors
  \<open>start .. start + num - 1\<close> of the volume, holding bytes), \<open>bitmap_first_unused\<close>
  returns a result; an index it returns is below \<open>8 * nbits\<close> and its bit was not set
  before the call; the bit is set on the disk after the call; \<open>bitmap_reset\<close> on that
  index then returns 0 and gives back the disk as it was before the allocation, so the bit
  is free again; and \<open>bitmap_first_unused\<close> returns -1 (and leaves the disk as it is)
  only when every bit of the range (the first \<open>nbits\<close> bytes, within the \<open>num\<close>
  sectors) is set.
\<close>

theorem bitmap_round_trip:
  assumes ss: "0 < SECTOR_SIZE c"
    and secs: "\<forall>i. 0 \<le> i \<and> i < num \<longrightarrow>
                 0 \<le> start + i \<and> start + i < TOTAL_SECTORS c \<and> as_raw (d (start + i)) \<noteq> None"
  shows "\<exists>ret d'. bitmap_first_unused c d start num nbits = Some (ret, d') \<and>
           (0 \<le> ret \<longrightarrow>
              ret < 8 * nbits \<and> \<not> bitmap_bit c d start ret \<and> bitmap_bit c d' start ret \<and>
              bitmap_reset c d' start num ret = Some (0, d)) \<and>
           (ret < 0 \<longrightarrow>
              ret = -1 \<and> d' = d \<and>
              (\<forall>ibit. 0 \<le> ibit \<and> ibit < 8 * nbits \<and> ibit < 8 * SECTOR_SIZE c * num \<longrightarrow>
                 bitmap_bit c d start ibit))"
  using bitmap_first_unused_spec[OF assms] .

theorem bitmap_round_trip_witness:
  "\<exists>ret d'. bitmap_first_unused example_config example_disk 2 3 1250 = Some (ret, d') \<and>
           (0 \<le> ret \<longrightarrow>
              ret < 8 * 1250 \<and> \<not> bitmap_bit example_config example_disk 2 ret \<and>
              bitmap_bit example_config d' 2 ret \<and>
              bitmap_reset example_config d' 2 3 ret = Some (0, example_disk)) \<and>
           (ret < 0 \<longrightarrow>
              ret = -1 \<and> d' = example_disk \<and>
              (\<forall>ibit. 0 \<le> ibit \<and> ibit < 8 * 1250 \<and> ibit < 8 * SECTOR_SIZE example_config * 3 \<longrightarrow>
                 bitmap_bit example_config example_disk 2 ibit)) \<and>
           ret = 255"
proof -
  have ss: "0 < SECTOR_SIZE example_config" by (simp add: example_config_def)
  have secs: "\<forall>i. 0 \<le> i \<and> i < 3 \<longrightarrow>
                0 \<le> 2 + i \<and> 2 + i < TOTAL_SECTORS example_config \<and> as_raw (example_disk (2 + i)) \<noteq> None"
    by (auto simp: example_config_def example_disk_def)
  have r: "map_option fst (bitmap_first_unused example_config example_disk 2 3 1250) = Some 255"
    by code_simp
  show ?thesis using bitmap_round_trip[OF ss secs, of 1250] r by auto
qed

section \<open>The cursor of a session\<close>




section \<open>The read/write round trip\<close>

text \<open>
  Claim C2 (read/write round trip): for every \<open>N\<close> with
  \<open>0 \<le> N \<le> MAX_SECTORS_PER_FILE * SECTOR_SIZE\<close>, \<open>File_Write\<close> writes \<open>N\<close> bytes at
  offset 0 to a new open file and returns \<open>N\<close>, and the bytes are read back from offset 0
  by repeated calls of \<open>File_Read\<close>.

  The file is new and open: the session \<open>fd\<close> has the inode \<open>ino\<close>, size 0 and position
  0, and the inode is a file of size 0. The largest file size
  \<open>MAX_SECTORS_PER_FILE * SECTOR_SIZE\<close> is a value of the C type \<open>int\<close>, as the
  argument \<open>N\<close> of the two functions is. The volume is in order and has room for the file:
  the sectors of the sector bitmap are on the disk and hold bytes, the bitmap marks the
  sectors before the data blocks as used, the number of sectors is a multiple of 8 (the
  bitmap has no bit beyond the last sector), and \<open>frees\<close> lists sectors that the bitmap
  marks as free, \<open>SECTOR_SIZE\<close> bytes of them for the \<open>N\<close> bytes. Then \<open>File_Write\<close>
  returns \<open>N\<close> and, with the cursor back at offset 0, the loop of \<open>File_Read\<close> calls
  returns the \<open>N\<close> bytes of the buffer, in at most \<open>N\<close> calls. On descriptor 0 the call
  \<open>File_Seek(fd, 0)\<close> is what puts the cursor back. The example after the theorem is a
  file of \<open>MAX_SECTORS_PER_FILE * SECTOR_SIZE = 15360\<close> bytes in the sectors 256 to 285.
\<close>

theorem File_Write_File_Read_round_trip:
  assumes ss: "0 < SECTOR_SIZE c"
    and imax: "MAX_SECTORS_PER_FILE c * SECTOR_SIZE c \<le> INT_MAX"
    and fd: "0 \<le> fd" "fd < MAX_OPEN_FILES"
    and sess: "open_files st fd = \<lparr>of_inode = ino, of_size = 0, of_pos = 0\<rparr>"
    and ino: "0 < ino" "ino < MAX_FILES c"
    and inode: "inode_of c (disk st) ino = Some inode" "i_size inode = 0" "i_type inode = 0"
    and meta: "\<forall>s. 0 \<le> s \<and> s < DATABLOCK_START_SECTOR c \<longrightarrow>
                 bitmap_bit c (disk st) (SECTOR_BITMAP_START_SECTOR c) s"
    and n: "0 \<le> N" "N \<le> MAX_SECTORS_PER_FILE c * SECTOR_SIZE c"
    and t8: "TOTAL_SECTORS c mod 8 = 0"
    and wf: "\<forall>i. 0 \<le> i \<and> i < SECTOR_BITMAP_SECTORS c \<longrightarrow>
               0 \<le> SECTOR_BITMAP_START_SECTOR c + i \<and>
               SECTOR_BITMAP_START_SECTOR c + i < TOTAL_SECTORS c \<and>
               as_raw (disk st (SECTOR_BITMAP_START_SECTOR c + i)) \<noteq> None"
    and frees: "distinct frees"
      "\<forall>s\<in>set frees. 0 \<le> s \<and> s < TOTAL_SECTORS c \<and>
         \<not> bitmap_bit c (disk st) (SECTOR_BITMAP_START_SECTOR c) s"
      "N \<le> int (length frees) * SECTOR_SIZE c"
  shows "\<exists>st1. File_Write c st fd (Some buffer) N = Some (N, st1) \<and>
           (\<exists>st2. File_Read_all (nat N) c (rewind st1 fd) fd N
                     = Some (map buffer [0 ..< nat N], st2)) \<and>
           (fd = 0 \<longrightarrow> File_Seek c st1 fd 0 = Some (0, rewind st1 fd))"
proof -
  from File_Write_succeeds[OF ss imax fd sess ino inode meta n t8 wf frees]
  obtain st1 where w: "File_Write c st fd (Some buffer) N = Some (N, st1)" by blast
  have "N \<le> INT_MAX" using n(2) imax by simp
  from File_Write_then_File_Read_all[OF ss imax this fd sess ino inode meta n(1) w]
  show ?thesis using w by blast
qed

theorem File_Write_File_Read_round_trip_witness:
  "\<exists>st1. File_Write example_config example_volume_a_open 0 (Some (\<lambda>i. of_nat i)) 15360 = Some (15360, st1) \<and>
         (\<exists>st2. File_Read_all 15360 example_config (rewind st1 0) 0 15360
                   = Some (map (\<lambda>i. of_nat i) [0 ..< 15360], st2)) \<and>
         File_Seek example_config st1 0 0 = Some (0, rewind st1 0)"
proof -
  let ?c = example_config and ?st = example_volume_a_open
  let ?buffer = "\<lambda>i::nat. of_nat i :: byte"
  let ?frees = "[256 .. 285] :: int list"
  have ss: "0 < SECTOR_SIZE ?c" by (simp add: example_config_def)
  have imax: "MAX_SECTORS_PER_FILE ?c * SECTOR_SIZE ?c \<le> INT_MAX"
    by (simp add: example_config_def INT_MAX_def)
  have fd: "(0::int) \<le> 0" "0 < MAX_OPEN_FILES" by (simp_all add: MAX_OPEN_FILES_def)
  have sess: "open_files ?st 0 = \<lparr>of_inode = 1, of_size = 0, of_pos = 0\<rparr>" by code_simp
  have ino: "(0::int) < 1" "1 < MAX_FILES ?c" by (simp_all add: example_config_def)
  have "map_option (\<lambda>i. (i_size i, i_type i)) (inode_of ?c (disk ?st) 1) = Some (0, 0)"
    by code_simp
  then obtain inode where inode: "inode_of ?c (disk ?st) 1 = Some inode" "i_size inode = 0" "i_type inode = 0"
    by (cases "inode_of ?c (disk ?st) 1") auto
  have "list_all (\<lambda>s. bitmap_bit ?c (disk ?st) (SECTOR_BITMAP_START_SECTOR ?c) s) [0 .. 254]"
    by code_simp
  moreover have "DATABLOCK_START_SECTOR ?c = 255" by code_simp
  ultimately have meta: "\<forall>s. 0 \<le> s \<and> s < DATABLOCK_START_SECTOR ?c \<longrightarrow>
                           bitmap_bit ?c (disk ?st) (SECTOR_BITMAP_START_SECTOR ?c) s"
    by (simp add: list_all_iff)
  have n: "(0::int) \<le> 15360" "15360 \<le> MAX_SECTORS_PER_FILE ?c * SECTOR_SIZE ?c"
    by (simp_all add: example_config_def)
  have t8: "TOTAL_SECTORS ?c mod 8 = 0" by (simp add: example_config_def)
  have "list_all (\<lambda>i. 0 \<le> SECTOR_BITMAP_START_SECTOR ?c + i \<and>
                       SECTOR_BITMAP_START_SECTOR ?c + i < TOTAL_SECTORS ?c \<and>
                       as_raw (disk ?st (SECTOR_BITMAP_START_SECTOR ?c + i)) \<noteq> None) [0 .. 2]"
    by code_simp
  moreover have "SECTOR_BITMAP_SECTORS ?c = 3" by code_simp
  ultimately have wf: "\<forall>i. 0 \<le> i \<and> i < SECTOR_BITMAP_SECTORS ?c \<longrightarrow>
               0 \<le> SECTOR_BITMAP_START_SECTOR ?c + i \<and>
               SECTOR_BITMAP_START_SECTOR ?c + i < TOTAL_SECTORS ?c \<and>
               as_raw (disk ?st (SECTOR_BITMAP_START_SECTOR ?c + i)) \<noteq> None"
    by (simp add: list_all_iff)
  have "list_all (\<lambda>s. 0 \<le> s \<and> s < TOTAL_SECTORS ?c \<and>
                       \<not> bitmap_bit ?c (disk ?st) (SECTOR_BITMAP_START_SECTOR ?c) s) ?frees"
    by code_simp
  then have free: "\<forall>s\<in>set ?frees. 0 \<le> s \<and> s < TOTAL_SECTORS ?c \<and>
                     \<not> bitmap_bit ?c (disk ?st) (SECTOR_BITMAP_START_SECTOR ?c) s"
    by (simp only: list_all_iff)
  have dist: "distinct ?frees" by simp
  have room: "15360 \<le> int (length ?frees) * SECTOR_SIZE ?c"
    by (simp add: example_config_def)
  from File_Write_File_Read_round_trip[OF ss imax fd sess ino inode meta n t8 wf dist free room,
         where buffer = ?buffer]
  show ?thesis by simp
qed

end
